theory Spec2Isabelle
  imports Main
begin

section \<open>Python strings and paths\<close>

text \<open>
  A Python \<open>str\<close> is modelled as a \<open>string\<close> whose characters are the code points
  below 256. The platform is the POSIX one: \<open>os.sep\<close> is the slash and \<open>os.altsep\<close>
  is \<open>None\<close>; \<open>pathlib\<close> is \<open>PurePosixPath\<close> as it was before Python 3.14.
\<close>

definition os_sep :: char where
  "os_sep = CHR ''/''"

definition os_altsep :: "char option" where
  "os_altsep = None"

text \<open>The characters for which \<open>str.isspace\<close> holds, among the code points below 256.\<close>

definition is_space :: "char \<Rightarrow> bool" where
  "is_space c = (c \<in> set [CHR 0x09, CHR 0x0A, CHR 0x0B, CHR 0x0C, CHR 0x0D,
                           CHR 0x1C, CHR 0x1D, CHR 0x1E, CHR 0x1F, CHR 0x20,
                           CHR 0x85, CHR 0xA0])"

text \<open>\<open>s.replace(old, new)\<close> where \<open>old\<close> and \<open>new\<close> are single characters.\<close>

definition replace :: "char \<Rightarrow> char \<Rightarrow> string \<Rightarrow> string" where
  "replace old new s = map (\<lambda>c. if c = old then new else c) s"

text \<open>\<open>s.strip()\<close>\<close>

definition strip :: "string \<Rightarrow> string" where
  "strip s = rev (dropWhile is_space (rev (dropWhile is_space s)))"

text \<open>
  \<open>s.split()\<close> with no argument: the maximal runs of non-whitespace characters.
  The first argument is the word read so far.
\<close>

fun split_acc :: "string \<Rightarrow> string \<Rightarrow> string list" where
  "split_acc w [] = (if w = [] then [] else [w])"
| "split_acc w (c # cs) =
     (if is_space c then (if w = [] then split_acc [] cs else w # split_acc [] cs)
      else split_acc (w @ [c]) cs)"

definition split :: "string \<Rightarrow> string list" where
  "split s = split_acc [] s"

text \<open>\<open>sep.join(xs)\<close>\<close>

fun join :: "string \<Rightarrow> string list \<Rightarrow> string" where
  "join sep [] = []"
| "join sep [x] = x"
| "join sep (x # y # ys) = x @ sep @ join sep (y # ys)"

text \<open>\<open>s.split(c)\<close> with a single-character separator: never empty, keeps empty fields.\<close>

fun split_on :: "char \<Rightarrow> string \<Rightarrow> string list" where
  "split_on c [] = [[]]"
| "split_on c (x # xs) =
     (if x = c then [] # split_on c xs
      else (case split_on c xs of [] \<Rightarrow> [[x]] | y # ys \<Rightarrow> (x # y) # ys))"

text \<open>\<open>s.rfind(c)\<close>: the index of the last occurrence of \<open>c\<close>, or \<open>-1\<close>.\<close>

definition rfind :: "char \<Rightarrow> string \<Rightarrow> int" where
  "rfind c s =
     (if c \<in> set s then int (length s) - 1 - int (length (takeWhile (\<lambda>x. x \<noteq> c) (rev s)))
      else - 1)"

text \<open>\<open>os.path.basename(p)\<close> of \<open>posixpath\<close>: what follows the last slash.\<close>

definition basename :: "string \<Rightarrow> string" where
  "basename p = last (split_on os_sep p)"

text \<open>
  \<open>Path(p).name\<close>: the last component of the path, where empty components and
  \<open>.\<close> components are dropped by the parser; the empty string when none is left.
\<close>

definition path_name :: "string \<Rightarrow> string" where
  "path_name p =
     (case filter (\<lambda>c. c \<noteq> [] \<and> c \<noteq> ''.'') (split_on os_sep p) of
        [] \<Rightarrow> []
      | c # cs \<Rightarrow> last (c # cs))"

text \<open>\<open>Path(p).suffix\<close> and \<open>Path(p).stem\<close>\<close>

definition suffix :: "string \<Rightarrow> string" where
  "suffix p =
     (let name = path_name p; i = rfind CHR ''.'' name
      in if 0 < i \<and> i < int (length name) - 1 then drop (nat i) name else [])"

definition stem :: "string \<Rightarrow> string" where
  "stem p =
     (let name = path_name p; i = rfind CHR ''.'' name
      in if 0 < i \<and> i < int (length name) - 1 then take (nat i) name else name)"

text \<open>
  A \<open>Path\<close> object: its root (empty, one slash or two) and its components.
  \<open>Path(s)\<close> parses a string: the root is what the leading slashes make (exactly two
  slashes are kept), and the components are the pieces between slashes, the empty ones
  and the dots dropped.
\<close>

type_synonym path = "string \<times> string list"

definition Path :: "string \<Rightarrow> path" where
  "Path s =
     (let rel = dropWhile (\<lambda>c. c = os_sep) s;
          k = length s - length rel;
          root = (if k = 0 then [] else if k = 2 then [os_sep, os_sep] else [os_sep])
      in (root, filter (\<lambda>c. c \<noteq> [] \<and> c \<noteq> ''.'') (split_on os_sep rel)))"

text \<open>\<open>p / s\<close>: a rooted \<open>s\<close> replaces \<open>p\<close>, any other adds its components.\<close>

definition truediv :: "path \<Rightarrow> string \<Rightarrow> path" where
  "truediv p s =
     (case Path s of
        (root, comps) \<Rightarrow> if root \<noteq> [] then (root, comps) else (fst p, snd p @ comps))"

text \<open>\<open>str(p)\<close>\<close>

definition str_path :: "path \<Rightarrow> string" where
  "str_path p =
     (case p of
        (root, comps) \<Rightarrow> if root = [] \<and> comps = [] then ''.'' else root @ join [os_sep] comps)"

text \<open>\<open>p.suffix\<close> of a \<open>Path\<close> object\<close>

definition suffix_of :: "path \<Rightarrow> string" where
  "suffix_of p =
     (let name = (case snd p of [] \<Rightarrow> [] | c # cs \<Rightarrow> last (c # cs));
          i = rfind CHR ''.'' name
      in if 0 < i \<and> i < int (length name) - 1 then drop (nat i) name else [])"

text \<open>\<open>str(n)\<close> for an \<open>int\<close>, as an f-string renders it.\<close>

definition digit_char :: "nat \<Rightarrow> char" where
  "digit_char d =
     (if d = 0 then CHR ''0'' else if d = 1 then CHR ''1'' else if d = 2 then CHR ''2''
      else if d = 3 then CHR ''3'' else if d = 4 then CHR ''4'' else if d = 5 then CHR ''5''
      else if d = 6 then CHR ''6'' else if d = 7 then CHR ''7'' else if d = 8 then CHR ''8''
      else CHR ''9'')"

fun str_nat :: "nat \<Rightarrow> string" where
  "str_nat n =
     (if n < 10 then [digit_char n]
      else str_nat (n div 10) @ [digit_char (n mod 10)])"

definition str_int :: "int \<Rightarrow> string" where
  "str_int i = (if i < 0 then CHR ''-'' # str_nat (nat (- i)) else str_nat (nat i))"

section \<open>Data model\<close>

text \<open>
  The contents of a file are a list of bytes, a byte being a \<open>char\<close>. A path is a
  string, and the file system maps the paths of the files that exist to their contents;
  directories are implicit.
\<close>

type_synonym bytes = string

type_synonym files = "string \<rightharpoonup> bytes"

datatype error =
  FileNotFoundError | SameFileError | OSError | ValueError | TclError | ConflictError
| DuplicateDocument

text \<open>
  What the operating system does to the directory creation and the copy of one
  operation: both complete, \<open>mkdir\<close> raises, or the copy raises, leaving the
  destination as it was (\<open>None\<close>) or holding the bytes written so far.
\<close>

datatype disk = Sound | MkdirRaises error | CopyRaises error "bytes option"

text \<open>
  The rows of the two tables \<open>documents\<close> and \<open>revisions\<close>, with the keys the
  user interface reads from them and the keyword arguments it passes to
  \<open>add_machine_document_revision\<close>. The creation times, which the database sets by
  itself, are left out.
\<close>

record document =
  doc_id :: int
  doc_line :: string
  doc_machine :: string
  doc_type :: string
  doc_name :: string
  doc_created_by :: string
  doc_active :: bool

record revision =
  rev_id :: int
  rev_document_id :: int
  revision_number :: int
  stored_path :: string
  original_filename :: string
  file_hash :: string
  created_by :: string
  rev_notes :: "string option"

record database =
  documents :: "document list"
  revisions :: "revision list"

text \<open>
  What the module imports and this repository's files under \<open>app/\<close> do not hold:
  \<open>DATA_DIR\<close> of \<open>app/config.py\<close>, the functions of \<open>app/db.py\<close>, the SHA-256
  digest of \<open>hashlib\<close> and \<open>os.getlogin\<close> (\<open>None\<close> when it raises \<open>OSError\<close>).
  A function of the database takes the tables and, when it writes, returns them updated
  or the exception it raises.
\<close>

record env =
  DATA_DIR :: string
  sha256_hexdigest :: "bytes \<Rightarrow> string"
  os_getlogin :: "string option"
  find_machine_document_by_name_or_hash ::
    "database \<Rightarrow> string \<Rightarrow> string \<Rightarrow> string \<Rightarrow> string \<Rightarrow> string \<Rightarrow> document option"
  create_machine_document ::
    "database \<Rightarrow> string \<Rightarrow> string \<Rightarrow> string \<Rightarrow> string \<Rightarrow> string \<Rightarrow> error + (int \<times> database)"
  get_next_machine_document_revision_number :: "database \<Rightarrow> int \<Rightarrow> int"
  add_machine_document_revision ::
    "database \<Rightarrow> int \<Rightarrow> int \<Rightarrow> string \<Rightarrow> string \<Rightarrow> string \<Rightarrow> string \<Rightarrow> string option
       \<Rightarrow> error + database"
  list_machine_document_revisions :: "database \<Rightarrow> int \<Rightarrow> revision list"
  set_machine_document_active :: "database \<Rightarrow> int \<Rightarrow> bool \<Rightarrow> error + database"

text \<open>What an operation can change: the files and the tables.\<close>

record world =
  fs :: files
  db :: database

text \<open>
  The attributes of a \<open>MachineHistoryUI\<close> the handlers read. A row of \<open>doc_tree\<close> is
  the item's id with the first two of its values, the document name and the type label;
  the selections hold item ids.
\<close>

record ui =
  readonly :: bool
  selected_document_id :: "int option"
  selected_doc_type :: "string option"
  line_var :: string
  machine_var :: string
  doc_tree :: "(int \<times> string \<times> string) list"
  doc_tree_selection :: "int list"
  rev_tree_selection :: "int list"
  controller_user :: string

text \<open>
  What a handler shows or lets escape: a call of \<open>messagebox\<close> with its title and
  text, the error box of a failed import with the path and the exception, and an
  exception no handler catches.
\<close>

datatype event =
  ShowInfo string string
| ShowWarning string string
| ShowError string string
| ImportFailed string error
| Uncaught error

section \<open>The helpers of \<open>app/ui_machine_history.py\<close>\<close>

definition normalize_doc_name :: "string \<Rightarrow> string" where
  "normalize_doc_name filename =
     (let base = stem filename;
          base = strip (replace CHR ''_'' CHR '' '' base)
      in join '' '' (split base))"

definition safe_folder_name :: "string \<Rightarrow> string" where
  "safe_folder_name v =
     (let safe = replace os_sep CHR ''_'' v;
          safe = (case os_altsep of Some a \<Rightarrow> replace a CHR ''_'' safe | None \<Rightarrow> safe);
          safe = replace CHR '' '' CHR ''_'' safe
      in if safe = [] then ''document'' else safe)"

text \<open>\<open>_hash_file\<close>: the digest of the whole content, which the chunks fed to it make up.\<close>

definition hash_file :: "env \<Rightarrow> files \<Rightarrow> string \<Rightarrow> error + string" where
  "hash_file e fls path =
     (case fls path of
        None \<Rightarrow> Inl FileNotFoundError
      | Some content \<Rightarrow> Inr (sha256_hexdigest e content))"

definition get_username :: "env \<Rightarrow> ui \<Rightarrow> string" where
  "get_username e u =
     (let username = controller_user u
      in if username \<noteq> [] then username
         else (case os_getlogin e of Some n \<Rightarrow> n | None \<Rightarrow> ''Unknown''))"

text \<open>\<open>p.relative_to(base)\<close>, which raises \<open>ValueError\<close> when \<open>p\<close> is not under \<open>base\<close>.\<close>

definition relative_to :: "path \<Rightarrow> path \<Rightarrow> error + path" where
  "relative_to p base =
     (if fst p = fst base \<and> take (length (snd base)) (snd p) = snd base
      then Inr ([], drop (length (snd base)) (snd p))
      else Inl ValueError)"

text \<open>
  \<open>shutil.copy2(src, dst)\<close>: the source must exist and must not be the destination.
  When the copy completes the destination holds the bytes of the source, an existing
  destination being overwritten; when it raises, the destination is left as the disk
  says. Two paths are the same file when they are the same string.
\<close>

definition copy2 :: "disk \<Rightarrow> files \<Rightarrow> string \<Rightarrow> string \<Rightarrow> (error + unit) \<times> files" where
  "copy2 dk fls src dst =
     (case fls src of
        None \<Rightarrow> (Inl FileNotFoundError, fls)
      | Some content \<Rightarrow>
          if src = dst then (Inl SameFileError, fls)
          else (case dk of
                  CopyRaises exc None \<Rightarrow> (Inl exc, fls)
                | CopyRaises exc (Some written) \<Rightarrow> (Inl exc, fls(dst \<mapsto> written))
                | _ \<Rightarrow> (Inr (), fls(dst \<mapsto> content))))"

text \<open>\<open>target_dir.mkdir(parents=True, exist_ok=True)\<close>: it changes no file, and may raise.\<close>

definition mkdir :: "disk \<Rightarrow> error option" where
  "mkdir dk = (case dk of MkdirRaises exc \<Rightarrow> Some exc | _ \<Rightarrow> None)"

section \<open>The methods of \<open>MachineHistoryUI\<close>\<close>

text \<open>
  A method takes the environment, the object's attributes and what it reads from outside
  (the clock's \<open>strftime\<close> text, the disk's behaviour, the answer of a dialog), and
  returns what it shows with the files and tables it leaves. The calls of \<open>refresh_documents\<close> and
  \<open>_load_document_details\<close> that end a handler only rebuild the two trees from the
  tables, and are left out.
\<close>

definition MachineHistoryUI_init :: "(string \<Rightarrow> bool) \<Rightarrow> string \<Rightarrow> ui" where
  "MachineHistoryUI_init can_edit_screen user =
     \<lparr> readonly = \<not> can_edit_screen ''Master Data'',
       selected_document_id = None,
       selected_doc_type = None,
       line_var = [],
       machine_var = [],
       doc_tree = [],
       doc_tree_selection = [],
       rev_tree_selection = [],
       controller_user = user \<rparr>"

definition require_line_machine :: "ui \<Rightarrow> event list \<times> (string \<times> string) option" where
  "require_line_machine u =
     (let line = strip (line_var u); machine = strip (machine_var u)
      in if line = [] \<or> machine = []
         then ([ShowWarning ''Selection required'' ''Select both a line and machine first.''], None)
         else ([], Some (line, machine)))"

definition store_file ::
  "env \<Rightarrow> string \<Rightarrow> disk \<Rightarrow> files \<Rightarrow> string \<Rightarrow> string \<Rightarrow> string \<Rightarrow> string \<Rightarrow> string \<Rightarrow> int
     \<Rightarrow> (error + string) \<times> files" where
  "store_file e now dk fls source_path line machine dtype dname rev_no =
     (let timestamp = now;
          ext = suffix source_path;
          target_dir =
            truediv (truediv (truediv (truediv (truediv (Path (DATA_DIR e)) ''storage'')
              (safe_folder_name line)) (safe_folder_name machine)) dtype) (safe_folder_name dname)
      in case mkdir dk of
           Some exc \<Rightarrow> (Inl exc, fls)
         | None \<Rightarrow>
             (let target_path = truediv target_dir (''rev_'' @ str_int rev_no @ ''_'' @ timestamp @ ext)
              in case copy2 dk fls source_path (str_path target_path) of
                   (Inl exc, fls') \<Rightarrow> (Inl exc, fls')
                 | (Inr _, fls') \<Rightarrow>
                     (case relative_to target_path (Path (DATA_DIR e)) of
                        Inl exc \<Rightarrow> (Inl exc, fls')
                      | Inr rel \<Rightarrow> (Inr (str_path rel), fls'))))"

definition save_document ::
  "env \<Rightarrow> string \<Rightarrow> disk \<Rightarrow> world \<Rightarrow> string \<Rightarrow> string \<Rightarrow> string \<Rightarrow> string \<Rightarrow> string
     \<Rightarrow> (error + unit) \<times> world" where
  "save_document e now dk w source_path line machine dtype user =
     (let dname = normalize_doc_name (basename source_path)
      in case hash_file e (fs w) source_path of
           Inl exc \<Rightarrow> (Inl exc, w)
         | Inr fhash \<Rightarrow>
             (case (case find_machine_document_by_name_or_hash e (db w) line machine dtype dname fhash of
                      Some existing \<Rightarrow> Inr (doc_id existing, db w)
                    | None \<Rightarrow> create_machine_document e (db w) line machine dtype dname user) of
                Inl exc \<Rightarrow> (Inl exc, w)
              | Inr (document_id, db1) \<Rightarrow>
                  (let rev_no = get_next_machine_document_revision_number e db1 document_id
                   in case store_file e now dk (fs w) source_path line machine dtype dname rev_no of
                        (Inl exc, fls1) \<Rightarrow> (Inl exc, \<lparr>fs = fls1, db = db1\<rparr>)
                      | (Inr spath, fls1) \<Rightarrow>
                          (case add_machine_document_revision e db1 document_id rev_no spath
                                  (basename source_path) fhash user None of
                             Inl exc \<Rightarrow> (Inl exc, \<lparr>fs = fls1, db = db1\<rparr>)
                           | Inr db2 \<Rightarrow> (Inr (), \<lparr>fs = fls1, db = db2\<rparr>)))))"

text \<open>
  The loop of \<open>_import_documents\<close> over the chosen paths, each with the clock's text
  and the disk's behaviour at the time it is stored: an exception of one file is shown
  and the loop goes on.
\<close>

fun import_each ::
  "env \<Rightarrow> string \<Rightarrow> string \<Rightarrow> string \<Rightarrow> string \<Rightarrow> (string \<times> string \<times> disk) list \<Rightarrow> world
     \<Rightarrow> event list \<times> world" where
  "import_each e line machine dtype user [] w = ([], w)"
| "import_each e line machine dtype user ((path, now, dk) # rest) w =
     (case save_document e now dk w path line machine dtype user of
        (Inl exc, w') \<Rightarrow>
          (case import_each e line machine dtype user rest w' of
             (evs, w'') \<Rightarrow> (ImportFailed path exc # evs, w''))
      | (Inr _, w') \<Rightarrow> import_each e line machine dtype user rest w')"

definition import_documents ::
  "env \<Rightarrow> ui \<Rightarrow> (string \<times> string \<times> disk) list \<Rightarrow> world \<Rightarrow> string \<Rightarrow> event list \<times> world" where
  "import_documents e u paths w dtype =
     (if readonly u then ([], w)
      else case require_line_machine u of
             (evs, None) \<Rightarrow> (evs, w)
           | (_, Some (line, machine)) \<Rightarrow>
               if paths = [] then ([], w)
               else import_each e line machine dtype (get_username e u) paths w)"

definition import_programs ::
  "env \<Rightarrow> ui \<Rightarrow> (string \<times> string \<times> disk) list \<Rightarrow> world \<Rightarrow> event list \<times> world" where
  "import_programs e u paths w = import_documents e u paths w ''program''"

definition import_prints ::
  "env \<Rightarrow> ui \<Rightarrow> (string \<times> string \<times> disk) list \<Rightarrow> world \<Rightarrow> event list \<times> world" where
  "import_prints e u paths w = import_documents e u paths w ''print''"

definition selected_revision :: "env \<Rightarrow> ui \<Rightarrow> database \<Rightarrow> revision option" where
  "selected_revision e u d =
     (case selected_document_id u of
        None \<Rightarrow> None
      | Some sel \<Rightarrow>
          (case rev_tree_selection u of
             [] \<Rightarrow> None
           | revision_id # _ \<Rightarrow>
               find (\<lambda>r. rev_id r = revision_id) (list_machine_document_revisions e d sel)))"

definition get_current_revision :: "env \<Rightarrow> ui \<Rightarrow> database \<Rightarrow> revision option" where
  "get_current_revision e u d =
     (case selected_document_id u of
        None \<Rightarrow> None
      | Some sel \<Rightarrow>
          (case list_machine_document_revisions e d sel of [] \<Rightarrow> None | r # _ \<Rightarrow> Some r))"

definition resolve_path :: "env \<Rightarrow> string \<Rightarrow> path" where
  "resolve_path e spath = truediv (Path (DATA_DIR e)) spath"

text \<open>
  \<open>self.doc_tree.item(str(self._selected_document_id), "values")[0]\<close>, which raises
  \<open>TclError\<close> when the tree has no such item.
\<close>

definition doc_tree_name :: "ui \<Rightarrow> error + string" where
  "doc_tree_name u =
     (case selected_document_id u of
        None \<Rightarrow> Inl TclError
      | Some sel \<Rightarrow>
          (case map_of (doc_tree u) sel of
             None \<Rightarrow> Inl TclError
           | Some (name, label) \<Rightarrow> Inr name))"

text \<open>\<open>target_dir\<close> is the answer of \<open>filedialog.askdirectory\<close>, empty when cancelled.\<close>

definition export_revision ::
  "env \<Rightarrow> ui \<Rightarrow> string \<Rightarrow> disk \<Rightarrow> files \<Rightarrow> revision \<Rightarrow> event list \<times> files" where
  "export_revision e u target_dir dk fls rv =
     (if target_dir = [] then ([], fls)
      else let spath = resolve_path e (stored_path rv)
           in if fls (str_path spath) = None
              then ([ShowError ''Export Failed'' ''Stored file not found.''], fls)
              else let ext = suffix_of spath
                   in case doc_tree_name u of
                        Inl exc \<Rightarrow> ([Uncaught exc], fls)
                      | Inr dname \<Rightarrow>
                          (let filename = dname @ ''_rev'' @ str_int (revision_number rv) @ ext;
                               target_path = truediv (Path target_dir) filename
                           in case copy2 dk fls (str_path spath) (str_path target_path) of
                                (Inl exc, fls') \<Rightarrow> ([Uncaught exc], fls')
                              | (Inr _, fls') \<Rightarrow>
                                  ([ShowInfo ''Exported'' (''Exported to '' @ str_path target_path)],
                                   fls')))"

definition export_current :: "env \<Rightarrow> ui \<Rightarrow> string \<Rightarrow> disk \<Rightarrow> world \<Rightarrow> event list \<times> files" where
  "export_current e u target_dir dk w =
     (case get_current_revision e u (db w) of
        None \<Rightarrow> ([ShowInfo ''Export'' ''Select a document first.''], fs w)
      | Some rv \<Rightarrow> export_revision e u target_dir dk (fs w) rv)"

definition export_selected_revision ::
  "env \<Rightarrow> ui \<Rightarrow> string \<Rightarrow> disk \<Rightarrow> world \<Rightarrow> event list \<times> files" where
  "export_selected_revision e u target_dir dk w =
     (case selected_revision e u (db w) of
        None \<Rightarrow> ([ShowInfo ''Export'' ''Select a revision first.''], fs w)
      | Some rv \<Rightarrow> export_revision e u target_dir dk (fs w) rv)"

definition recall_selected :: "env \<Rightarrow> ui \<Rightarrow> string \<Rightarrow> disk \<Rightarrow> world \<Rightarrow> event list \<times> world" where
  "recall_selected e u now dk w =
     (if readonly u then ([], w)
      else case selected_revision e u (db w) of
        None \<Rightarrow> ([ShowInfo ''Recall'' ''Select a revision to recall.''], w)
      | Some rv \<Rightarrow>
      (case selected_document_id u of
        None \<Rightarrow> ([], w)
      | Some sel \<Rightarrow>
      (let spath = resolve_path e (stored_path rv)
       in if fs w (str_path spath) = None
          then ([ShowError ''Recall Failed'' ''Stored file not found.''], w)
          else case require_line_machine u of
            (evs, None) \<Rightarrow> (evs, w)
          | (_, Some (line, machine)) \<Rightarrow>
          (case doc_tree_name u of
            Inl exc \<Rightarrow> ([Uncaught exc], w)
          | Inr dname \<Rightarrow>
          (let user = get_username e u;
               rev_no = get_next_machine_document_revision_number e (db w) sel;
               dtype = (case selected_doc_type u of
                          None \<Rightarrow> ''program''
                        | Some t \<Rightarrow> if t = [] then ''program'' else t)
           in case store_file e now dk (fs w) (str_path spath) line machine dtype dname rev_no of
                (Inl exc, fls1) \<Rightarrow> ([Uncaught exc], \<lparr>fs = fls1, db = db w\<rparr>)
              | (Inr new_path, fls1) \<Rightarrow>
              (case hash_file e fls1 (str_path spath) of
                Inl exc \<Rightarrow> ([Uncaught exc], \<lparr>fs = fls1, db = db w\<rparr>)
              | Inr fhash \<Rightarrow>
              (case add_machine_document_revision e (db w) sel rev_no new_path
                      (original_filename rv) fhash user (Some ''Recalled previous revision'') of
                Inl exc \<Rightarrow> ([Uncaught exc], \<lparr>fs = fls1, db = db w\<rparr>)
              | Inr db' \<Rightarrow> ([], \<lparr>fs = fls1, db = db'\<rparr>))))))))"

text \<open>\<open>confirm\<close> is the answer of \<open>messagebox.askyesno\<close>.\<close>

definition delete_document :: "env \<Rightarrow> ui \<Rightarrow> bool \<Rightarrow> world \<Rightarrow> event list \<times> world" where
  "delete_document e u confirm w =
     (if readonly u then ([], w)
      else case doc_tree_selection u of
             [] \<Rightarrow> ([ShowInfo ''Delete'' ''Select a document first.''], w)
           | did # _ \<Rightarrow>
               if \<not> confirm then ([], w)
               else (case set_machine_document_active e (db w) did False of
                       Inl exc \<Rightarrow> ([Uncaught exc], w)
                     | Inr db' \<Rightarrow> ([], \<lparr>fs = fs w, db = db'\<rparr>)))"

section \<open>The database functions, after the specification\<close>

text \<open>The revision numbers of a document, in the order of the ledger.\<close>

definition revision_numbers :: "database \<Rightarrow> int \<Rightarrow> int list" where
  "revision_numbers d did =
     map revision_number (filter (\<lambda>r. rev_document_id r = did) (revisions d))"

definition same_target :: "document \<Rightarrow> string \<Rightarrow> string \<Rightarrow> string \<Rightarrow> bool" where
  "same_target x line machine dtype =
     (doc_line x = line \<and> doc_machine x = machine \<and> doc_type x = dtype)"

definition has_content :: "database \<Rightarrow> document \<Rightarrow> string \<Rightarrow> bool" where
  "has_content d x fhash =
     list_ex (\<lambda>r. rev_document_id r = doc_id x \<and> file_hash r = fhash) (revisions d)"

text \<open>
  Modelled from the spec: \<open>find_machine_document_by_name_or_hash\<close> of \<open>app/db.py\<close>,
  which is not among the sources. Section 4.3: the lookup is first an exact match on
  line, machine, type and normalized name and, if there is none, a match on line,
  machine, type and content hash. The first matching row is taken.
\<close>

definition spec_find_machine_document_by_name_or_hash ::
  "database \<Rightarrow> string \<Rightarrow> string \<Rightarrow> string \<Rightarrow> string \<Rightarrow> string \<Rightarrow> document option" where
  "spec_find_machine_document_by_name_or_hash d line machine dtype dname fhash =
     (case find (\<lambda>x. same_target x line machine dtype \<and> doc_name x = dname) (documents d) of
        Some x \<Rightarrow> Some x
      | None \<Rightarrow>
          find (\<lambda>x. same_target x line machine dtype \<and> has_content d x fhash) (documents d))"

text \<open>
  Modelled from the spec: \<open>create_machine_document\<close> of \<open>app/db.py\<close>. Section 4.3:
  it allocates a new identity and fails if an identical identity already exists; section
  3: a document is active by default. The new id is one more than the largest id.
\<close>

definition spec_create_machine_document ::
  "database \<Rightarrow> string \<Rightarrow> string \<Rightarrow> string \<Rightarrow> string \<Rightarrow> string \<Rightarrow> error + (int \<times> database)" where
  "spec_create_machine_document d line machine dtype dname user =
     (if list_ex (\<lambda>x. same_target x line machine dtype \<and> doc_name x = dname) (documents d)
      then Inl DuplicateDocument
      else let new_id = fold max (map doc_id (documents d)) 0 + 1
           in Inr (new_id,
                d\<lparr>documents := documents d @
                  [\<lparr>doc_id = new_id, doc_line = line, doc_machine = machine, doc_type = dtype,
                    doc_name = dname, doc_created_by = user, doc_active = True\<rparr>]\<rparr>))"

text \<open>
  Modelled from the spec: \<open>get_next_machine_document_revision_number\<close> of
  \<open>app/db.py\<close>. Section 4.4: one plus the maximum existing revision number of the
  document, or 1 if none exist.
\<close>

definition spec_get_next_machine_document_revision_number :: "database \<Rightarrow> int \<Rightarrow> int" where
  "spec_get_next_machine_document_revision_number d did =
     (case revision_numbers d did of
        [] \<Rightarrow> 1
      | n # ns \<Rightarrow> fold max ns n + 1)"

text \<open>
  Modelled from the spec: \<open>add_machine_document_revision\<close> of \<open>app/db.py\<close>. Section
  4.4: a pure append, which fails if the revision number is not exactly one greater than
  the current maximum.
\<close>

definition spec_add_machine_document_revision ::
  "database \<Rightarrow> int \<Rightarrow> int \<Rightarrow> string \<Rightarrow> string \<Rightarrow> string \<Rightarrow> string \<Rightarrow> string option
     \<Rightarrow> error + database" where
  "spec_add_machine_document_revision d did rev_no spath oname fhash user nts =
     (if rev_no \<noteq> spec_get_next_machine_document_revision_number d did then Inl ConflictError
      else Inr (d\<lparr>revisions := revisions d @
                  [\<lparr>rev_id = fold max (map rev_id (revisions d)) 0 + 1,
                    rev_document_id = did, revision_number = rev_no, stored_path = spath,
                    original_filename = oname, file_hash = fhash, created_by = user,
                    rev_notes = nts\<rparr>]\<rparr>))"

text \<open>
  Modelled from the spec: \<open>list_machine_document_revisions\<close> of \<open>app/db.py\<close>.
  Section 4.4: the revisions of the document, most recent first.
\<close>

definition spec_list_machine_document_revisions :: "database \<Rightarrow> int \<Rightarrow> revision list" where
  "spec_list_machine_document_revisions d did =
     rev (filter (\<lambda>r. rev_document_id r = did) (revisions d))"

text \<open>
  Modelled from the spec: \<open>set_machine_document_active\<close> of \<open>app/db.py\<close>. Section
  4.8: deactivation sets the flag of the document and touches nothing else.
\<close>

definition spec_set_machine_document_active :: "database \<Rightarrow> int \<Rightarrow> bool \<Rightarrow> error + database" where
  "spec_set_machine_document_active d did flag =
     Inr (d\<lparr>documents := map (\<lambda>x. if doc_id x = did then x\<lparr>doc_active := flag\<rparr> else x)
                                (documents d)\<rparr>)"

text \<open>The environment whose database is the one the specification describes.\<close>

definition spec_env :: "string \<Rightarrow> (bytes \<Rightarrow> string) \<Rightarrow> string option \<Rightarrow> env" where
  "spec_env data_dir digest login =
     \<lparr> DATA_DIR = data_dir,
       sha256_hexdigest = digest,
       os_getlogin = login,
       find_machine_document_by_name_or_hash = spec_find_machine_document_by_name_or_hash,
       create_machine_document = spec_create_machine_document,
       get_next_machine_document_revision_number = spec_get_next_machine_document_revision_number,
       add_machine_document_revision = spec_add_machine_document_revision,
       list_machine_document_revisions = spec_list_machine_document_revisions,
       set_machine_document_active = spec_set_machine_document_active \<rparr>"

section \<open>An example installation\<close>

text \<open>
  The state after scenario A of the specification: the user \<open>ann\<close> has imported
  \<open>Program1.txt\<close> for the machine \<open>Mill-1\<close> of \<open>Line A\<close>. The digest of the
  example is the content itself, so that different contents have different digests.
\<close>

definition example_env :: env where
  "example_env = spec_env ''/data'' (\<lambda>content. content) None"

definition example_ui :: ui where
  "example_ui =
     \<lparr> readonly = False, selected_document_id = Some 1, selected_doc_type = Some ''program'',
       line_var = ''Line A'', machine_var = ''Mill-1'',
       doc_tree = [(1, ''Program1'', ''Program'')],
       doc_tree_selection = [1], rev_tree_selection = [1], controller_user = ''ann'' \<rparr>"

definition example_document :: document where
  "example_document =
     \<lparr> doc_id = 1, doc_line = ''Line A'', doc_machine = ''Mill-1'', doc_type = ''program'',
       doc_name = ''Program1'', doc_created_by = ''ann'', doc_active = True \<rparr>"

definition example_revision :: revision where
  "example_revision =
     \<lparr> rev_id = 1, rev_document_id = 1, revision_number = 1,
       stored_path = ''storage/Line_A/Mill-1/program/Program1/rev_1_20240101120000.txt'',
       original_filename = ''Program1.txt'', file_hash = ''G01'', created_by = ''ann'',
       rev_notes = None \<rparr>"

definition example_world :: world where
  "example_world =
     \<lparr> fs = [''/in/Program1.txt'' \<mapsto> ''G01'',
             ''/data/storage/Line_A/Mill-1/program/Program1/rev_1_20240101120000.txt'' \<mapsto> ''G01''],
       db = \<lparr>documents = [example_document], revisions = [example_revision]\<rparr> \<rparr>"

text \<open>The example installation with a second document, which has no revision yet.\<close>

definition other_document :: document where
  "other_document =
     \<lparr> doc_id = 2, doc_line = ''Line A'', doc_machine = ''Mill-1'', doc_type = ''print'',
       doc_name = ''Drawing'', doc_created_by = ''bob'', doc_active = True \<rparr>"

definition two_documents_world :: world where
  "two_documents_world =
     \<lparr> fs = fs example_world,
       db = \<lparr>documents = [example_document, other_document], revisions = [example_revision]\<rparr> \<rparr>"

text \<open>An environment whose ledger refuses every append, as it does after a collision.\<close>

definition rejecting_env :: env where
  "rejecting_env =
     example_env\<lparr>add_machine_document_revision :=
       \<lambda>d did rev_no spath oname fhash user nts. Inl ConflictError\<rparr>"

text \<open>The example installation after the stored file was overwritten from outside.\<close>

definition tampered_world :: world where
  "tampered_world =
     \<lparr> fs = [''/in/Program1.txt'' \<mapsto> ''G01'',
             ''/data/storage/Line_A/Mill-1/program/Program1/rev_1_20240101120000.txt'' \<mapsto> ''G99''],
       db = \<lparr>documents = [example_document], revisions = [example_revision]\<rparr> \<rparr>"

text \<open>Two files of the same name, one for each of two lines.\<close>

definition two_lines_world :: world where
  "two_lines_world =
     \<lparr> fs = [''/in/a.txt'' \<mapsto> ''G01'', ''/in2/a.txt'' \<mapsto> ''G02''],
       db = \<lparr>documents = [], revisions = []\<rparr> \<rparr>"

text \<open>The decimal digits, of which \<open>str_int\<close> makes its result.\<close>

definition is_digit :: "char \<Rightarrow> bool" where
  "is_digit c = (c \<in> set ''0123456789'')"

text \<open>
  The example installation with two files to import: the first program again under a
  new name, and a file of other content.
\<close>

definition incoming_world :: world where
  "incoming_world =
     \<lparr> fs = [''/in/Program1_updated.txt'' \<mapsto> ''G01'', ''/in/Other.txt'' \<mapsto> ''G55'',
             ''/data/storage/Line_A/Mill-1/program/Program1/rev_1_20240101120000.txt'' \<mapsto> ''G01''],
       db = \<lparr>documents = [example_document], revisions = [example_revision]\<rparr> \<rparr>"

section \<open>Name normalization, after the specification\<close>

text \<open>
  Section 4.3 of the specification words the normalization as: strip the extension,
  replace path-separator-like characters and underscores with single spaces, collapse
  internal whitespace, trim. The path-separator-like characters are taken to be the
  slash and the backslash, and the extension what follows the last dot.
\<close>

definition path_separator_like :: "char \<Rightarrow> bool" where
  "path_separator_like c = (c = CHR ''/'' \<or> c = CHR 0x5C)"

definition spec_strip_extension :: "string \<Rightarrow> string" where
  "spec_strip_extension s =
     (let i = rfind CHR ''.'' s
      in if 0 < i \<and> i < int (length s) - 1 then take (nat i) s else s)"

definition spec_normalize_doc_name :: "string \<Rightarrow> string" where
  "spec_normalize_doc_name s =
     join '' ''
       (split (map (\<lambda>c. if path_separator_like c \<or> c = CHR ''_'' then CHR '' '' else c)
                 (spec_strip_extension s)))"

text \<open>Whether a string has two spaces next to each other.\<close>

fun adjacent_spaces :: "string \<Rightarrow> bool" where
  "adjacent_spaces (a # b # r) = ((a = CHR '' '' \<and> b = CHR '' '') \<or> adjacent_spaces (b # r))"
| "adjacent_spaces r = False"

section \<open>The layout of storage, after the specification\<close>

text \<open>
  Sections 4.2 and 6 of the specification: a stored path is
  \<open>line/machine/doc_type/document-name/\<close> under \<open>storage\<close>, with a file name that
  encodes the revision number, the timestamp and the extension.
\<close>

definition stored_layout ::
  "string \<Rightarrow> string \<Rightarrow> string \<Rightarrow> string \<Rightarrow> int \<Rightarrow> string \<Rightarrow> string \<Rightarrow> string" where
  "stored_layout line machine dtype dname rev_no timestamp ext =
     join [os_sep]
       [''storage'', safe_folder_name line, safe_folder_name machine, dtype, safe_folder_name dname,
        ''rev_'' @ str_int rev_no @ ''_'' @ timestamp @ ext]"

text \<open>
  A component that \<open>pathlib\<close> keeps as it is: not empty, not a dot, without a slash.
\<close>

definition plain :: "string \<Rightarrow> bool" where
  "plain c = (c \<noteq> [] \<and> c \<noteq> ''.'' \<and> os_sep \<notin> set c)"

text \<open>The path at which \<open>_store_file\<close> puts a file of the given name.\<close>

definition storage_target :: "env \<Rightarrow> string \<Rightarrow> string \<Rightarrow> string \<Rightarrow> string \<Rightarrow> string \<Rightarrow> path" where
  "storage_target e line machine dtype dname fname =
     truediv (truediv (truediv (truediv (truediv (truediv (Path (DATA_DIR e)) ''storage'')
       (safe_folder_name line)) (safe_folder_name machine)) dtype) (safe_folder_name dname)) fname"

section \<open>Sequences of operations\<close>

text \<open>
  What a user does at the screen, with the attributes the object has at that moment and
  what the handler reads from outside.
\<close>

datatype action =
  Import ui "(string \<times> string \<times> disk) list" string
| Recall ui string disk
| Deactivate ui bool
| ExportCurrent ui string disk
| ExportSelected ui string disk

fun perform :: "env \<Rightarrow> action \<Rightarrow> world \<Rightarrow> world" where
  "perform e (Import u paths dtype) w = snd (import_documents e u paths w dtype)"
| "perform e (Recall u now dk) w = snd (recall_selected e u now dk w)"
| "perform e (Deactivate u confirm) w = snd (delete_document e u confirm w)"
| "perform e (ExportCurrent u target_dir dk) w =
     \<lparr>fs = snd (export_current e u target_dir dk w), db = db w\<rparr>"
| "perform e (ExportSelected u target_dir dk) w =
     \<lparr>fs = snd (export_selected_revision e u target_dir dk w), db = db w\<rparr>"

fun run :: "env \<Rightarrow> action list \<Rightarrow> world \<Rightarrow> world" where
  "run e [] w = w"
| "run e (a # as) w = run e as (perform e a w)"

text \<open>
  The revision numbers of every document that has revisions are \<open>1, 2, \<dots>, N\<close> in the
  order of the ledger.
\<close>

definition gapless :: "database \<Rightarrow> bool" where
  "gapless d =
     list_all (\<lambda>did. revision_numbers d did = [1..int (length (revision_numbers d did))])
       (remdups (map rev_document_id (revisions d)))"

section \<open>Read-only screens\<close>

text \<open>
  C10: when the user cannot edit the screen "Master Data", so that the constructor sets
  \<open>readonly\<close>, the import, recall and deactivate handlers return at once: they show
  nothing and leave every file, document and revision as it was.
\<close>

theorem readonly_handlers_change_nothing:
  assumes "\<not> can_edit_screen ''Master Data''"
    and "readonly u = readonly (MachineHistoryUI_init can_edit_screen usr)"
  shows "import_documents e u paths w dtype = ([], w)
       \<and> recall_selected e u now dk w = ([], w)
       \<and> delete_document e u confirm w = ([], w)"
proof -
  from assms have ro: "readonly u"
    by (simp add: MachineHistoryUI_init_def)
  show ?thesis
    using ro by (simp add: import_documents_def recall_selected_def delete_document_def)
qed

theorem readonly_handlers_change_nothing_witness:
  "import_documents (spec_env ''/data'' (\<lambda>b. b) None)
       ((MachineHistoryUI_init (\<lambda>s. False) ''ann'')\<lparr>line_var := ''Line A'', machine_var := ''Mill-1''\<rparr>)
       [(''/in/Program1.txt'', ''20240101120000'', Sound)]
       \<lparr>fs = [''/in/Program1.txt'' \<mapsto> ''G01''], db = \<lparr>documents = [], revisions = []\<rparr>\<rparr> ''program''
     = ([], \<lparr>fs = [''/in/Program1.txt'' \<mapsto> ''G01''], db = \<lparr>documents = [], revisions = []\<rparr>\<rparr>)
   \<and> recall_selected (spec_env ''/data'' (\<lambda>b. b) None)
       ((MachineHistoryUI_init (\<lambda>s. False) ''ann'')\<lparr>line_var := ''Line A'', machine_var := ''Mill-1''\<rparr>)
       ''20240101120000'' Sound
       \<lparr>fs = [''/in/Program1.txt'' \<mapsto> ''G01''], db = \<lparr>documents = [], revisions = []\<rparr>\<rparr>
     = ([], \<lparr>fs = [''/in/Program1.txt'' \<mapsto> ''G01''], db = \<lparr>documents = [], revisions = []\<rparr>\<rparr>)
   \<and> delete_document (spec_env ''/data'' (\<lambda>b. b) None)
       ((MachineHistoryUI_init (\<lambda>s. False) ''ann'')\<lparr>line_var := ''Line A'', machine_var := ''Mill-1''\<rparr>)
       True
       \<lparr>fs = [''/in/Program1.txt'' \<mapsto> ''G01''], db = \<lparr>documents = [], revisions = []\<rparr>\<rparr>
     = ([], \<lparr>fs = [''/in/Program1.txt'' \<mapsto> ''G01''], db = \<lparr>documents = [], revisions = []\<rparr>\<rparr>)"
  by (rule readonly_handlers_change_nothing [where can_edit_screen = "\<lambda>s. False" and usr = "''ann''"])
     (simp_all add: MachineHistoryUI_init_def)

section \<open>Deactivation\<close>

lemma spec_env_sel [simp]:
  "DATA_DIR (spec_env dd digest login) = dd"
  "sha256_hexdigest (spec_env dd digest login) = digest"
  "os_getlogin (spec_env dd digest login) = login"
  "find_machine_document_by_name_or_hash (spec_env dd digest login)
     = spec_find_machine_document_by_name_or_hash"
  "create_machine_document (spec_env dd digest login) = spec_create_machine_document"
  "get_next_machine_document_revision_number (spec_env dd digest login)
     = spec_get_next_machine_document_revision_number"
  "add_machine_document_revision (spec_env dd digest login) = spec_add_machine_document_revision"
  "list_machine_document_revisions (spec_env dd digest login) = spec_list_machine_document_revisions"
  "set_machine_document_active (spec_env dd digest login) = spec_set_machine_document_active"
  by (simp_all add: spec_env_def)

lemma delete_document_spec:
  "delete_document (spec_env dd digest login) u confirm w =
     (if readonly u then ([], w)
      else if doc_tree_selection u = [] then ([ShowInfo ''Delete'' ''Select a document first.''], w)
      else if \<not> confirm then ([], w)
      else ([], \<lparr>fs = fs w, db = (db w)\<lparr>documents :=
              map (\<lambda>x. if doc_id x = hd (doc_tree_selection u) then x\<lparr>doc_active := False\<rparr> else x)
                (documents (db w))\<rparr>\<rparr>))"
  by (simp add: delete_document_def spec_set_machine_document_active_def split: list.splits)

text \<open>
  C9: with the database of the specification, the handler \<open>_delete_document\<close> leaves
  the files and the revisions as they were. When it goes through (not read-only, a
  document selected, the question answered yes) the documents are as before but for the
  document with the selected id, whose \<open>active\<close> flag is now false and whose other
  fields are as before; otherwise nothing at all has changed.
\<close>

theorem deactivate_only_flips_active:
  assumes "delete_document (spec_env dd digest login) u confirm w = (evs, w')"
  shows "fs w' = fs w
       \<and> revisions (db w') = revisions (db w)
       \<and> (\<not> readonly u \<and> confirm \<and> doc_tree_selection u \<noteq> [] \<longrightarrow>
            documents (db w') =
              map (\<lambda>x. if doc_id x = hd (doc_tree_selection u) then x\<lparr>doc_active := False\<rparr> else x)
                (documents (db w)))
       \<and> (\<not> (\<not> readonly u \<and> confirm \<and> doc_tree_selection u \<noteq> []) \<longrightarrow> w' = w)"
proof (cases "\<not> readonly u \<and> confirm \<and> doc_tree_selection u \<noteq> []")
  case True
  with assms have "w' = \<lparr>fs = fs w, db = (db w)\<lparr>documents :=
              map (\<lambda>x. if doc_id x = hd (doc_tree_selection u) then x\<lparr>doc_active := False\<rparr> else x)
                (documents (db w))\<rparr>\<rparr>"
    by (simp add: delete_document_spec)
  with True show ?thesis
    by simp
next
  case False
  with assms have "w' = w"
    by (auto simp: delete_document_spec split: if_splits)
  with False show ?thesis
    by blast
qed

text \<open>
  In the example, a second document is listed beside the selected one: after the
  deactivation of document 1 it is still active.
\<close>

theorem deactivate_only_flips_active_witness:
  "fs (snd (delete_document example_env example_ui True two_documents_world)) = fs two_documents_world
   \<and> revisions (db (snd (delete_document example_env example_ui True two_documents_world)))
       = [example_revision]
   \<and> documents (db (snd (delete_document example_env example_ui True two_documents_world)))
       = [example_document\<lparr>doc_active := False\<rparr>, other_document]
   \<and> delete_document example_env example_ui False two_documents_world = ([], two_documents_world)"
proof -
  let ?e = "spec_env ''/data'' (\<lambda>content. content) None"
  have yes: "\<not> readonly example_ui \<and> True \<and> doc_tree_selection example_ui \<noteq> []"
    and no: "\<not> (\<not> readonly example_ui \<and> False \<and> doc_tree_selection example_ui \<noteq> [])"
    and sel: "hd (doc_tree_selection example_ui) = 1"
    by (simp_all add: example_ui_def)
  have ids: "doc_id example_document = 1" "doc_id other_document \<noteq> 1"
    by (simp_all add: example_document_def other_document_def)
  from deactivate_only_flips_active
    [of "''/data''" "\<lambda>content. content" None example_ui True two_documents_world, OF surjective_pairing]
    yes
  have a: "fs (snd (delete_document ?e example_ui True two_documents_world)) = fs two_documents_world"
    and b: "revisions (db (snd (delete_document ?e example_ui True two_documents_world)))
      = revisions (db two_documents_world)"
    and c: "documents (db (snd (delete_document ?e example_ui True two_documents_world)))
      = map (\<lambda>x. if doc_id x = hd (doc_tree_selection example_ui) then x\<lparr>doc_active := False\<rparr> else x)
          (documents (db two_documents_world))"
    by blast+
  from deactivate_only_flips_active
    [of "''/data''" "\<lambda>content. content" None example_ui False two_documents_world, OF surjective_pairing]
    no
  have d: "snd (delete_document ?e example_ui False two_documents_world) = two_documents_world"
    by blast
  have e: "fst (delete_document ?e example_ui False two_documents_world) = []"
    by (simp add: delete_document_spec example_ui_def)
  from a b c d e show ?thesis
    unfolding example_env_def
    by (simp add: sel ids two_documents_world_def prod_eq_iff)
qed

section \<open>Paths\<close>

lemma split_on_no_sep: "\<forall>x \<in> set (split_on c s). c \<notin> set x"
proof (induction s)
  case Nil
  then show ?case by simp
next
  case (Cons a s)
  then show ?case
    by (cases "split_on c s") auto
qed

lemma split_on_single: "c \<notin> set a \<Longrightarrow> split_on c a = [a]"
  by (induction a) auto

lemma split_on_append: "c \<notin> set a \<Longrightarrow> split_on c (a @ c # r) = a # split_on c r"
  by (induction a) auto

lemma split_on_join:
  assumes "\<forall>x \<in> set xs. c \<notin> set x" and "xs \<noteq> []"
  shows "split_on c (join [c] xs) = xs"
  using assms
proof (induction "[c]" xs rule: join.induct)
  case 1
  then show ?case by simp
next
  case (2 x)
  then show ?case
    by (simp add: split_on_single)
next
  case (3 x y ys)
  then have "split_on c (x @ c # join [c] (y # ys)) = x # split_on c (join [c] (y # ys))"
    by (simp add: split_on_append)
  with 3 show ?case
    by simp
qed

lemma Path_plain: "\<forall>x \<in> set (snd (Path s)). plain x"
  using split_on_no_sep [of os_sep "dropWhile (\<lambda>c. c = os_sep) s"]
  by (auto simp: Path_def Let_def plain_def)

lemma Path_of_plain:
  assumes "plain c"
  shows "Path c = ([], [c])"
proof -
  from assms obtain a r where c: "c = a # r" and a: "a \<noteq> os_sep"
    by (cases c) (auto simp: plain_def)
  then have "dropWhile (\<lambda>x. x = os_sep) c = c"
    by simp
  moreover from assms have "split_on os_sep c = [c]"
    by (simp add: plain_def split_on_single)
  ultimately show ?thesis
    using assms by (simp add: Path_def plain_def)
qed

lemma truediv_plain:
  assumes "\<forall>x \<in> set (snd p). plain x"
  shows "\<forall>x \<in> set (snd (truediv p s)). plain x"
proof -
  obtain root comps where ps: "Path s = (root, comps)"
    by (cases "Path s")
  with Path_plain [of s] have "\<forall>x \<in> set comps. plain x"
    by simp
  with assms ps show ?thesis
    by (auto simp: truediv_def)
qed

lemma truediv_of_plain: "plain c \<Longrightarrow> truediv p c = (fst p, snd p @ [c])"
  by (simp add: truediv_def Path_of_plain)

lemma Path_str_relative:
  assumes "\<forall>x \<in> set cs. plain x"
  shows "Path (str_path ([], cs)) = ([], cs)"
proof (cases cs)
  case Nil
  then show ?thesis
    by (simp add: str_path_def Path_def os_sep_def)
next
  case (Cons c rest)
  with assms obtain a r where c: "c = a # r" and a: "a \<noteq> os_sep"
    by (cases c) (auto simp: plain_def)
  have "join [os_sep] cs = a # r @ (case rest of [] \<Rightarrow> [] | _ \<Rightarrow> os_sep # join [os_sep] rest)"
    using Cons c by (cases rest) simp_all
  with a have d: "dropWhile (\<lambda>x. x = os_sep) (join [os_sep] cs) = join [os_sep] cs"
    by simp
  from assms have "\<forall>x \<in> set cs. os_sep \<notin> set x"
    by (simp add: plain_def)
  with Cons have s: "split_on os_sep (join [os_sep] cs) = cs"
    by (simp add: split_on_join)
  from assms have f: "filter (\<lambda>c. c \<noteq> [] \<and> c \<noteq> ''.'') cs = cs"
    by (auto simp: plain_def filter_id_conv)
  from Cons have "str_path ([], cs) = join [os_sep] cs"
    by (simp add: str_path_def)
  with d s f show ?thesis
    by (simp add: Path_def)
qed

lemma truediv_str_relative:
  assumes "\<forall>x \<in> set cs. plain x"
  shows "truediv p (str_path ([], cs)) = (fst p, snd p @ cs)"
  by (simp add: truediv_def Path_str_relative [OF assms])

lemma relative_to_Inr:
  assumes "relative_to t b = Inr rel"
  shows "fst rel = [] \<and> t = (fst b, snd b @ snd rel)"
proof -
  from assms have r: "fst t = fst b" and k: "take (length (snd b)) (snd t) = snd b"
    and rel: "rel = ([], drop (length (snd b)) (snd t))"
    by (auto simp: relative_to_def split: if_splits)
  from k have "snd b @ drop (length (snd b)) (snd t) = snd t"
    by (metis append_take_drop_id)
  with r rel show ?thesis
    by (simp add: prod_eq_iff)
qed

lemma resolve_relative:
  assumes "\<forall>x \<in> set (snd t). plain x" and "relative_to t (Path dd) = Inr rel"
  shows "truediv (Path dd) (str_path rel) = t"
proof -
  from relative_to_Inr [OF assms(2)] have rel: "rel = ([], snd rel)"
    and t: "t = (fst (Path dd), snd (Path dd) @ snd rel)"
    by (simp_all add: prod_eq_iff)
  from assms(1) t have "\<forall>x \<in> set (snd rel). plain x"
    by (metis Un_iff set_append snd_conv)
  then have "truediv (Path dd) (str_path ([], snd rel)) = (fst (Path dd), snd (Path dd) @ snd rel)"
    by (rule truediv_str_relative)
  with rel t show ?thesis
    by simp
qed

lemma storage_target_plain: "\<forall>x \<in> set (snd (storage_target e line machine dtype dname fname)). plain x"
  unfolding storage_target_def
  by (intro truediv_plain Path_plain)

lemma store_file_eq:
  "store_file e now dk fls src line machine dtype dname rev_no =
     (case mkdir dk of
        Some exc \<Rightarrow> (Inl exc, fls)
      | None \<Rightarrow>
          (case copy2 dk fls src (str_path (storage_target e line machine dtype dname
                   (''rev_'' @ str_int rev_no @ ''_'' @ now @ suffix src))) of
             (Inl exc, fls') \<Rightarrow> (Inl exc, fls')
           | (Inr _, fls') \<Rightarrow>
               (case relative_to (storage_target e line machine dtype dname
                        (''rev_'' @ str_int rev_no @ ''_'' @ now @ suffix src)) (Path (DATA_DIR e)) of
                  Inl exc \<Rightarrow> (Inl exc, fls')
                | Inr rel \<Rightarrow> (Inr (str_path rel), fls'))))"
  unfolding store_file_def Let_def storage_target_def ..

lemma copy2_Inr:
  assumes "copy2 dk fls src dst = (Inr v, fls')"
  shows "\<exists>content. fls src = Some content \<and> src \<noteq> dst \<and> fls' = fls(dst \<mapsto> content)"
  using assms
  by (auto simp: copy2_def split: option.splits if_splits disk.splits)

lemma store_file_Inr:
  assumes "store_file e now dk fls src line machine dtype dname rev_no = (Inr sp, fls1)"
  shows "\<exists>content rel.
           fls src = Some content
         \<and> src \<noteq> str_path (storage_target e line machine dtype dname
                   (''rev_'' @ str_int rev_no @ ''_'' @ now @ suffix src))
         \<and> fls1 = fls(str_path (storage_target e line machine dtype dname
                   (''rev_'' @ str_int rev_no @ ''_'' @ now @ suffix src)) \<mapsto> content)
         \<and> relative_to (storage_target e line machine dtype dname
               (''rev_'' @ str_int rev_no @ ''_'' @ now @ suffix src)) (Path (DATA_DIR e)) = Inr rel
         \<and> sp = str_path rel"
proof -
  let ?t = "storage_target e line machine dtype dname
      (''rev_'' @ str_int rev_no @ ''_'' @ now @ suffix src)"
  obtain r f where c: "copy2 dk fls src (str_path ?t) = (r, f)"
    by (cases "copy2 dk fls src (str_path ?t)")
  from assms c obtain v where r: "r = Inr v"
    by (cases r) (auto simp: store_file_eq split: option.splits)
  from assms c r obtain rel where rel: "relative_to ?t (Path (DATA_DIR e)) = Inr rel"
    and sp: "sp = str_path rel" and f: "fls1 = f"
    by (cases "relative_to ?t (Path (DATA_DIR e))") (auto simp: store_file_eq split: option.splits)
  from copy2_Inr [OF c [unfolded r]] f rel sp show ?thesis
    by blast
qed

lemma store_file_keeps_copy:
  assumes "store_file e now dk fls src line machine dtype dname rev_no = (Inr sp, fls1)"
  shows "fls1 (str_path (resolve_path e sp)) = fls src \<and> fls src \<noteq> None \<and> fls1 src = fls src"
proof -
  let ?t = "storage_target e line machine dtype dname
      (''rev_'' @ str_int rev_no @ ''_'' @ now @ suffix src)"
  from store_file_Inr [OF assms] obtain content rel where c: "fls src = Some content"
    and n: "src \<noteq> str_path ?t" and f: "fls1 = fls(str_path ?t \<mapsto> content)"
    and rel: "relative_to ?t (Path (DATA_DIR e)) = Inr rel" and sp: "sp = str_path rel"
    by blast
  from resolve_relative [OF storage_target_plain rel] sp have "resolve_path e sp = ?t"
    by (simp add: resolve_path_def)
  with c n f show ?thesis
    by simp
qed

section \<open>Decimal numerals\<close>

declare str_nat.simps [simp del]

lemma digit_char_is_digit: "is_digit (digit_char d)"
  by (simp add: digit_char_def is_digit_def)

lemma below_ten:
  assumes "(d::nat) < 10"
  shows "d = 0 \<or> d = 1 \<or> d = 2 \<or> d = 3 \<or> d = 4 \<or> d = 5 \<or> d = 6 \<or> d = 7 \<or> d = 8
       \<or> d = 9"
  using assms by (simp add: eval_nat_numeral less_Suc_eq)

lemma digit_char_nth:
  assumes "d < 10"
  shows "digit_char d = ''0123456789'' ! d"
  using below_ten [OF assms]
  by (elim disjE) (simp_all add: digit_char_def)

lemma digit_char_inj:
  assumes "d < 10" and "d' < 10" and "digit_char d = digit_char d'"
  shows "d = d'"
proof -
  have "distinct ''0123456789''"
    by simp
  moreover from assms have "''0123456789'' ! d = ''0123456789'' ! d'"
    by (simp add: digit_char_nth)
  ultimately show ?thesis
    using assms(1,2) by (simp add: nth_eq_iff_index_eq)
qed

lemma str_nat_digits: "\<forall>c \<in> set (str_nat n). is_digit c"
proof (induction n rule: str_nat.induct)
  case (1 n)
  show ?case
  proof (cases "n < 10")
    case True
    then show ?thesis
      by (simp add: str_nat.simps [of n] digit_char_is_digit)
  next
    case False
    with "1" show ?thesis
      by (simp add: str_nat.simps [of n] digit_char_is_digit)
  qed
qed

lemma str_nat_length: "length (str_nat n) = Suc 0 \<longleftrightarrow> n < 10"
proof (cases "n < 10")
  case True
  then show ?thesis
    by (simp add: str_nat.simps [of n])
next
  case False
  have "str_nat (n div 10) \<noteq> []"
    by (subst str_nat.simps) simp
  with False show ?thesis
    by (simp add: str_nat.simps [of n])
qed

lemma str_nat_inj: "str_nat n = str_nat m \<Longrightarrow> n = m"
proof (induction n arbitrary: m rule: str_nat.induct)
  case (1 n)
  show ?case
  proof (cases "n < 10")
    case True
    with "1.prems" have "length (str_nat m) = Suc 0"
      by (metis str_nat_length)
    then have m: "m < 10"
      by (simp add: str_nat_length)
    with True "1.prems" show ?thesis
      by (simp add: str_nat.simps [of n] str_nat.simps [of m] digit_char_inj)
  next
    case False
    with "1.prems" have "length (str_nat m) \<noteq> Suc 0"
      by (metis str_nat_length)
    then have m: "\<not> m < 10"
      by (simp add: str_nat_length)
    from False m "1.prems" have "str_nat (n div 10) = str_nat (m div 10)"
      and "digit_char (n mod 10) = digit_char (m mod 10)"
      by (simp_all add: str_nat.simps [of n] str_nat.simps [of m])
    with "1.IH" [OF False] have "n div 10 = m div 10" and "n mod 10 = m mod 10"
      by (simp_all add: digit_char_inj)
    then show ?thesis
      by (metis div_mult_mod_eq)
  qed
qed

lemma str_int_chars: "\<forall>c \<in> set (str_int i). is_digit c \<or> c = CHR ''-''"
  using str_nat_digits by (auto simp: str_int_def)

lemma str_nat_nonempty: "str_nat n \<noteq> []"
  by (subst str_nat.simps) simp

lemma str_int_inj: "str_int i = str_int j \<Longrightarrow> i = j"
proof -
  assume eq: "str_int i = str_int j"
  have nd: "hd (str_nat k) \<noteq> CHR ''-''" for k
    using str_nat_digits [of k] str_nat_nonempty [of k]
    by (cases "str_nat k") (auto simp: is_digit_def)
  show ?thesis
  proof (cases "i < 0")
    case True
    show ?thesis
    proof (cases "j < 0")
      case j: True
      with True eq have "nat (- i) = nat (- j)"
        by (simp add: str_int_def str_nat_inj)
      with True j show ?thesis
        by simp
    next
      case j: False
      with True eq nd [of "nat j"] show ?thesis
        by (cases "str_nat (nat j)") (auto simp: str_int_def)
    qed
  next
    case False
    show ?thesis
    proof (cases "j < 0")
      case j: True
      with False eq nd [of "nat i"] show ?thesis
        by (cases "str_nat (nat i)") (auto simp: str_int_def)
    next
      case j: False
      with False eq have "nat i = nat j"
        by (simp add: str_int_def str_nat_inj)
      with False j show ?thesis
        by simp
    qed
  qed
qed

lemma before_separator:
  assumes "c \<notin> set a" and "c \<notin> set b" and "a @ c # r = b @ c # r'"
  shows "a = b"
  using assms
proof (induction a arbitrary: b)
  case Nil
  then show ?case
    by (cases b) auto
next
  case (Cons x a)
  then show ?case
    by (cases b) auto
qed

lemma str_int_no_underscore: "CHR ''_'' \<notin> set (str_int i)"
  using str_int_chars [of i] by (auto simp: is_digit_def)

lemma str_int_no_sep: "os_sep \<notin> set (str_int i)"
  using str_int_chars [of i] by (auto simp: is_digit_def os_sep_def)

lemma path_name_no_sep: "os_sep \<notin> set (path_name p)"
proof (cases "filter (\<lambda>c. c \<noteq> [] \<and> c \<noteq> ''.'') (split_on os_sep p)")
  case Nil
  then show ?thesis
    by (simp add: path_name_def)
next
  case (Cons c cs)
  have "last (c # cs) \<in> set (c # cs)"
    by (rule last_in_set) simp
  with Cons have "path_name p \<in> set (filter (\<lambda>c. c \<noteq> [] \<and> c \<noteq> ''.'') (split_on os_sep p))"
    unfolding path_name_def by (simp del: last.simps)
  then have "path_name p \<in> set (split_on os_sep p)"
    by simp
  with split_on_no_sep [of os_sep p] show ?thesis
    by blast
qed

lemma suffix_no_sep: "os_sep \<notin> set (suffix p)"
  using path_name_no_sep [of p]
  by (auto simp: suffix_def Let_def dest: in_set_dropD)

lemma revision_file_name_plain:
  assumes "os_sep \<notin> set now"
  shows "plain (''rev_'' @ str_int n @ ''_'' @ now @ suffix src)"
  using assms str_int_no_sep [of n] suffix_no_sep [of src]
  by (simp add: plain_def os_sep_def)

lemma revision_file_name_number:
  assumes "''rev_'' @ str_int n1 @ ''_'' @ ts1 @ ext1 = ''rev_'' @ str_int n2 @ ''_'' @ ts2 @ ext2"
  shows "n1 = n2"
proof -
  from assms have "str_int n1 @ CHR ''_'' # (ts1 @ ext1) = str_int n2 @ CHR ''_'' # (ts2 @ ext2)"
    by simp
  then have "str_int n1 = str_int n2"
    by (rule before_separator [OF str_int_no_underscore str_int_no_underscore])
  then show ?thesis
    by (rule str_int_inj)
qed

section \<open>Storing a file\<close>

lemma storage_target_last:
  assumes "plain fname"
  shows "snd (storage_target e line machine dtype dname fname) \<noteq> []
       \<and> last (snd (storage_target e line machine dtype dname fname)) = fname"
  unfolding storage_target_def
  by (simp add: truediv_of_plain [OF assms])

lemma storage_target_of_plain:
  assumes "plain (safe_folder_name line)" and "plain (safe_folder_name machine)" and "plain dtype"
    and "plain (safe_folder_name dname)" and "plain fname"
  shows "storage_target e line machine dtype dname fname =
           (fst (Path (DATA_DIR e)),
            snd (Path (DATA_DIR e)) @ [''storage'', safe_folder_name line, safe_folder_name machine,
              dtype, safe_folder_name dname, fname])"
proof -
  have "plain ''storage''"
    by (simp add: plain_def os_sep_def)
  with assms show ?thesis
    by (simp add: storage_target_def truediv_of_plain)
qed

lemma store_file_of_plain:
  assumes "plain (safe_folder_name line)" and "plain (safe_folder_name machine)" and "plain dtype"
    and "plain (safe_folder_name dname)" and "os_sep \<notin> set now"
    and "fls src = Some content"
    and "str_path (fst (Path (DATA_DIR e)),
            snd (Path (DATA_DIR e)) @ [''storage'', safe_folder_name line, safe_folder_name machine,
              dtype, safe_folder_name dname, ''rev_'' @ str_int n @ ''_'' @ now @ suffix src]) = t"
    and "src \<noteq> t"
  shows "store_file e now dk fls src line machine dtype dname n =
     (case dk of
        Sound \<Rightarrow> (Inr (stored_layout line machine dtype dname n now (suffix src)), fls(t \<mapsto> content))
      | MkdirRaises exc \<Rightarrow> (Inl exc, fls)
      | CopyRaises exc None \<Rightarrow> (Inl exc, fls)
      | CopyRaises exc (Some written) \<Rightarrow> (Inl exc, fls(t \<mapsto> written)))"
proof -
  let ?f = "''rev_'' @ str_int n @ ''_'' @ now @ suffix src"
  let ?cs = "[''storage'', safe_folder_name line, safe_folder_name machine, dtype,
      safe_folder_name dname, ?f]"
  have t: "storage_target e line machine dtype dname ?f
      = (fst (Path (DATA_DIR e)), snd (Path (DATA_DIR e)) @ ?cs)"
    using assms(1-4) revision_file_name_plain [OF assms(5)]
    by (rule storage_target_of_plain)
  have r: "relative_to (fst (Path (DATA_DIR e)), snd (Path (DATA_DIR e)) @ ?cs) (Path (DATA_DIR e))
      = Inr ([], ?cs)"
    by (simp add: relative_to_def)
  have s: "str_path ([], ?cs) = stored_layout line machine dtype dname n now (suffix src)"
    by (simp add: str_path_def stored_layout_def)
  show ?thesis
    unfolding store_file_eq t r assms(7) sum.case s
    using assms(6,8)
    by (cases dk) (auto simp: mkdir_def copy2_def split: option.splits)
qed

lemma store_file_sound:
  assumes "plain (safe_folder_name line)" and "plain (safe_folder_name machine)" and "plain dtype"
    and "plain (safe_folder_name dname)" and "os_sep \<notin> set now"
    and "fls src = Some content"
    and "str_path (fst (Path (DATA_DIR e)),
            snd (Path (DATA_DIR e)) @ [''storage'', safe_folder_name line, safe_folder_name machine,
              dtype, safe_folder_name dname, ''rev_'' @ str_int n @ ''_'' @ now @ suffix src]) = t"
    and "src \<noteq> t"
    and "stored_layout line machine dtype dname n now (suffix src) = sp"
  shows "store_file e now Sound fls src line machine dtype dname n = (Inr sp, fls(t \<mapsto> content))"
  unfolding store_file_of_plain [where fls = fls and src = src, OF assms(1-8)] assms(9) by simp

lemma store_file_layout:
  assumes "store_file e now dk fls src line machine dtype dname n = (Inr sp, fls1)"
    and "plain (safe_folder_name line)" and "plain (safe_folder_name machine)" and "plain dtype"
    and "plain (safe_folder_name dname)" and "os_sep \<notin> set now"
  shows "sp = stored_layout line machine dtype dname n now (suffix src)"
proof -
  let ?f = "''rev_'' @ str_int n @ ''_'' @ now @ suffix src"
  let ?cs = "[''storage'', safe_folder_name line, safe_folder_name machine, dtype,
      safe_folder_name dname, ?f]"
  from store_file_Inr [OF assms(1)] obtain rel
    where rel: "relative_to (storage_target e line machine dtype dname ?f) (Path (DATA_DIR e)) = Inr rel"
      and sp: "sp = str_path rel"
    by blast
  have "storage_target e line machine dtype dname ?f
      = (fst (Path (DATA_DIR e)), snd (Path (DATA_DIR e)) @ ?cs)"
    using assms(2-5) revision_file_name_plain [OF assms(6)]
    by (rule storage_target_of_plain)
  with rel have "rel = ([], ?cs)"
    by (simp add: relative_to_def)
  with sp show ?thesis
    by (simp add: str_path_def stored_layout_def)
qed

lemma store_file_resolves:
  assumes "store_file e now dk fls src line machine dtype dname rev_no = (Inr sp, fls1)"
  shows "resolve_path e sp = storage_target e line machine dtype dname
           (''rev_'' @ str_int rev_no @ ''_'' @ now @ suffix src)"
proof -
  from store_file_Inr [OF assms] obtain rel
    where rel: "relative_to (storage_target e line machine dtype dname
        (''rev_'' @ str_int rev_no @ ''_'' @ now @ suffix src)) (Path (DATA_DIR e)) = Inr rel"
      and sp: "sp = str_path rel"
    by blast
  from resolve_relative [OF storage_target_plain rel] sp show ?thesis
    by (simp add: resolve_path_def)
qed

lemmas string_eval = basename_def os_sep_def os_altsep_def normalize_doc_name_def stem_def suffix_def
  path_name_def rfind_def Let_def replace_def split_def strip_def is_space_def safe_folder_name_def
  str_int_def digit_char_def str_nat.simps Path_def truediv_def str_path_def suffix_of_def plain_def

lemma example_name: "normalize_doc_name (basename ''/in/Program1.txt'') = ''Program1''"
  by (simp add: string_eval)

lemma example_basename: "basename ''/in/Program1.txt'' = ''Program1.txt''"
  by (simp add: string_eval)

lemma example_layout:
  "stored_layout ''Line A'' ''Mill-1'' ''program'' ''Program1'' 1 ''20240101120000'' (suffix ''/in/Program1.txt'')
     = ''storage/Line_A/Mill-1/program/Program1/rev_1_20240101120000.txt''"
  by (simp add: stored_layout_def string_eval)

lemma example_store_any:
  assumes "DATA_DIR e = ''/data''"
  shows "store_file e ''20240101120000'' dk [''/in/Program1.txt'' \<mapsto> ''G01''] ''/in/Program1.txt''
       ''Line A'' ''Mill-1'' ''program'' ''Program1'' 1
     = (case dk of
          Sound \<Rightarrow>
            (Inr ''storage/Line_A/Mill-1/program/Program1/rev_1_20240101120000.txt'', fs example_world)
        | MkdirRaises exc \<Rightarrow> (Inl exc, [''/in/Program1.txt'' \<mapsto> ''G01''])
        | CopyRaises exc None \<Rightarrow> (Inl exc, [''/in/Program1.txt'' \<mapsto> ''G01''])
        | CopyRaises exc (Some written) \<Rightarrow>
            (Inl exc, [''/in/Program1.txt'' \<mapsto> ''G01'',
               ''/data/storage/Line_A/Mill-1/program/Program1/rev_1_20240101120000.txt'' \<mapsto> written]))"
proof -
  have "store_file e ''20240101120000'' dk [''/in/Program1.txt'' \<mapsto> ''G01''] ''/in/Program1.txt''
       ''Line A'' ''Mill-1'' ''program'' ''Program1'' 1
     = (case dk of
          Sound \<Rightarrow>
            (Inr (stored_layout ''Line A'' ''Mill-1'' ''program'' ''Program1'' 1 ''20240101120000''
                  (suffix ''/in/Program1.txt'')),
             [''/in/Program1.txt'' \<mapsto> ''G01'',
               ''/data/storage/Line_A/Mill-1/program/Program1/rev_1_20240101120000.txt'' \<mapsto> ''G01''])
        | MkdirRaises exc \<Rightarrow> (Inl exc, [''/in/Program1.txt'' \<mapsto> ''G01''])
        | CopyRaises exc None \<Rightarrow> (Inl exc, [''/in/Program1.txt'' \<mapsto> ''G01''])
        | CopyRaises exc (Some written) \<Rightarrow>
            (Inl exc, [''/in/Program1.txt'' \<mapsto> ''G01'',
               ''/data/storage/Line_A/Mill-1/program/Program1/rev_1_20240101120000.txt'' \<mapsto> written]))"
  proof (rule store_file_of_plain)
    show "plain (safe_folder_name ''Line A'')"
      by (simp add: string_eval)
    show "plain (safe_folder_name ''Mill-1'')"
      by (simp add: string_eval)
    show "plain ''program''"
      by (simp add: string_eval)
    show "plain (safe_folder_name ''Program1'')"
      by (simp add: string_eval)
    show "os_sep \<notin> set ''20240101120000''"
      by (simp add: os_sep_def)
    show "[''/in/Program1.txt'' \<mapsto> ''G01''] ''/in/Program1.txt'' = Some ''G01''"
      by simp
    show "str_path (fst (Path (DATA_DIR e)),
            snd (Path (DATA_DIR e)) @ [''storage'', safe_folder_name ''Line A'',
              safe_folder_name ''Mill-1'', ''program'', safe_folder_name ''Program1'',
              ''rev_'' @ str_int 1 @ ''_'' @ ''20240101120000'' @ suffix ''/in/Program1.txt''])
        = ''/data/storage/Line_A/Mill-1/program/Program1/rev_1_20240101120000.txt''"
      by (simp add: assms string_eval)
    show "''/in/Program1.txt'' \<noteq> ''/data/storage/Line_A/Mill-1/program/Program1/rev_1_20240101120000.txt''"
      by simp
  qed
  then show ?thesis
    by (cases dk) (simp_all add: example_layout example_world_def)
qed

lemma example_store:
  assumes "DATA_DIR e = ''/data''"
  shows "store_file e ''20240101120000'' Sound [''/in/Program1.txt'' \<mapsto> ''G01''] ''/in/Program1.txt''
       ''Line A'' ''Mill-1'' ''program'' ''Program1'' 1
     = (Inr ''storage/Line_A/Mill-1/program/Program1/rev_1_20240101120000.txt'', fs example_world)"
  by (simp add: example_store_any [OF assms])

lemma example_create:
  "spec_create_machine_document \<lparr>documents = [], revisions = []\<rparr> ''Line A'' ''Mill-1'' ''program''
       ''Program1'' ''ann''
     = Inr (1, \<lparr>documents = [example_document], revisions = []\<rparr>)"
  by (simp add: spec_create_machine_document_def example_document_def)

lemma spec_create_revisions:
  assumes "spec_create_machine_document d line machine dtype dname user = Inr (did, d')"
  shows "revisions d' = revisions d"
  using assms by (auto simp: spec_create_machine_document_def Let_def split: if_splits)

section \<open>Failures of an import\<close>

lemma save_document_steps:
  assumes "hash_file e (fs w) src = Inr h"
    and "(case find_machine_document_by_name_or_hash e (db w) line machine dtype
                 (normalize_doc_name (basename src)) h of
            Some existing \<Rightarrow> Inr (doc_id existing, db w)
          | None \<Rightarrow> create_machine_document e (db w) line machine dtype
                      (normalize_doc_name (basename src)) user) = Inr (did, db1)"
  shows "save_document e now dk w src line machine dtype user =
     (case store_file e now dk (fs w) src line machine dtype (normalize_doc_name (basename src))
             (get_next_machine_document_revision_number e db1 did) of
        (Inl exc, fls1) \<Rightarrow> (Inl exc, \<lparr>fs = fls1, db = db1\<rparr>)
      | (Inr sp, fls1) \<Rightarrow>
          (case add_machine_document_revision e db1 did
                  (get_next_machine_document_revision_number e db1 did) sp (basename src) h user None of
             Inl exc \<Rightarrow> (Inl exc, \<lparr>fs = fls1, db = db1\<rparr>)
           | Inr db2 \<Rightarrow> (Inr (), \<lparr>fs = fls1, db = db2\<rparr>)))"
  using assms by (simp add: save_document_def Let_def)

text \<open>
  C1, as the code has it. Once the file is hashed and the document found or created:
  an import whose \<open>_store_file\<close> raises returns that exception, with the files as the
  failed call left them (a copy that broke off may have written the destination) and
  the tables as the lookup or creation left them, \<open>add_machine_document_revision\<close> not
  being called; an import whose copy succeeds and whose append fails returns the
  append's exception, with the tables as the lookup or creation left them and the copied
  file, holding the source's bytes, still in storage at the path the append was given.
  The lookup or creation adds no revision when the creation is the one of the
  specification.
\<close>

theorem save_document_failure_policy:
  assumes hashed: "hash_file e (fs w) src = Inr h"
    and resolved: "(case find_machine_document_by_name_or_hash e (db w) line machine dtype
                 (normalize_doc_name (basename src)) h of
            Some existing \<Rightarrow> Inr (doc_id existing, db w)
          | None \<Rightarrow> create_machine_document e (db w) line machine dtype
                      (normalize_doc_name (basename src)) user) = Inr (did, db1)"
  shows "(store_file e now dk (fs w) src line machine dtype (normalize_doc_name (basename src))
             (get_next_machine_document_revision_number e db1 did) = (Inl exc, fls1)
          \<longrightarrow> save_document e now dk w src line machine dtype user
                = (Inl exc, \<lparr>fs = fls1, db = db1\<rparr>))
       \<and> (store_file e now dk (fs w) src line machine dtype (normalize_doc_name (basename src))
             (get_next_machine_document_revision_number e db1 did) = (Inr sp, fls1)
          \<and> add_machine_document_revision e db1 did
               (get_next_machine_document_revision_number e db1 did) sp (basename src) h user None
               = Inl exc
          \<longrightarrow> save_document e now dk w src line machine dtype user
                = (Inl exc, \<lparr>fs = fls1, db = db1\<rparr>)
              \<and> fls1 (str_path (resolve_path e sp)) = fs w src \<and> fs w src \<noteq> None)
       \<and> (create_machine_document e = spec_create_machine_document
          \<longrightarrow> revisions db1 = revisions (db w))"
proof (intro conjI impI)
  assume "store_file e now dk (fs w) src line machine dtype (normalize_doc_name (basename src))
             (get_next_machine_document_revision_number e db1 did) = (Inl exc, fls1)"
  then show "save_document e now dk w src line machine dtype user
      = (Inl exc, \<lparr>fs = fls1, db = db1\<rparr>)"
    by (simp add: save_document_steps [OF hashed resolved])
next
  assume a: "store_file e now dk (fs w) src line machine dtype (normalize_doc_name (basename src))
             (get_next_machine_document_revision_number e db1 did) = (Inr sp, fls1)
          \<and> add_machine_document_revision e db1 did
               (get_next_machine_document_revision_number e db1 did) sp (basename src) h user None
               = Inl exc"
  then show "save_document e now dk w src line machine dtype user
      = (Inl exc, \<lparr>fs = fls1, db = db1\<rparr>)"
    by (simp add: save_document_steps [OF hashed resolved])
  from a store_file_keeps_copy [of e now dk "fs w" src line machine dtype
      "normalize_doc_name (basename src)" "get_next_machine_document_revision_number e db1 did" sp fls1]
  show "fls1 (str_path (resolve_path e sp)) = fs w src" and "fs w src \<noteq> None"
    by simp_all
next
  assume c: "create_machine_document e = spec_create_machine_document"
  show "revisions db1 = revisions (db w)"
  proof (cases "find_machine_document_by_name_or_hash e (db w) line machine dtype
                 (normalize_doc_name (basename src)) h")
    case None
    with resolved c have "spec_create_machine_document (db w) line machine dtype
        (normalize_doc_name (basename src)) user = Inr (did, db1)"
      by simp
    then show ?thesis
      by (rule spec_create_revisions)
  next
    case (Some existing)
    with resolved show ?thesis
      by simp
  qed
qed

text \<open>
  C1 as stated fails: when the ledger refuses the append, the import of \<open>Program1.txt\<close>
  ends with the copy in storage and no revision in the ledger.
\<close>

theorem orphan_file_counterexample:
  "save_document rejecting_env ''20240101120000'' Sound
       \<lparr>fs = [''/in/Program1.txt'' \<mapsto> ''G01''], db = \<lparr>documents = [], revisions = []\<rparr>\<rparr>
       ''/in/Program1.txt'' ''Line A'' ''Mill-1'' ''program'' ''ann''
     = (Inl ConflictError,
        \<lparr>fs = fs example_world, db = \<lparr>documents = [example_document], revisions = []\<rparr>\<rparr>)
   \<and> fs example_world ''/data/storage/Line_A/Mill-1/program/Program1/rev_1_20240101120000.txt''
       = Some ''G01''"
proof -
  have h: "hash_file rejecting_env [''/in/Program1.txt'' \<mapsto> ''G01''] ''/in/Program1.txt'' = Inr ''G01''"
    by (simp add: hash_file_def rejecting_env_def example_env_def)
  have f: "find_machine_document_by_name_or_hash rejecting_env \<lparr>documents = [], revisions = []\<rparr>
      ''Line A'' ''Mill-1'' ''program'' ''Program1'' ''G01'' = None"
    by (simp add: rejecting_env_def example_env_def spec_find_machine_document_by_name_or_hash_def)
  have c: "create_machine_document rejecting_env = spec_create_machine_document"
    by (simp add: rejecting_env_def example_env_def)
  have n: "get_next_machine_document_revision_number rejecting_env
      \<lparr>documents = [example_document], revisions = []\<rparr> 1 = 1"
    by (simp add: rejecting_env_def example_env_def spec_get_next_machine_document_revision_number_def
        revision_numbers_def)
  have s: "DATA_DIR rejecting_env = ''/data''"
    by (simp add: rejecting_env_def example_env_def)
  have a: "add_machine_document_revision rejecting_env
      = (\<lambda>d did rev_no spath oname fhash user nts. Inl ConflictError)"
    by (simp add: rejecting_env_def)
  show ?thesis
    by (simp add: save_document_def Let_def h f c n a example_name example_create example_store [OF s])
       (simp add: example_world_def)
qed

theorem save_document_failure_policy_witness:
  "save_document example_env ''20240101120000'' (CopyRaises OSError (Some ''G''))
       \<lparr>fs = [''/in/Program1.txt'' \<mapsto> ''G01''], db = \<lparr>documents = [], revisions = []\<rparr>\<rparr>
       ''/in/Program1.txt'' ''Line A'' ''Mill-1'' ''program'' ''ann''
     = (Inl OSError,
        \<lparr>fs = [''/in/Program1.txt'' \<mapsto> ''G01'',
                ''/data/storage/Line_A/Mill-1/program/Program1/rev_1_20240101120000.txt'' \<mapsto> ''G''],
          db = \<lparr>documents = [example_document], revisions = []\<rparr>\<rparr>)
   \<and> save_document rejecting_env ''20240101120000'' Sound
       \<lparr>fs = [''/in/Program1.txt'' \<mapsto> ''G01''], db = \<lparr>documents = [], revisions = []\<rparr>\<rparr>
       ''/in/Program1.txt'' ''Line A'' ''Mill-1'' ''program'' ''ann''
     = (Inl ConflictError,
        \<lparr>fs = fs example_world, db = \<lparr>documents = [example_document], revisions = []\<rparr>\<rparr>)
   \<and> fs example_world (str_path (resolve_path rejecting_env
         ''storage/Line_A/Mill-1/program/Program1/rev_1_20240101120000.txt'')) = Some ''G01''"
proof -
  let ?src = "''/in/Program1.txt''"
  let ?sp = "''storage/Line_A/Mill-1/program/Program1/rev_1_20240101120000.txt''"
  let ?w = "\<lparr>fs = [?src \<mapsto> ''G01''], db = \<lparr>documents = [], revisions = []\<rparr>\<rparr>"
  let ?db1 = "\<lparr>documents = [example_document], revisions = []\<rparr>"
  let ?partial = "[?src \<mapsto> ''G01'',
      ''/data/storage/Line_A/Mill-1/program/Program1/rev_1_20240101120000.txt'' \<mapsto> ''G'']"
  have env1: "DATA_DIR example_env = ''/data''"
    "find_machine_document_by_name_or_hash example_env = spec_find_machine_document_by_name_or_hash"
    "create_machine_document example_env = spec_create_machine_document"
    "get_next_machine_document_revision_number example_env
       = spec_get_next_machine_document_revision_number"
    by (simp_all add: example_env_def)
  have env2: "DATA_DIR rejecting_env = ''/data''"
    "find_machine_document_by_name_or_hash rejecting_env = spec_find_machine_document_by_name_or_hash"
    "create_machine_document rejecting_env = spec_create_machine_document"
    "get_next_machine_document_revision_number rejecting_env
       = spec_get_next_machine_document_revision_number"
    "add_machine_document_revision rejecting_env
       = (\<lambda>d did rev_no spath oname fhash user nts. Inl ConflictError)"
    by (simp_all add: rejecting_env_def example_env_def)
  have h1: "hash_file example_env (fs ?w) ?src = Inr ''G01''"
    by (simp add: hash_file_def example_env_def)
  have r1: "(case find_machine_document_by_name_or_hash example_env (db ?w) ''Line A'' ''Mill-1''
                 ''program'' (normalize_doc_name (basename ?src)) ''G01'' of
            Some existing \<Rightarrow> Inr (doc_id existing, db ?w)
          | None \<Rightarrow> create_machine_document example_env (db ?w) ''Line A'' ''Mill-1'' ''program''
                      (normalize_doc_name (basename ?src)) ''ann'') = Inr (1, ?db1)"
    by (simp add: env1 example_name example_create spec_find_machine_document_by_name_or_hash_def)
  have n1: "get_next_machine_document_revision_number example_env ?db1 1 = 1"
    by (simp add: env1 spec_get_next_machine_document_revision_number_def revision_numbers_def)
  have s1: "store_file example_env ''20240101120000'' (CopyRaises OSError (Some ''G'')) (fs ?w) ?src
      ''Line A'' ''Mill-1'' ''program'' (normalize_doc_name (basename ?src))
      (get_next_machine_document_revision_number example_env ?db1 1) = (Inl OSError, ?partial)"
    by (simp add: n1 example_name example_store_any [OF env1(1)])
  have h2: "hash_file rejecting_env (fs ?w) ?src = Inr ''G01''"
    by (simp add: hash_file_def rejecting_env_def example_env_def)
  have r2: "(case find_machine_document_by_name_or_hash rejecting_env (db ?w) ''Line A'' ''Mill-1''
                 ''program'' (normalize_doc_name (basename ?src)) ''G01'' of
            Some existing \<Rightarrow> Inr (doc_id existing, db ?w)
          | None \<Rightarrow> create_machine_document rejecting_env (db ?w) ''Line A'' ''Mill-1'' ''program''
                      (normalize_doc_name (basename ?src)) ''ann'') = Inr (1, ?db1)"
    by (simp add: env2 example_name example_create spec_find_machine_document_by_name_or_hash_def)
  have n2: "get_next_machine_document_revision_number rejecting_env ?db1 1 = 1"
    by (simp add: env2 spec_get_next_machine_document_revision_number_def revision_numbers_def)
  have s2: "store_file rejecting_env ''20240101120000'' Sound (fs ?w) ?src ''Line A''
      ''Mill-1'' ''program'' (normalize_doc_name (basename ?src))
      (get_next_machine_document_revision_number rejecting_env ?db1 1)
      = (Inr ?sp, fs example_world)"
    by (simp add: n2 example_name example_store [OF env2(1)])
  have a2: "add_machine_document_revision rejecting_env ?db1 1
      (get_next_machine_document_revision_number rejecting_env ?db1 1) ?sp
      (basename ?src) ''G01'' ''ann'' None = Inl ConflictError"
    by (simp add: env2)
  from save_document_failure_policy [OF h1 r1, where now = "''20240101120000''"
      and dk = "CopyRaises OSError (Some ''G'')" and exc = OSError and ?fls1.0 = ?partial] s1
  have first: "save_document example_env ''20240101120000'' (CopyRaises OSError (Some ''G'')) ?w ?src
      ''Line A'' ''Mill-1'' ''program'' ''ann'' = (Inl OSError, \<lparr>fs = ?partial, db = ?db1\<rparr>)"
    by blast
  from save_document_failure_policy [OF h2 r2, where now = "''20240101120000''" and dk = Sound
      and sp = ?sp and ?fls1.0 = "fs example_world" and exc = ConflictError] s2 a2
  have second: "save_document rejecting_env ''20240101120000'' Sound ?w ?src ''Line A''
      ''Mill-1'' ''program'' ''ann'' = (Inl ConflictError, \<lparr>fs = fs example_world, db = ?db1\<rparr>)"
    and kept: "fs example_world (str_path (resolve_path rejecting_env ?sp)) = fs ?w ?src"
    by blast+
  from kept have "fs example_world (str_path (resolve_path rejecting_env ?sp)) = Some ''G01''"
    by simp
  with first second show ?thesis
    by simp
qed

section \<open>Recall\<close>

lemma recall_selected_steps:
  assumes "\<not> readonly u"
    and "selected_revision e u (db w) = Some rv"
    and "selected_document_id u = Some sel"
    and "fs w (str_path (resolve_path e (stored_path rv))) = Some content"
    and "require_line_machine u = (evs0, Some (line, machine))"
    and "doc_tree_name u = Inr dname"
    and "dtype = (case selected_doc_type u of None \<Rightarrow> ''program''
                  | Some t \<Rightarrow> if t = [] then ''program'' else t)"
  shows "recall_selected e u now dk w =
     (case store_file e now dk (fs w) (str_path (resolve_path e (stored_path rv))) line machine dtype
             dname (get_next_machine_document_revision_number e (db w) sel) of
        (Inl exc, fls1) \<Rightarrow> ([Uncaught exc], \<lparr>fs = fls1, db = db w\<rparr>)
      | (Inr np, fls1) \<Rightarrow>
          (case add_machine_document_revision e (db w) sel
                  (get_next_machine_document_revision_number e (db w) sel) np
                  (original_filename rv) (sha256_hexdigest e content) (get_username e u)
                  (Some ''Recalled previous revision'') of
             Inl exc \<Rightarrow> ([Uncaught exc], \<lparr>fs = fls1, db = db w\<rparr>)
           | Inr db' \<Rightarrow> ([], \<lparr>fs = fls1, db = db'\<rparr>)))"
proof -
  obtain res fls1 where st: "store_file e now dk (fs w) (str_path (resolve_path e (stored_path rv)))
      line machine dtype dname (get_next_machine_document_revision_number e (db w) sel) = (res, fls1)"
    by (cases "store_file e now dk (fs w) (str_path (resolve_path e (stored_path rv)))
      line machine dtype dname (get_next_machine_document_revision_number e (db w) sel)")
  show ?thesis
  proof (cases res)
    case (Inl exc)
    with st assms show ?thesis
      by (simp add: recall_selected_def Let_def)
  next
    case (Inr np)
    from store_file_keeps_copy [OF st [unfolded Inr]] assms(4)
    have "fls1 (str_path (resolve_path e (stored_path rv))) = Some content"
      by simp
    then have "hash_file e fls1 (str_path (resolve_path e (stored_path rv)))
        = Inr (sha256_hexdigest e content)"
      by (simp add: hash_file_def)
    with st Inr assms show ?thesis
      by (simp add: recall_selected_def Let_def)
  qed
qed

text \<open>
  C2, as the code has it: before it creates anything, a recall checks only that the
  stored file of the selected revision exists. When it is missing the recall shows
  "Stored file not found." and changes nothing. When it exists, and a line, a machine
  and the document's row are at hand and the copy succeeds, the recall appends a
  revision whose hash is the digest of the stored bytes as they are now: the recorded
  hash of the selected revision is not read.
\<close>

theorem recall_checks_only_existence:
  assumes "\<not> readonly u"
    and "selected_revision e u (db w) = Some rv"
    and "selected_document_id u = Some sel"
  shows "(fs w (str_path (resolve_path e (stored_path rv))) = None \<longrightarrow>
            recall_selected e u now dk w = ([ShowError ''Recall Failed'' ''Stored file not found.''], w))
       \<and> (fs w (str_path (resolve_path e (stored_path rv))) = Some content
          \<and> require_line_machine u = ([], Some (line, machine))
          \<and> doc_tree_name u = Inr dname
          \<and> dtype = (case selected_doc_type u of None \<Rightarrow> ''program''
                      | Some t \<Rightarrow> if t = [] then ''program'' else t)
          \<and> store_file e now dk (fs w) (str_path (resolve_path e (stored_path rv))) line machine dtype
               dname (get_next_machine_document_revision_number e (db w) sel) = (Inr np, fls1)
          \<longrightarrow> recall_selected e u now dk w =
                (case add_machine_document_revision e (db w) sel
                        (get_next_machine_document_revision_number e (db w) sel) np
                        (original_filename rv) (sha256_hexdigest e content) (get_username e u)
                        (Some ''Recalled previous revision'') of
                   Inl exc \<Rightarrow> ([Uncaught exc], \<lparr>fs = fls1, db = db w\<rparr>)
                 | Inr db' \<Rightarrow> ([], \<lparr>fs = fls1, db = db'\<rparr>)))"
proof (intro conjI impI)
  assume "fs w (str_path (resolve_path e (stored_path rv))) = None"
  with assms show "recall_selected e u now dk w
      = ([ShowError ''Recall Failed'' ''Stored file not found.''], w)"
    by (simp add: recall_selected_def Let_def)
next
  assume a: "fs w (str_path (resolve_path e (stored_path rv))) = Some content
          \<and> require_line_machine u = ([], Some (line, machine))
          \<and> doc_tree_name u = Inr dname
          \<and> dtype = (case selected_doc_type u of None \<Rightarrow> ''program''
                      | Some t \<Rightarrow> if t = [] then ''program'' else t)
          \<and> store_file e now dk (fs w) (str_path (resolve_path e (stored_path rv))) line machine dtype
               dname (get_next_machine_document_revision_number e (db w) sel) = (Inr np, fls1)"
  then have c: "fs w (str_path (resolve_path e (stored_path rv))) = Some content"
    and r: "require_line_machine u = ([], Some (line, machine))"
    and d: "doc_tree_name u = Inr dname"
    and t: "dtype = (case selected_doc_type u of None \<Rightarrow> ''program''
                      | Some t \<Rightarrow> if t = [] then ''program'' else t)"
    and s: "store_file e now dk (fs w) (str_path (resolve_path e (stored_path rv))) line machine dtype
               dname (get_next_machine_document_revision_number e (db w) sel) = (Inr np, fls1)"
    by blast+
  show "recall_selected e u now dk w =
                (case add_machine_document_revision e (db w) sel
                        (get_next_machine_document_revision_number e (db w) sel) np
                        (original_filename rv) (sha256_hexdigest e content) (get_username e u)
                        (Some ''Recalled previous revision'') of
                   Inl exc \<Rightarrow> ([Uncaught exc], \<lparr>fs = fls1, db = db w\<rparr>)
                 | Inr db' \<Rightarrow> ([], \<lparr>fs = fls1, db = db'\<rparr>))"
    unfolding recall_selected_steps [OF assms c r d t] s by simp
qed


lemma recall_selected_changes:
  assumes "db (snd (recall_selected e u now dk w)) \<noteq> db w"
  obtains rv sel content evs0 line machine dname
  where "\<not> readonly u" and "selected_revision e u (db w) = Some rv"
    and "selected_document_id u = Some sel"
    and "fs w (str_path (resolve_path e (stored_path rv))) = Some content"
    and "require_line_machine u = (evs0, Some (line, machine))"
    and "doc_tree_name u = Inr dname"
proof -
  from assms have ro: "\<not> readonly u"
    by (auto simp: recall_selected_def)
  from assms ro obtain rv where rv: "selected_revision e u (db w) = Some rv"
    by (cases "selected_revision e u (db w)") (auto simp: recall_selected_def)
  from assms ro rv obtain sel where sel: "selected_document_id u = Some sel"
    by (cases "selected_document_id u") (auto simp: recall_selected_def)
  from assms ro rv sel obtain content where c: "fs w (str_path (resolve_path e (stored_path rv))) = Some content"
    by (cases "fs w (str_path (resolve_path e (stored_path rv)))") (auto simp: recall_selected_def Let_def)
  obtain evs0 lm where r0: "require_line_machine u = (evs0, lm)"
    by (cases "require_line_machine u")
  from assms ro rv sel c r0 obtain line machine where lm: "lm = Some (line, machine)"
    by (cases lm) (auto simp: recall_selected_def Let_def)
  from assms ro rv sel c r0 lm obtain dname where d: "doc_tree_name u = Inr dname"
    by (cases "doc_tree_name u") (auto simp: recall_selected_def Let_def)
  from that ro rv sel c r0 lm d show thesis
    by blast
qed

lemma find_Some_holds: "find P xs = Some x \<Longrightarrow> P x \<and> x \<in> set xs"
  by (induction xs) (auto split: if_splits)

lemma selected_revision_spec:
  assumes "selected_revision (spec_env dd digest login) u d = Some rv"
    and "selected_document_id u = Some sel"
  shows "rev_document_id rv = sel \<and> rv \<in> set (revisions d)"
proof -
  from assms obtain rid where
    "find (\<lambda>r. rev_id r = rid) (spec_list_machine_document_revisions d sel) = Some rv"
    by (auto simp: selected_revision_def split: list.splits)
  then have "rv \<in> set (spec_list_machine_document_revisions d sel)"
    by (simp add: find_Some_holds)
  then show ?thesis
    by (simp add: spec_list_machine_document_revisions_def)
qed

text \<open>
  C8, as the code has it, with the ledger of the specification: a recall that creates a
  revision appends exactly one, to the selected document, which is the document of the
  selected revision; its number is the next one, its original file name is that of the
  selected revision, its notes are "Recalled previous revision", and its hash is the
  digest of the bytes now stored for the selected revision, hence the recorded hash
  whenever those bytes still hash to it. The earlier revisions and the documents are as
  before.
\<close>

theorem recall_appends_copy:
  assumes run: "recall_selected (spec_env dd digest login) u now dk w = (evs, w')"
    and grown: "revisions (db w') \<noteq> revisions (db w)"
  shows "\<exists>rv content r.
           selected_revision (spec_env dd digest login) u (db w) = Some rv
         \<and> fs w (str_path (truediv (Path dd) (stored_path rv))) = Some content
         \<and> revisions (db w') = revisions (db w) @ [r]
         \<and> documents (db w') = documents (db w)
         \<and> selected_document_id u = Some (rev_document_id r)
         \<and> rev_document_id r = rev_document_id rv
         \<and> revision_number r
             = spec_get_next_machine_document_revision_number (db w) (rev_document_id rv)
         \<and> original_filename r = original_filename rv
         \<and> rev_notes r = Some ''Recalled previous revision''
         \<and> file_hash r = digest content
         \<and> (digest content = file_hash rv \<longrightarrow> file_hash r = file_hash rv)"
proof -
  let ?e = "spec_env dd digest login"
  from run grown have "db (snd (recall_selected ?e u now dk w)) \<noteq> db w"
    by auto
  then obtain rv sel content evs0 line machine dname
    where ro: "\<not> readonly u" and rv: "selected_revision ?e u (db w) = Some rv"
      and sel: "selected_document_id u = Some sel"
      and c: "fs w (str_path (resolve_path ?e (stored_path rv))) = Some content"
      and lm: "require_line_machine u = (evs0, Some (line, machine))"
      and d: "doc_tree_name u = Inr dname"
    by (rule recall_selected_changes)
  define dtype where "dtype = (case selected_doc_type u of None \<Rightarrow> ''program''
                  | Some t \<Rightarrow> if t = [] then ''program'' else t)"
  note steps = recall_selected_steps [OF ro rv sel c lm d dtype_def, of now dk]
  from selected_revision_spec [OF rv sel] have own: "rev_document_id rv = sel"
    by simp
  obtain res fls1 where st: "store_file ?e now dk (fs w) (str_path (resolve_path ?e (stored_path rv)))
      line machine dtype dname (get_next_machine_document_revision_number ?e (db w) sel) = (res, fls1)"
    by (cases "store_file ?e now dk (fs w) (str_path (resolve_path ?e (stored_path rv)))
      line machine dtype dname (get_next_machine_document_revision_number ?e (db w) sel)")
  show ?thesis
  proof (cases res)
    case (Inl exc)
    with steps run st have "w' = \<lparr>fs = fls1, db = db w\<rparr>"
      by simp
    with grown show ?thesis
      by simp
  next
    case (Inr np)
    with steps run st have "w' = \<lparr>fs = fls1, db = (db w)\<lparr>revisions := revisions (db w) @
        [\<lparr>rev_id = fold max (map rev_id (revisions (db w))) 0 + 1,
          rev_document_id = sel,
          revision_number = spec_get_next_machine_document_revision_number (db w) sel,
          stored_path = np, original_filename = original_filename rv,
          file_hash = digest content, created_by = get_username ?e u,
          rev_notes = Some ''Recalled previous revision''\<rparr>]\<rparr>\<rparr>"
      by (simp add: spec_add_machine_document_revision_def)
    with rv c sel own show ?thesis
      by (simp add: resolve_path_def)
  qed
qed

lemma example_selected:
  "selected_revision example_env example_ui
       \<lparr>documents = [example_document], revisions = [example_revision]\<rparr> = Some example_revision"
  by (simp add: selected_revision_def example_ui_def example_env_def
      spec_list_machine_document_revisions_def example_revision_def)

lemma example_require: "require_line_machine example_ui = ([], Some (''Line A'', ''Mill-1''))"
  by (simp add: require_line_machine_def example_ui_def strip_def is_space_def)

lemma example_tree: "doc_tree_name example_ui = Inr ''Program1''"
  by (simp add: doc_tree_name_def example_ui_def)

lemma example_store_again:
  assumes "fls ''/data/storage/Line_A/Mill-1/program/Program1/rev_1_20240101120000.txt'' = Some content"
  shows "store_file example_env ''20240102090000'' Sound fls
       ''/data/storage/Line_A/Mill-1/program/Program1/rev_1_20240101120000.txt''
       ''Line A'' ''Mill-1'' ''program'' ''Program1'' 2
     = (Inr ''storage/Line_A/Mill-1/program/Program1/rev_2_20240102090000.txt'',
        fls(''/data/storage/Line_A/Mill-1/program/Program1/rev_2_20240102090000.txt'' \<mapsto> content))"
proof -
  let ?src = "''/data/storage/Line_A/Mill-1/program/Program1/rev_1_20240101120000.txt''"
  have lay: "stored_layout ''Line A'' ''Mill-1'' ''program'' ''Program1'' 2 ''20240102090000''
      (suffix ?src) = ''storage/Line_A/Mill-1/program/Program1/rev_2_20240102090000.txt''"
    by (simp add: stored_layout_def string_eval)
  have dd: "DATA_DIR example_env = ''/data''"
    by (simp add: example_env_def)
  have "store_file example_env ''20240102090000'' Sound fls ?src
       ''Line A'' ''Mill-1'' ''program'' ''Program1'' 2
     = (case Sound of
          Sound \<Rightarrow>
            (Inr (stored_layout ''Line A'' ''Mill-1'' ''program'' ''Program1'' 2 ''20240102090000''
                  (suffix ?src)),
             fls(''/data/storage/Line_A/Mill-1/program/Program1/rev_2_20240102090000.txt'' \<mapsto> content))
        | MkdirRaises exc \<Rightarrow> (Inl exc, fls)
        | CopyRaises exc None \<Rightarrow> (Inl exc, fls)
        | CopyRaises exc (Some written) \<Rightarrow>
            (Inl exc,
             fls(''/data/storage/Line_A/Mill-1/program/Program1/rev_2_20240102090000.txt'' \<mapsto> written)))"
  proof (rule store_file_of_plain)
    show "plain (safe_folder_name ''Line A'')"
      by (simp add: string_eval)
    show "plain (safe_folder_name ''Mill-1'')"
      by (simp add: string_eval)
    show "plain ''program''"
      by (simp add: string_eval)
    show "plain (safe_folder_name ''Program1'')"
      by (simp add: string_eval)
    show "os_sep \<notin> set ''20240102090000''"
      by (simp add: os_sep_def)
    show "fls ?src = Some content"
      by (rule assms)
    show "str_path (fst (Path (DATA_DIR example_env)),
            snd (Path (DATA_DIR example_env)) @ [''storage'', safe_folder_name ''Line A'',
              safe_folder_name ''Mill-1'', ''program'', safe_folder_name ''Program1'',
              ''rev_'' @ str_int 2 @ ''_'' @ ''20240102090000'' @ suffix ?src])
        = ''/data/storage/Line_A/Mill-1/program/Program1/rev_2_20240102090000.txt''"
      by (simp add: dd string_eval)
    show "?src \<noteq> ''/data/storage/Line_A/Mill-1/program/Program1/rev_2_20240102090000.txt''"
      by simp
  qed
  then show ?thesis
    by (simp add: lay)
qed

lemma example_resolved:
  "str_path (resolve_path example_env (stored_path example_revision))
     = ''/data/storage/Line_A/Mill-1/program/Program1/rev_1_20240101120000.txt''"
  by (simp add: resolve_path_def example_env_def example_revision_def string_eval)

lemma example_next:
  "get_next_machine_document_revision_number example_env
       \<lparr>documents = [example_document], revisions = [example_revision]\<rparr> 1 = 2"
  by (simp add: example_env_def spec_get_next_machine_document_revision_number_def
        revision_numbers_def example_revision_def)

lemma example_user: "get_username example_env example_ui = ''ann''"
  by (simp add: get_username_def example_ui_def)

lemma example_add:
  "add_machine_document_revision example_env
       \<lparr>documents = [example_document], revisions = [example_revision]\<rparr> 1 2
       ''storage/Line_A/Mill-1/program/Program1/rev_2_20240102090000.txt''
       (original_filename example_revision) content ''ann'' (Some ''Recalled previous revision'')
     = Inr \<lparr>documents = [example_document],
             revisions = [example_revision,
               \<lparr>rev_id = 2, rev_document_id = 1, revision_number = 2,
                 stored_path = ''storage/Line_A/Mill-1/program/Program1/rev_2_20240102090000.txt'',
                 original_filename = ''Program1.txt'', file_hash = content,
                 created_by = ''ann'', rev_notes = Some ''Recalled previous revision''\<rparr>]\<rparr>"
  by (simp add: example_env_def spec_add_machine_document_revision_def
        spec_get_next_machine_document_revision_number_def revision_numbers_def example_revision_def)

lemma example_ui_facts:
  "\<not> readonly example_ui"
  "selected_document_id example_ui = Some 1"
  "''program'' = (case selected_doc_type example_ui of None \<Rightarrow> ''program''
                  | Some t \<Rightarrow> if t = [] then ''program'' else t)"
  by (simp_all add: example_ui_def)

lemma example_recall:
  assumes "db w = \<lparr>documents = [example_document], revisions = [example_revision]\<rparr>"
    and "fs w ''/data/storage/Line_A/Mill-1/program/Program1/rev_1_20240101120000.txt'' = Some content"
  shows "recall_selected example_env example_ui ''20240102090000'' Sound w =
     ([], \<lparr>fs = (fs w)(''/data/storage/Line_A/Mill-1/program/Program1/rev_2_20240102090000.txt''
                       \<mapsto> content),
           db = \<lparr>documents = [example_document],
                  revisions = [example_revision,
                    \<lparr>rev_id = 2, rev_document_id = 1, revision_number = 2,
                      stored_path = ''storage/Line_A/Mill-1/program/Program1/rev_2_20240102090000.txt'',
                      original_filename = ''Program1.txt'', file_hash = content,
                      created_by = ''ann'', rev_notes = Some ''Recalled previous revision''\<rparr>]\<rparr>\<rparr>)"
proof -
  have rv: "selected_revision example_env example_ui (db w) = Some example_revision"
    by (simp add: assms(1) example_selected)
  have c: "fs w (str_path (resolve_path example_env (stored_path example_revision))) = Some content"
    by (simp add: example_resolved assms(2))
  have dg: "sha256_hexdigest example_env content = content"
    by (simp add: example_env_def)
  show ?thesis
    unfolding recall_selected_steps [OF example_ui_facts(1) rv example_ui_facts(2) c example_require
        example_tree example_ui_facts(3)] example_resolved assms(1) example_next
      example_store_again [of "fs w" content, OF assms(2)] example_user dg
    by (simp add: example_add)
qed

theorem recall_checks_only_existence_witness:
  "recall_selected example_env example_ui ''20240102090000'' Sound
       \<lparr>fs = Map.empty, db = db example_world\<rparr>
     = ([ShowError ''Recall Failed'' ''Stored file not found.''],
        \<lparr>fs = Map.empty, db = db example_world\<rparr>)
   \<and> recall_selected example_env example_ui ''20240102090000'' Sound tampered_world
     = ([], \<lparr>fs = (fs tampered_world)
                  (''/data/storage/Line_A/Mill-1/program/Program1/rev_2_20240102090000.txt''
                     \<mapsto> ''G99''),
             db = \<lparr>documents = [example_document],
                    revisions = [example_revision,
                      \<lparr>rev_id = 2, rev_document_id = 1, revision_number = 2,
                        stored_path = ''storage/Line_A/Mill-1/program/Program1/rev_2_20240102090000.txt'',
                        original_filename = ''Program1.txt'', file_hash = ''G99'',
                        created_by = ''ann'', rev_notes = Some ''Recalled previous revision''\<rparr>]\<rparr>\<rparr>)"
proof -
  let ?w0 = "\<lparr>fs = Map.empty, db = db example_world\<rparr>"
  have d0: "db ?w0 = \<lparr>documents = [example_document], revisions = [example_revision]\<rparr>"
    and dt: "db tampered_world = \<lparr>documents = [example_document], revisions = [example_revision]\<rparr>"
    by (simp_all add: example_world_def tampered_world_def)
  have rv0: "selected_revision example_env example_ui (db ?w0) = Some example_revision"
    and rvt: "selected_revision example_env example_ui (db tampered_world) = Some example_revision"
    by (simp_all only: d0 dt example_selected)
  have missing: "fs ?w0 (str_path (resolve_path example_env (stored_path example_revision))) = None"
    by simp
  have present: "fs tampered_world (str_path (resolve_path example_env (stored_path example_revision)))
      = Some ''G99''"
    by (simp add: example_resolved tampered_world_def)
  have stored: "store_file example_env ''20240102090000'' Sound (fs tampered_world)
      (str_path (resolve_path example_env (stored_path example_revision))) ''Line A'' ''Mill-1''
      ''program'' ''Program1''
      (get_next_machine_document_revision_number example_env (db tampered_world) 1)
      = (Inr ''storage/Line_A/Mill-1/program/Program1/rev_2_20240102090000.txt'',
         (fs tampered_world)
           (''/data/storage/Line_A/Mill-1/program/Program1/rev_2_20240102090000.txt'' \<mapsto> ''G99''))"
    unfolding dt example_next example_resolved
    by (rule example_store_again) (simp add: tampered_world_def)
  from recall_checks_only_existence [OF example_ui_facts(1) rv0 example_ui_facts(2),
      where now = "''20240102090000''" and dk = Sound] missing
  have first: "recall_selected example_env example_ui ''20240102090000'' Sound ?w0
      = ([ShowError ''Recall Failed'' ''Stored file not found.''], ?w0)"
    by blast
  from recall_checks_only_existence [OF example_ui_facts(1) rvt example_ui_facts(2),
      where now = "''20240102090000''" and dk = Sound and content = "''G99''" and line = "''Line A''"
        and machine = "''Mill-1''" and dname = "''Program1''" and dtype = "''program''"
        and np = "''storage/Line_A/Mill-1/program/Program1/rev_2_20240102090000.txt''"
        and ?fls1.0 = "(fs tampered_world)
               (''/data/storage/Line_A/Mill-1/program/Program1/rev_2_20240102090000.txt'' \<mapsto> ''G99'')"]
    present example_require example_tree example_ui_facts(3) stored
  have "recall_selected example_env example_ui ''20240102090000'' Sound tampered_world =
      (case add_machine_document_revision example_env (db tampered_world) 1
              (get_next_machine_document_revision_number example_env (db tampered_world) 1)
              ''storage/Line_A/Mill-1/program/Program1/rev_2_20240102090000.txt''
              (original_filename example_revision) (sha256_hexdigest example_env ''G99'')
              (get_username example_env example_ui) (Some ''Recalled previous revision'') of
         Inl exc \<Rightarrow> ([Uncaught exc], \<lparr>fs = (fs tampered_world)
               (''/data/storage/Line_A/Mill-1/program/Program1/rev_2_20240102090000.txt'' \<mapsto> ''G99''),
               db = db tampered_world\<rparr>)
       | Inr db' \<Rightarrow> ([], \<lparr>fs = (fs tampered_world)
               (''/data/storage/Line_A/Mill-1/program/Program1/rev_2_20240102090000.txt'' \<mapsto> ''G99''),
               db = db'\<rparr>))"
    by blast
  also have "sha256_hexdigest example_env ''G99'' = ''G99''"
    by (simp add: example_env_def)
  finally have second: "recall_selected example_env example_ui ''20240102090000'' Sound tampered_world
     = ([], \<lparr>fs = (fs tampered_world)
                  (''/data/storage/Line_A/Mill-1/program/Program1/rev_2_20240102090000.txt''
                     \<mapsto> ''G99''),
             db = \<lparr>documents = [example_document],
                    revisions = [example_revision,
                      \<lparr>rev_id = 2, rev_document_id = 1, revision_number = 2,
                        stored_path = ''storage/Line_A/Mill-1/program/Program1/rev_2_20240102090000.txt'',
                        original_filename = ''Program1.txt'', file_hash = ''G99'',
                        created_by = ''ann'', rev_notes = Some ''Recalled previous revision''\<rparr>]\<rparr>\<rparr>)"
    unfolding dt example_next example_user
    by (simp add: example_add)
  from first second show ?thesis
    by simp
qed

text \<open>
  C2 as stated fails: the stored bytes of revision 1 hash to \<open>G99\<close>, its record says
  \<open>G01\<close>, and the recall raises nothing and creates revision 2.
\<close>

theorem recall_without_integrity_check_counterexample:
  "hash_file example_env (fs tampered_world)
       (str_path (resolve_path example_env (stored_path example_revision)))
     = Inr ''G99''
   \<and> file_hash example_revision = ''G01''
   \<and> fst (recall_selected example_env example_ui ''20240102090000'' Sound tampered_world) = []
   \<and> map revision_number
        (revisions (db (snd (recall_selected example_env example_ui ''20240102090000'' Sound tampered_world))))
     = [1, 2]"
proof -
  have "db tampered_world = \<lparr>documents = [example_document], revisions = [example_revision]\<rparr>"
    and "fs tampered_world ''/data/storage/Line_A/Mill-1/program/Program1/rev_1_20240101120000.txt''
      = Some ''G99''"
    by (simp_all add: tampered_world_def)
  from example_recall [OF this] show ?thesis
    by (simp add: hash_file_def example_resolved tampered_world_def)
       (simp add: example_revision_def example_env_def)
qed

theorem recall_appends_copy_witness:
  "\<exists>rv content r.
      selected_revision example_env example_ui (db example_world) = Some rv
    \<and> fs example_world (str_path (truediv (Path ''/data'') (stored_path rv))) = Some content
    \<and> revisions (db (snd (recall_selected example_env example_ui ''20240102090000'' Sound example_world)))
        = revisions (db example_world) @ [r]
    \<and> rev_document_id r = rev_document_id rv
    \<and> original_filename r = original_filename rv
    \<and> rev_notes r = Some ''Recalled previous revision''
    \<and> file_hash r = file_hash rv"
proof -
  have d: "db example_world = \<lparr>documents = [example_document], revisions = [example_revision]\<rparr>"
    and f: "fs example_world ''/data/storage/Line_A/Mill-1/program/Program1/rev_1_20240101120000.txt''
      = Some ''G01''"
    by (simp_all add: example_world_def)
  note run = example_recall [OF d f, unfolded example_env_def]
  have grown: "revisions (db (snd (recall_selected (spec_env ''/data'' (\<lambda>content. content) None)
      example_ui ''20240102090000'' Sound example_world))) \<noteq> revisions (db example_world)"
    by (simp add: run d)
  have rv: "selected_revision example_env example_ui (db example_world) = Some example_revision"
    by (simp add: d example_selected)
  from recall_appends_copy [OF surjective_pairing grown]
  obtain rv' content r where
    "selected_revision (spec_env ''/data'' (\<lambda>content. content) None) example_ui (db example_world)
       = Some rv'"
    "fs example_world (str_path (truediv (Path ''/data'') (stored_path rv'))) = Some content"
    "revisions (db (snd (recall_selected (spec_env ''/data'' (\<lambda>content. content) None)
      example_ui ''20240102090000'' Sound example_world))) = revisions (db example_world) @ [r]"
    "rev_document_id r = rev_document_id rv'"
    "original_filename r = original_filename rv'"
    "rev_notes r = Some ''Recalled previous revision''"
    "file_hash r = content" "content = file_hash rv' \<longrightarrow> file_hash r = file_hash rv'"
    by blast
  moreover from this(1) rv have "rv' = example_revision"
    by (simp add: example_env_def)
  moreover have "fs example_world (str_path (truediv (Path ''/data'') (stored_path example_revision)))
      = Some ''G01''"
    using example_resolved by (simp add: resolve_path_def example_env_def example_world_def)
  moreover have "file_hash example_revision = ''G01''"
    by (simp add: example_revision_def)
  ultimately show ?thesis
    unfolding example_env_def by (metis option.inject)
qed

text \<open>
  C8 as stated fails: after the stored file of revision 1 was overwritten, the recalled
  revision carries the hash \<open>G99\<close> and not the hash \<open>G01\<close> of revision 1.
\<close>

theorem recall_hash_counterexample:
  "selected_revision example_env example_ui (db tampered_world) = Some example_revision
   \<and> file_hash example_revision = ''G01''
   \<and> map file_hash
        (revisions (db (snd (recall_selected example_env example_ui ''20240102090000'' Sound tampered_world))))
     = [''G01'', ''G99'']"
proof -
  have d: "db tampered_world = \<lparr>documents = [example_document], revisions = [example_revision]\<rparr>"
    and "fs tampered_world ''/data/storage/Line_A/Mill-1/program/Program1/rev_1_20240101120000.txt''
      = Some ''G99''"
    by (simp_all add: tampered_world_def)
  from example_recall [OF this] show ?thesis
    by (simp add: d example_selected) (simp add: example_revision_def)
qed

section \<open>Export\<close>

lemma export_revision_steps:
  assumes "target_dir \<noteq> []"
    and "fls (str_path (resolve_path e (stored_path rv))) = Some content"
    and "doc_tree_name u = Inr dname"
  shows "export_revision e u target_dir dk fls rv =
     (case copy2 dk fls (str_path (resolve_path e (stored_path rv)))
             (str_path (truediv (Path target_dir) (dname @ ''_rev'' @ str_int (revision_number rv)
                @ suffix_of (resolve_path e (stored_path rv))))) of
        (Inl exc, fls') \<Rightarrow> ([Uncaught exc], fls')
      | (Inr _, fls') \<Rightarrow>
          ([ShowInfo ''Exported'' (''Exported to '' @ str_path (truediv (Path target_dir)
              (dname @ ''_rev'' @ str_int (revision_number rv)
                 @ suffix_of (resolve_path e (stored_path rv)))))], fls'))"
  using assms by (simp add: export_revision_def Let_def split: prod.splits sum.splits)

text \<open>
  C7, as the code has it: once a folder is chosen, an export of a revision whose stored
  file is missing shows "Stored file not found." and copies nothing. When the file
  exists and the document's row is in the tree, the export copies the stored bytes as
  they are to the folder, under the document name, \<open>_rev\<close>, the revision number and
  the extension of the stored path; the hash of the exported file is the digest of the
  stored bytes, hence the recorded hash whenever the stored bytes still hash to it.
  A copy that the disk breaks off raises its exception, with the destination as the
  broken copy left it.
\<close>

theorem export_copies_stored_bytes:
  assumes "target_dir \<noteq> []"
  shows "(fls (str_path (resolve_path e (stored_path rv))) = None \<longrightarrow>
            export_revision e u target_dir dk fls rv
              = ([ShowError ''Export Failed'' ''Stored file not found.''], fls))
       \<and> (fls (str_path (resolve_path e (stored_path rv))) = Some content
          \<and> doc_tree_name u = Inr dname
          \<and> target = str_path (truediv (Path target_dir)
                        (dname @ ''_rev'' @ str_int (revision_number rv)
                           @ suffix_of (resolve_path e (stored_path rv))))
          \<and> target \<noteq> str_path (resolve_path e (stored_path rv))
          \<longrightarrow> export_revision e u target_dir dk fls rv
                = (case dk of
                     CopyRaises exc None \<Rightarrow> ([Uncaught exc], fls)
                   | CopyRaises exc (Some written) \<Rightarrow> ([Uncaught exc], fls(target \<mapsto> written))
                   | _ \<Rightarrow> ([ShowInfo ''Exported'' (''Exported to '' @ target)],
                           fls(target \<mapsto> content)))
              \<and> hash_file e (fls(target \<mapsto> content)) target = Inr (sha256_hexdigest e content)
              \<and> (sha256_hexdigest e content = file_hash rv
                   \<longrightarrow> hash_file e (fls(target \<mapsto> content)) target = Inr (file_hash rv)))"
proof (intro conjI impI)
  assume "fls (str_path (resolve_path e (stored_path rv))) = None"
  with assms show "export_revision e u target_dir dk fls rv
      = ([ShowError ''Export Failed'' ''Stored file not found.''], fls)"
    by (simp add: export_revision_def Let_def)
next
  assume a: "fls (str_path (resolve_path e (stored_path rv))) = Some content
          \<and> doc_tree_name u = Inr dname
          \<and> target = str_path (truediv (Path target_dir)
                        (dname @ ''_rev'' @ str_int (revision_number rv)
                           @ suffix_of (resolve_path e (stored_path rv))))
          \<and> target \<noteq> str_path (resolve_path e (stored_path rv))"
  then have c: "fls (str_path (resolve_path e (stored_path rv))) = Some content"
    and d: "doc_tree_name u = Inr dname"
    and t: "target = str_path (truediv (Path target_dir)
                        (dname @ ''_rev'' @ str_int (revision_number rv)
                           @ suffix_of (resolve_path e (stored_path rv))))"
    and n: "target \<noteq> str_path (resolve_path e (stored_path rv))"
    by blast+
  from c n have "copy2 dk fls (str_path (resolve_path e (stored_path rv))) target
      = (case dk of
           CopyRaises exc None \<Rightarrow> (Inl exc, fls)
         | CopyRaises exc (Some written) \<Rightarrow> (Inl exc, fls(target \<mapsto> written))
         | _ \<Rightarrow> (Inr (), fls(target \<mapsto> content)))"
    by (auto simp: copy2_def split: disk.splits option.splits)
  then show "export_revision e u target_dir dk fls rv
                = (case dk of
                     CopyRaises exc None \<Rightarrow> ([Uncaught exc], fls)
                   | CopyRaises exc (Some written) \<Rightarrow> ([Uncaught exc], fls(target \<mapsto> written))
                   | _ \<Rightarrow> ([ShowInfo ''Exported'' (''Exported to '' @ target)],
                           fls(target \<mapsto> content)))"
    unfolding export_revision_steps [where fls = fls, OF assms c d] t [symmetric]
    by (simp split: disk.splits option.splits)
  show h: "hash_file e (fls(target \<mapsto> content)) target = Inr (sha256_hexdigest e content)"
    by (simp add: hash_file_def)
  assume "sha256_hexdigest e content = file_hash rv"
  with h show "hash_file e (fls(target \<mapsto> content)) target = Inr (file_hash rv)"
    by simp
qed

lemma example_export_name:
  "str_path (truediv (Path ''/out'') (''Program1'' @ ''_rev'' @ str_int (revision_number example_revision)
     @ suffix_of (resolve_path example_env (stored_path example_revision))))
   = ''/out/Program1_rev1.txt''"
  by (simp add: resolve_path_def example_env_def example_revision_def string_eval)

lemma example_export:
  assumes "fls ''/data/storage/Line_A/Mill-1/program/Program1/rev_1_20240101120000.txt'' = Some content"
  shows "export_revision example_env example_ui ''/out'' Sound fls example_revision
     = ([ShowInfo ''Exported'' ''Exported to /out/Program1_rev1.txt''],
        fls(''/out/Program1_rev1.txt'' \<mapsto> content))"
proof -
  have c: "fls (str_path (resolve_path example_env (stored_path example_revision))) = Some content"
    by (simp add: example_resolved assms)
  have o: "''/out'' \<noteq> []"
    by simp
  show ?thesis
    unfolding export_revision_steps [where fls = fls, OF o c example_tree] example_export_name
    by (simp add: copy2_def assms example_resolved)
qed

theorem export_copies_stored_bytes_witness:
  "export_revision example_env example_ui ''/out'' Sound Map.empty example_revision
     = ([ShowError ''Export Failed'' ''Stored file not found.''], Map.empty)
   \<and> export_revision example_env example_ui ''/out'' Sound (fs example_world) example_revision
     = ([ShowInfo ''Exported'' ''Exported to /out/Program1_rev1.txt''],
        (fs example_world)(''/out/Program1_rev1.txt'' \<mapsto> ''G01''))
   \<and> export_revision example_env example_ui ''/out'' (CopyRaises OSError (Some ''G''))
        (fs example_world) example_revision
     = ([Uncaught OSError], (fs example_world)(''/out/Program1_rev1.txt'' \<mapsto> ''G''))
   \<and> hash_file example_env ((fs example_world)(''/out/Program1_rev1.txt'' \<mapsto> ''G01''))
        ''/out/Program1_rev1.txt'' = Inr (file_hash example_revision)"
proof -
  have o: "''/out'' \<noteq> []"
    by simp
  have c: "fs example_world (str_path (resolve_path example_env (stored_path example_revision)))
      = Some ''G01''"
    by (simp add: example_resolved example_world_def)
  have t: "''/out/Program1_rev1.txt''
      \<noteq> str_path (resolve_path example_env (stored_path example_revision))"
    by (simp add: example_resolved)
  have g: "sha256_hexdigest example_env ''G01'' = file_hash example_revision"
    by (simp add: example_env_def example_revision_def)
  from export_copies_stored_bytes [OF o, of Map.empty example_env example_revision example_ui Sound]
  have first: "export_revision example_env example_ui ''/out'' Sound Map.empty example_revision
     = ([ShowError ''Export Failed'' ''Stored file not found.''], Map.empty)"
    by simp
  from export_copies_stored_bytes [OF o, where fls = "fs example_world" and e = example_env
      and rv = example_revision and u = example_ui and content = "''G01''" and dk = Sound
      and dname = "''Program1''" and target = "''/out/Program1_rev1.txt''"]
    c example_tree example_export_name t g
  have second: "export_revision example_env example_ui ''/out'' Sound (fs example_world) example_revision
     = ([ShowInfo ''Exported'' (''Exported to '' @ ''/out/Program1_rev1.txt'')],
        (fs example_world)(''/out/Program1_rev1.txt'' \<mapsto> ''G01''))
   \<and> hash_file example_env ((fs example_world)(''/out/Program1_rev1.txt'' \<mapsto> ''G01''))
        ''/out/Program1_rev1.txt'' = Inr (file_hash example_revision)"
    by (simp only: disk.case) metis
  from export_copies_stored_bytes [OF o, where fls = "fs example_world" and e = example_env
      and rv = example_revision and u = example_ui and content = "''G01''"
      and dk = "CopyRaises OSError (Some ''G'')"
      and dname = "''Program1''" and target = "''/out/Program1_rev1.txt''"]
    c example_tree example_export_name t
  have third: "export_revision example_env example_ui ''/out'' (CopyRaises OSError (Some ''G''))
        (fs example_world) example_revision
     = ([Uncaught OSError], (fs example_world)(''/out/Program1_rev1.txt'' \<mapsto> ''G''))"
    by (simp only: disk.case option.case) metis
  from first second third show ?thesis
    by simp
qed

text \<open>
  C7 as stated fails: the stored file of revision 1 exists with bytes that hash to
  \<open>G99\<close>; the export succeeds and the exported file hashes to \<open>G99\<close>, not to the
  recorded \<open>G01\<close>.
\<close>

theorem export_hash_counterexample:
  "fs tampered_world (str_path (resolve_path example_env (stored_path example_revision)))
     = Some ''G99''
   \<and> fst (export_revision example_env example_ui ''/out'' Sound (fs tampered_world) example_revision)
       = [ShowInfo ''Exported'' ''Exported to /out/Program1_rev1.txt'']
   \<and> hash_file example_env
        (snd (export_revision example_env example_ui ''/out'' Sound (fs tampered_world)
                example_revision))
        ''/out/Program1_rev1.txt'' = Inr ''G99''
   \<and> file_hash example_revision = ''G01''"
proof -
  have "fs tampered_world ''/data/storage/Line_A/Mill-1/program/Program1/rev_1_20240101120000.txt''
      = Some ''G99''"
    by (simp add: tampered_world_def)
  from example_export [where fls = "fs tampered_world", OF this] show ?thesis
    by (simp add: example_resolved hash_file_def)
       (simp add: tampered_world_def example_env_def example_revision_def)
qed

section \<open>Stored paths\<close>

text \<open>
  C5, as the code has it. Two files stored under one storage root with different
  revision numbers get different stored paths, whatever their lines, machines, types and
  names, the timestamps being without a slash as \<open>strftime\<close> makes them. When the safe
  line, the safe machine, the type and the safe name are ordinary path components, the
  path \<open>_store_file\<close> returns is \<open>storage/line/machine/doc_type/name/rev_N_T.ext\<close>,
  with the revision number \<open>N\<close>, the timestamp \<open>T\<close> and the extension of the source.
\<close>

theorem stored_paths_differ_by_number:
  assumes "store_file e now1 dk1 fls1 src1 line1 machine1 dtype1 dname1 n1 = (Inr p1, fls1')"
    and "store_file e now2 dk2 fls2 src2 line2 machine2 dtype2 dname2 n2 = (Inr p2, fls2')"
    and "os_sep \<notin> set now1" and "os_sep \<notin> set now2"
  shows "(n1 \<noteq> n2 \<longrightarrow> p1 \<noteq> p2)
       \<and> (plain (safe_folder_name line1) \<and> plain (safe_folder_name machine1) \<and> plain dtype1
            \<and> plain (safe_folder_name dname1)
          \<longrightarrow> p1 = stored_layout line1 machine1 dtype1 dname1 n1 now1 (suffix src1))
       \<and> (plain (safe_folder_name line2) \<and> plain (safe_folder_name machine2) \<and> plain dtype2
            \<and> plain (safe_folder_name dname2)
          \<longrightarrow> p2 = stored_layout line2 machine2 dtype2 dname2 n2 now2 (suffix src2))"
proof (intro conjI impI)
  let ?f1 = "''rev_'' @ str_int n1 @ ''_'' @ now1 @ suffix src1"
  let ?f2 = "''rev_'' @ str_int n2 @ ''_'' @ now2 @ suffix src2"
  assume differ: "n1 \<noteq> n2"
  show "p1 \<noteq> p2"
  proof
    assume "p1 = p2"
    with store_file_resolves [OF assms(1)] store_file_resolves [OF assms(2)]
    have "storage_target e line1 machine1 dtype1 dname1 ?f1
        = storage_target e line2 machine2 dtype2 dname2 ?f2"
      by simp
    then have "last (snd (storage_target e line1 machine1 dtype1 dname1 ?f1))
        = last (snd (storage_target e line2 machine2 dtype2 dname2 ?f2))"
      by simp
    then have "?f1 = ?f2"
      by (simp only: storage_target_last [OF revision_file_name_plain [OF assms(3)]]
          storage_target_last [OF revision_file_name_plain [OF assms(4)]])
    then have "n1 = n2"
      by (rule revision_file_name_number)
    with differ show False
      by simp
  qed
next
  assume "plain (safe_folder_name line1) \<and> plain (safe_folder_name machine1) \<and> plain dtype1
            \<and> plain (safe_folder_name dname1)"
  with assms(1,3) show "p1 = stored_layout line1 machine1 dtype1 dname1 n1 now1 (suffix src1)"
    by (simp add: store_file_layout)
next
  assume "plain (safe_folder_name line2) \<and> plain (safe_folder_name machine2) \<and> plain dtype2
            \<and> plain (safe_folder_name dname2)"
  with assms(2,4) show "p2 = stored_layout line2 machine2 dtype2 dname2 n2 now2 (suffix src2)"
    by (simp add: store_file_layout)
qed

lemma example_store_drawing:
  "store_file example_env ''20240101120000'' Sound (fs example_world) ''/in/Program1.txt''
       ''Line B'' ''Lathe 2'' ''print'' ''Drawing'' 2
     = (Inr ''storage/Line_B/Lathe_2/print/Drawing/rev_2_20240101120000.txt'',
        (fs example_world)
          (''/data/storage/Line_B/Lathe_2/print/Drawing/rev_2_20240101120000.txt'' \<mapsto> ''G01''))"
proof (rule store_file_sound)
  show "plain (safe_folder_name ''Line B'')"
    by (simp add: string_eval)
  show "plain (safe_folder_name ''Lathe 2'')"
    by (simp add: string_eval)
  show "plain ''print''"
    by (simp add: string_eval)
  show "plain (safe_folder_name ''Drawing'')"
    by (simp add: string_eval)
  show "os_sep \<notin> set ''20240101120000''"
    by (simp add: os_sep_def)
  show "fs example_world ''/in/Program1.txt'' = Some ''G01''"
    by (simp add: example_world_def)
  show "str_path (fst (Path (DATA_DIR example_env)),
            snd (Path (DATA_DIR example_env)) @ [''storage'', safe_folder_name ''Line B'',
              safe_folder_name ''Lathe 2'', ''print'', safe_folder_name ''Drawing'',
              ''rev_'' @ str_int 2 @ ''_'' @ ''20240101120000'' @ suffix ''/in/Program1.txt''])
        = ''/data/storage/Line_B/Lathe_2/print/Drawing/rev_2_20240101120000.txt''"
    by (simp add: example_env_def string_eval)
  show "''/in/Program1.txt'' \<noteq> ''/data/storage/Line_B/Lathe_2/print/Drawing/rev_2_20240101120000.txt''"
    by simp
  show "stored_layout ''Line B'' ''Lathe 2'' ''print'' ''Drawing'' 2 ''20240101120000''
      (suffix ''/in/Program1.txt'') = ''storage/Line_B/Lathe_2/print/Drawing/rev_2_20240101120000.txt''"
    by (simp add: stored_layout_def string_eval)
qed

theorem stored_paths_differ_by_number_witness:
  "store_file example_env ''20240101120000'' Sound [''/in/Program1.txt'' \<mapsto> ''G01'']
       ''/in/Program1.txt'' ''Line A'' ''Mill-1'' ''program'' ''Program1'' 1
     = (Inr ''storage/Line_A/Mill-1/program/Program1/rev_1_20240101120000.txt'', fs example_world)
   \<and> store_file example_env ''20240101120000'' Sound (fs example_world) ''/in/Program1.txt''
       ''Line B'' ''Lathe 2'' ''print'' ''Drawing'' 2
     = (Inr ''storage/Line_B/Lathe_2/print/Drawing/rev_2_20240101120000.txt'',
        (fs example_world)
          (''/data/storage/Line_B/Lathe_2/print/Drawing/rev_2_20240101120000.txt'' \<mapsto> ''G01''))
   \<and> ''storage/Line_A/Mill-1/program/Program1/rev_1_20240101120000.txt''
       \<noteq> ''storage/Line_B/Lathe_2/print/Drawing/rev_2_20240101120000.txt''
   \<and> ''storage/Line_A/Mill-1/program/Program1/rev_1_20240101120000.txt''
       = stored_layout ''Line A'' ''Mill-1'' ''program'' ''Program1'' 1 ''20240101120000''
           (suffix ''/in/Program1.txt'')
   \<and> ''storage/Line_B/Lathe_2/print/Drawing/rev_2_20240101120000.txt''
       = stored_layout ''Line B'' ''Lathe 2'' ''print'' ''Drawing'' 2 ''20240101120000''
           (suffix ''/in/Program1.txt'')"
proof -
  have dd: "DATA_DIR example_env = ''/data''"
    by (simp add: example_env_def)
  note first = example_store [OF dd]
  note second = example_store_drawing
  have ts: "os_sep \<notin> set ''20240101120000''"
    by (simp add: os_sep_def)
  have p1: "plain (safe_folder_name ''Line A'') \<and> plain (safe_folder_name ''Mill-1'')
      \<and> plain ''program'' \<and> plain (safe_folder_name ''Program1'')"
    by (simp add: string_eval)
  have p2: "plain (safe_folder_name ''Line B'') \<and> plain (safe_folder_name ''Lathe 2'')
      \<and> plain ''print'' \<and> plain (safe_folder_name ''Drawing'')"
    by (simp add: string_eval)
  have ne: "(1::int) \<noteq> 2"
    by simp
  from stored_paths_differ_by_number [OF first second ts ts] ne p1 p2
  have "''storage/Line_A/Mill-1/program/Program1/rev_1_20240101120000.txt''
       \<noteq> ''storage/Line_B/Lathe_2/print/Drawing/rev_2_20240101120000.txt''
   \<and> ''storage/Line_A/Mill-1/program/Program1/rev_1_20240101120000.txt''
       = stored_layout ''Line A'' ''Mill-1'' ''program'' ''Program1'' 1 ''20240101120000''
           (suffix ''/in/Program1.txt'')
   \<and> ''storage/Line_B/Lathe_2/print/Drawing/rev_2_20240101120000.txt''
       = stored_layout ''Line B'' ''Lathe 2'' ''print'' ''Drawing'' 2 ''20240101120000''
           (suffix ''/in/Program1.txt'')"
    by blast
  with first second show ?thesis
    by blast
qed

lemma save_document_new:
  assumes "fs w src = Some content"
    and "normalize_doc_name (basename src) = dname"
    and "basename src = bname"
    and "spec_find_machine_document_by_name_or_hash (db w) line machine dtype dname content = None"
    and "spec_create_machine_document (db w) line machine dtype dname user = Inr (did, db1)"
    and "spec_get_next_machine_document_revision_number db1 did = n"
    and "store_file example_env now Sound (fs w) src line machine dtype dname n = (Inr sp, fls1)"
    and "spec_add_machine_document_revision db1 did n sp bname content user None = Inr db2"
  shows "save_document example_env now Sound w src line machine dtype user
     = (Inr (), \<lparr>fs = fls1, db = db2\<rparr>)"
proof -
  have h: "hash_file example_env (fs w) src = Inr content"
    by (simp add: hash_file_def assms(1) example_env_def)
  have r: "(case find_machine_document_by_name_or_hash example_env (db w) line machine dtype
                 (normalize_doc_name (basename src)) content of
            Some existing \<Rightarrow> Inr (doc_id existing, db w)
          | None \<Rightarrow> create_machine_document example_env (db w) line machine dtype
                      (normalize_doc_name (basename src)) user) = Inr (did, db1)"
    by (simp add: assms(2,4,5) example_env_def)
  have g: "get_next_machine_document_revision_number example_env db1 did = n"
    by (simp add: example_env_def assms(6))
  have a: "add_machine_document_revision example_env = spec_add_machine_document_revision"
    by (simp add: example_env_def)
  have st: "store_file example_env now Sound (fs w) src line machine dtype
      (normalize_doc_name (basename src))
      (get_next_machine_document_revision_number example_env db1 did) = (Inr sp, fls1)"
    by (simp only: g assms(2) assms(7))
  have ad: "add_machine_document_revision example_env db1 did
      (get_next_machine_document_revision_number example_env db1 did) sp (basename src) content
      user None = Inr db2"
    by (simp only: g a assms(3) assms(8))
  show ?thesis
    by (simp only: save_document_steps [OF h r] st ad sum.case prod.case)
qed

text \<open>
  C5 as stated fails: \<open>a.txt\<close> is imported within one second for the lines
  \<open>Line 1\<close> and \<open>Line_1\<close>, with different contents. Both imports succeed, the two
  revisions belong to two documents and have the same stored path, and the file there
  holds the bytes of the second import.
\<close>

theorem stored_path_collision_counterexample:
  "(case save_document example_env ''20240101120000'' Sound two_lines_world ''/in/a.txt''
           ''Line 1'' ''M'' ''program'' ''ann'' of
      (r1, w1) \<Rightarrow>
        (case save_document example_env ''20240101120000'' Sound w1 ''/in2/a.txt''
                ''Line_1'' ''M'' ''program'' ''ann'' of
           (r2, w2) \<Rightarrow>
             (r1, r2, map rev_document_id (revisions (db w2)), map stored_path (revisions (db w2)),
              map file_hash (revisions (db w2)),
              fs w2 ''/data/storage/Line_1/M/program/a/rev_1_20240101120000.txt'')))
   = (Inr (), Inr (), [1, 2],
      [''storage/Line_1/M/program/a/rev_1_20240101120000.txt'',
       ''storage/Line_1/M/program/a/rev_1_20240101120000.txt''],
      [''G01'', ''G02''], Some ''G02'')"
proof -
  let ?d1 = "\<lparr>doc_id = 1, doc_line = ''Line 1'', doc_machine = ''M'', doc_type = ''program'',
               doc_name = ''a'', doc_created_by = ''ann'', doc_active = True\<rparr>"
  let ?d2 = "\<lparr>doc_id = 2, doc_line = ''Line_1'', doc_machine = ''M'', doc_type = ''program'',
               doc_name = ''a'', doc_created_by = ''ann'', doc_active = True\<rparr>"
  let ?p = "''storage/Line_1/M/program/a/rev_1_20240101120000.txt''"
  let ?r1 = "\<lparr>rev_id = 1, rev_document_id = 1, revision_number = 1, stored_path = ?p,
               original_filename = ''a.txt'', file_hash = ''G01'', created_by = ''ann'',
               rev_notes = None\<rparr>"
  let ?r2 = "\<lparr>rev_id = 2, rev_document_id = 2, revision_number = 1, stored_path = ?p,
               original_filename = ''a.txt'', file_hash = ''G02'', created_by = ''ann'',
               rev_notes = None\<rparr>"
  let ?f1 = "(fs two_lines_world)(''/data/'' @ ?p \<mapsto> ''G01'')"
  let ?f2 = "?f1(''/data/'' @ ?p \<mapsto> ''G02'')"
  let ?w1 = "\<lparr>fs = ?f1, db = \<lparr>documents = [?d1], revisions = [?r1]\<rparr>\<rparr>"
  let ?w2 = "\<lparr>fs = ?f2, db = \<lparr>documents = [?d1, ?d2], revisions = [?r1, ?r2]\<rparr>\<rparr>"
  have dd: "DATA_DIR example_env = ''/data''"
    by (simp add: example_env_def)
  have lay1: "stored_layout ''Line 1'' ''M'' ''program'' ''a'' 1 ''20240101120000'' (suffix ''/in/a.txt'') = ?p"
    and lay2: "stored_layout ''Line_1'' ''M'' ''program'' ''a'' 1 ''20240101120000'' (suffix ''/in2/a.txt'') = ?p"
    by (simp_all add: stored_layout_def string_eval)
  have s1: "save_document example_env ''20240101120000'' Sound two_lines_world ''/in/a.txt''
           ''Line 1'' ''M'' ''program'' ''ann'' = (Inr (), ?w1)"
  proof (rule save_document_new)
    show "fs two_lines_world ''/in/a.txt'' = Some ''G01''"
      by (simp add: two_lines_world_def)
    show "normalize_doc_name (basename ''/in/a.txt'') = ''a''"
      by (simp add: string_eval)
    show "basename ''/in/a.txt'' = ''a.txt''"
      by (simp add: string_eval)
    show "spec_find_machine_document_by_name_or_hash (db two_lines_world) ''Line 1'' ''M'' ''program''
        ''a'' ''G01'' = None"
      by (simp add: spec_find_machine_document_by_name_or_hash_def two_lines_world_def)
    show "spec_create_machine_document (db two_lines_world) ''Line 1'' ''M'' ''program'' ''a'' ''ann''
        = Inr (1, \<lparr>documents = [?d1], revisions = []\<rparr>)"
      by (simp add: spec_create_machine_document_def two_lines_world_def)
    show "spec_get_next_machine_document_revision_number \<lparr>documents = [?d1], revisions = []\<rparr> 1 = 1"
      by (simp add: spec_get_next_machine_document_revision_number_def revision_numbers_def)
    show "store_file example_env ''20240101120000'' Sound (fs two_lines_world) ''/in/a.txt''
        ''Line 1'' ''M'' ''program'' ''a'' 1 = (Inr ?p, ?f1)"
    proof (rule store_file_sound)
      show "plain (safe_folder_name ''Line 1'')" and "plain (safe_folder_name ''M'')"
        and "plain ''program''" and "plain (safe_folder_name ''a'')"
        by (simp_all add: string_eval)
      show "os_sep \<notin> set ''20240101120000''"
        by (simp add: os_sep_def)
      show "fs two_lines_world ''/in/a.txt'' = Some ''G01''"
        by (simp add: two_lines_world_def)
      show "str_path (fst (Path (DATA_DIR example_env)),
            snd (Path (DATA_DIR example_env)) @ [''storage'', safe_folder_name ''Line 1'',
              safe_folder_name ''M'', ''program'', safe_folder_name ''a'',
              ''rev_'' @ str_int 1 @ ''_'' @ ''20240101120000'' @ suffix ''/in/a.txt''])
          = ''/data/'' @ ?p"
        by (simp add: dd string_eval)
      show "''/in/a.txt'' \<noteq> ''/data/'' @ ?p"
        by simp
      show "stored_layout ''Line 1'' ''M'' ''program'' ''a'' 1 ''20240101120000''
          (suffix ''/in/a.txt'') = ?p"
        by (rule lay1)
    qed
    show "spec_add_machine_document_revision \<lparr>documents = [?d1], revisions = []\<rparr> 1 1 ?p ''a.txt''
        ''G01'' ''ann'' None = Inr \<lparr>documents = [?d1], revisions = [?r1]\<rparr>"
      by (simp add: spec_add_machine_document_revision_def
          spec_get_next_machine_document_revision_number_def revision_numbers_def)
  qed
  have s2: "save_document example_env ''20240101120000'' Sound ?w1 ''/in2/a.txt''
           ''Line_1'' ''M'' ''program'' ''ann'' = (Inr (), ?w2)"
  proof (rule save_document_new)
    show "fs ?w1 ''/in2/a.txt'' = Some ''G02''"
      by (simp add: two_lines_world_def)
    show "normalize_doc_name (basename ''/in2/a.txt'') = ''a''"
      by (simp add: string_eval)
    show "basename ''/in2/a.txt'' = ''a.txt''"
      by (simp add: string_eval)
    show "spec_find_machine_document_by_name_or_hash (db ?w1) ''Line_1'' ''M'' ''program''
        ''a'' ''G02'' = None"
      by (simp add: spec_find_machine_document_by_name_or_hash_def same_target_def has_content_def)
    show "spec_create_machine_document (db ?w1) ''Line_1'' ''M'' ''program'' ''a'' ''ann''
        = Inr (2, \<lparr>documents = [?d1, ?d2], revisions = [?r1]\<rparr>)"
      by (simp add: spec_create_machine_document_def same_target_def)
    show "spec_get_next_machine_document_revision_number \<lparr>documents = [?d1, ?d2], revisions = [?r1]\<rparr> 2 = 1"
      by (simp add: spec_get_next_machine_document_revision_number_def revision_numbers_def)
    show "store_file example_env ''20240101120000'' Sound (fs ?w1) ''/in2/a.txt'' ''Line_1'' ''M''
        ''program'' ''a'' 1 = (Inr ?p, ?f2)"
      unfolding world.simps
    proof (rule store_file_sound)
      show "plain (safe_folder_name ''Line_1'')" and "plain (safe_folder_name ''M'')"
        and "plain ''program''" and "plain (safe_folder_name ''a'')"
        by (simp_all add: string_eval)
      show "os_sep \<notin> set ''20240101120000''"
        by (simp add: os_sep_def)
      show "?f1 ''/in2/a.txt'' = Some ''G02''"
        by (simp add: two_lines_world_def)
      show "str_path (fst (Path (DATA_DIR example_env)),
            snd (Path (DATA_DIR example_env)) @ [''storage'', safe_folder_name ''Line_1'',
              safe_folder_name ''M'', ''program'', safe_folder_name ''a'',
              ''rev_'' @ str_int 1 @ ''_'' @ ''20240101120000'' @ suffix ''/in2/a.txt''])
          = ''/data/'' @ ?p"
        by (simp add: dd string_eval)
      show "''/in2/a.txt'' \<noteq> ''/data/'' @ ?p"
        by simp
      show "stored_layout ''Line_1'' ''M'' ''program'' ''a'' 1 ''20240101120000''
          (suffix ''/in2/a.txt'') = ?p"
        by (rule lay2)
    qed
    show "spec_add_machine_document_revision \<lparr>documents = [?d1, ?d2], revisions = [?r1]\<rparr> 2 1 ?p ''a.txt''
        ''G02'' ''ann'' None = Inr \<lparr>documents = [?d1, ?d2], revisions = [?r1, ?r2]\<rparr>"
      by (simp add: spec_add_machine_document_revision_def
          spec_get_next_machine_document_revision_number_def revision_numbers_def)
  qed
  show ?thesis
    unfolding s1 prod.case s2 by simp
qed

section \<open>Name normalization\<close>

lemma space_is_space: "is_space CHR '' ''"
  by (simp add: is_space_def)

lemma split_acc_words:
  assumes "\<forall>c \<in> set w. \<not> is_space c"
  shows "\<forall>x \<in> set (split_acc w s). x \<noteq> [] \<and> (\<forall>c \<in> set x. \<not> is_space c)"
  using assms
proof (induction s arbitrary: w)
  case Nil
  then show ?case by simp
next
  case (Cons a s)
  show ?case
  proof (cases "is_space a")
    case True
    have "\<forall>x \<in> set (split_acc [] s). x \<noteq> [] \<and> (\<forall>c \<in> set x. \<not> is_space c)"
      by (rule Cons.IH) simp
    with True Cons.prems show ?thesis
      by simp
  next
    case False
    with Cons.prems have "\<forall>c \<in> set (w @ [a]). \<not> is_space c"
      by simp
    then have "\<forall>x \<in> set (split_acc (w @ [a]) s). x \<noteq> [] \<and> (\<forall>c \<in> set x. \<not> is_space c)"
      by (rule Cons.IH)
    with False show ?thesis
      by simp
  qed
qed

lemma split_acc_chars: "\<forall>x \<in> set (split_acc w s). set x \<subseteq> set w \<union> set s"
proof (induction s arbitrary: w)
  case Nil
  then show ?case by simp
next
  case (Cons a s)
  show ?case
  proof (cases "is_space a")
    case True
    with Cons.IH [of "[]"] show ?thesis
      by auto
  next
    case False
    with Cons.IH [of "w @ [a]"] show ?thesis
      by auto
  qed
qed

lemma split_words: "\<forall>x \<in> set (split s). x \<noteq> [] \<and> (\<forall>c \<in> set x. \<not> is_space c)"
  unfolding split_def by (rule split_acc_words) simp

lemma split_chars: "\<forall>x \<in> set (split s). set x \<subseteq> set s"
  using split_acc_chars [of "[]" s] by (simp add: split_def)

lemma split_acc_dropWhile: "split_acc [] (dropWhile is_space s) = split_acc [] s"
  by (induction s) auto

lemma split_acc_trailing: "is_space c \<Longrightarrow> split_acc w (s @ [c]) = split_acc w s"
  by (induction s arbitrary: w) auto

lemma split_acc_rstrip: "split_acc w (rev (dropWhile is_space (rev s))) = split_acc w s"
proof (induction s rule: rev_induct)
  case Nil
  then show ?case by simp
next
  case (snoc c s)
  then show ?case
    by (cases "is_space c") (simp_all add: split_acc_trailing)
qed

lemma split_strip: "split (strip s) = split s"
  by (simp add: split_def strip_def split_acc_rstrip split_acc_dropWhile)

lemma split_acc_word:
  assumes "\<forall>c \<in> set v. \<not> is_space c"
  shows "split_acc w (v @ s) = split_acc (w @ v) s"
  using assms by (induction v arbitrary: w) auto

lemma split_join:
  assumes "\<forall>x \<in> set ws. x \<noteq> [] \<and> (\<forall>c \<in> set x. \<not> is_space c)"
  shows "split_acc [] (join '' '' ws) = ws"
  using assms
proof (induction "'' ''" ws rule: join.induct)
  case 1
  then show ?case by simp
next
  case (2 x)
  then have "split_acc [] (x @ []) = split_acc x []"
    by (subst split_acc_word) simp_all
  with 2 show ?case by simp
next
  case (3 x y ys)
  then have "split_acc [] (x @ '' '' @ join '' '' (y # ys))
      = split_acc x ('' '' @ join '' '' (y # ys))"
    by (subst split_acc_word) simp_all
  with 3 show ?case
    by (simp add: space_is_space)
qed

lemma join_chars: "set (join sep ws) \<subseteq> set sep \<union> (\<Union>x \<in> set ws. set x)"
  by (induction sep ws rule: join.induct) auto

lemma join_empty:
  assumes "\<forall>x \<in> set ws. x \<noteq> []"
  shows "join sep ws = [] \<longleftrightarrow> ws = []"
  using assms by (induction sep ws rule: join.induct) auto

lemma join_hd:
  assumes "\<forall>x \<in> set ws. x \<noteq> []" and "ws \<noteq> []"
  shows "hd (join sep ws) = hd (hd ws)"
  using assms by (induction sep ws rule: join.induct) auto

lemma join_last:
  assumes "\<forall>x \<in> set ws. x \<noteq> []" and "ws \<noteq> []"
  shows "last (join sep ws) = last (last ws)"
  using assms
proof (induction sep ws rule: join.induct)
  case (3 sep x y ys)
  then have "join sep (y # ys) \<noteq> []"
    by (simp add: join_empty)
  with 3 show ?case by simp
qed simp_all

lemma adjacent_spaces_word:
  assumes "\<forall>c \<in> set x. c \<noteq> CHR '' ''"
  shows "adjacent_spaces (x @ CHR '' '' # r) = adjacent_spaces (CHR '' '' # r)"
  using assms
proof (induction x)
  case Nil
  then show ?case by simp
next
  case (Cons a x)
  then show ?case
    by (cases x) auto
qed

lemma adjacent_spaces_single:
  assumes "\<forall>c \<in> set x. c \<noteq> CHR '' ''"
  shows "\<not> adjacent_spaces x"
  using assms
proof (induction x)
  case Nil
  then show ?case by simp
next
  case (Cons a x)
  then show ?case
    by (cases x) auto
qed

lemma join_no_adjacent_spaces:
  assumes "\<forall>x \<in> set ws. x \<noteq> [] \<and> (\<forall>c \<in> set x. \<not> is_space c)"
  shows "\<not> adjacent_spaces (join '' '' ws)"
  using assms
proof (induction "'' ''" ws rule: join.induct)
  case 1
  then show ?case by simp
next
  case (2 x)
  then have "\<forall>c \<in> set x. c \<noteq> CHR '' ''"
    using space_is_space by auto
  then show ?case
    by (simp add: adjacent_spaces_single)
next
  case (3 x y ys)
  then have x: "\<forall>c \<in> set x. c \<noteq> CHR '' ''"
    using space_is_space by auto
  from 3 have rest: "\<not> adjacent_spaces (join '' '' (y # ys))"
    by simp
  from 3 have "join '' '' (y # ys) \<noteq> []" and "hd (join '' '' (y # ys)) = hd y"
    by (simp_all add: join_empty join_hd)
  moreover from 3 have "hd y \<noteq> CHR '' ''"
    using space_is_space by (cases y) auto
  ultimately obtain b r where j: "join '' '' (y # ys) = b # r" and b: "b \<noteq> CHR '' ''"
    by (cases "join '' '' (y # ys)") auto
  have "adjacent_spaces (x @ CHR '' '' # join '' '' (y # ys))
      = adjacent_spaces (CHR '' '' # join '' '' (y # ys))"
    using x by (rule adjacent_spaces_word)
  also have "\<dots> = adjacent_spaces (join '' '' (y # ys))"
    by (simp add: j b)
  finally show ?case
    using rest by simp
qed


lemma replace_no_old: "old \<noteq> new \<Longrightarrow> old \<notin> set (replace old new s)"
  by (auto simp: replace_def)

text \<open>
  C6, as the code has it: the normalized name is the stem of the file name (its last
  component without the last extension) with every underscore replaced by a space, cut
  into its words and joined with single spaces. So it has the words of that string, no
  underscore, no whitespace but single spaces between words, and none at either end.
  Nothing but the underscore is replaced.
\<close>

theorem normalize_doc_name_shape:
  "normalize_doc_name f = join '' '' (split (replace CHR ''_'' CHR '' '' (stem f)))
   \<and> split (normalize_doc_name f) = split (replace CHR ''_'' CHR '' '' (stem f))
   \<and> CHR ''_'' \<notin> set (normalize_doc_name f)
   \<and> (\<forall>c \<in> set (normalize_doc_name f). is_space c \<longrightarrow> c = CHR '' '')
   \<and> (normalize_doc_name f \<noteq> [] \<longrightarrow>
         \<not> is_space (hd (normalize_doc_name f)) \<and> \<not> is_space (last (normalize_doc_name f)))
   \<and> \<not> adjacent_spaces (normalize_doc_name f)"
proof -
  define base where "base = replace CHR ''_'' CHR '' '' (stem f)"
  define ws where "ws = split base"
  define r where "r = normalize_doc_name f"
  have eq: "r = join '' '' ws"
    by (simp add: r_def ws_def base_def normalize_doc_name_def Let_def split_strip)
  have words: "\<forall>x \<in> set ws. x \<noteq> [] \<and> (\<forall>c \<in> set x. \<not> is_space c)"
    unfolding ws_def by (rule split_words)
  then have nonempty: "\<forall>x \<in> set ws. x \<noteq> []"
    by blast
  have "split_acc [] (join '' '' ws) = ws"
    using words by (rule split_join)
  then have same: "split r = ws"
    by (simp add: eq split_def)
  have sub: "set r \<subseteq> {CHR '' ''} \<union> (\<Union>x \<in> set ws. set x)"
    unfolding eq using join_chars [of "'' ''" ws] by simp
  have "CHR ''_'' \<notin> set base"
    unfolding base_def by (rule replace_no_old) simp
  moreover have "\<forall>x \<in> set ws. set x \<subseteq> set base"
    unfolding ws_def by (rule split_chars)
  ultimately have nou: "\<forall>x \<in> set ws. CHR ''_'' \<notin> set x"
    by blast
  have under: "CHR ''_'' \<notin> set r"
  proof
    assume "CHR ''_'' \<in> set r"
    with sub have "CHR ''_'' \<in> (\<Union>x \<in> set ws. set x)"
      by auto
    with nou show False
      by blast
  qed
  have spaces: "\<forall>c \<in> set r. is_space c \<longrightarrow> c = CHR '' ''"
  proof (intro ballI impI)
    fix c
    assume c: "c \<in> set r" and sp: "is_space c"
    show "c = CHR '' ''"
    proof (rule ccontr)
      assume "c \<noteq> CHR '' ''"
      with c sub have "c \<in> (\<Union>x \<in> set ws. set x)"
        by blast
      with words sp show False
        by blast
    qed
  qed
  have ends: "\<not> is_space (hd r) \<and> \<not> is_space (last r)" if "r \<noteq> []"
  proof -
    from that have ne: "ws \<noteq> []"
      unfolding eq by auto
    then have "hd ws \<in> set ws" and "last ws \<in> set ws"
      by simp_all
    with words have h: "hd ws \<noteq> []" "\<forall>c \<in> set (hd ws). \<not> is_space c"
      and l: "last ws \<noteq> []" "\<forall>c \<in> set (last ws). \<not> is_space c"
      by blast+
    from h have "\<not> is_space (hd (hd ws))"
      by simp
    moreover from l have "\<not> is_space (last (last ws))"
      by simp
    moreover have "hd r = hd (hd ws)"
      unfolding eq by (rule join_hd [OF nonempty ne])
    moreover have "last r = last (last ws)"
      unfolding eq by (rule join_last [OF nonempty ne])
    ultimately show ?thesis
      by simp
  qed
  have adj: "\<not> adjacent_spaces r"
    unfolding eq using words by (rule join_no_adjacent_spaces)
  have "r = join '' '' ws \<and> split r = ws \<and> CHR ''_'' \<notin> set r
      \<and> (\<forall>c \<in> set r. is_space c \<longrightarrow> c = CHR '' '')
      \<and> (r \<noteq> [] \<longrightarrow> \<not> is_space (hd r) \<and> \<not> is_space (last r))
      \<and> \<not> adjacent_spaces r"
    using eq same under spaces ends adj by blast
  then show ?thesis
    unfolding r_def ws_def base_def .
qed

lemma example_messy_name: "normalize_doc_name ''  a__b   c_.tar.gz'' = ''a b c .tar''"
  by (simp add: string_eval)

theorem normalize_doc_name_shape_witness:
  "normalize_doc_name ''  a__b   c_.tar.gz'' = ''a b c .tar''
   \<and> split ''a b c .tar'' = split (replace CHR ''_'' CHR '' '' (stem ''  a__b   c_.tar.gz''))
   \<and> CHR ''_'' \<notin> set ''a b c .tar''
   \<and> \<not> is_space (hd ''a b c .tar'') \<and> \<not> is_space (last ''a b c .tar'')
   \<and> \<not> adjacent_spaces ''a b c .tar''"
proof -
  have ne: "''a b c .tar'' \<noteq> []"
    by simp
  from normalize_doc_name_shape [of "''  a__b   c_.tar.gz''"] ne show ?thesis
    unfolding example_messy_name by blast
qed

text \<open>
  C6 as stated fails: a backslash in a file name is kept and not replaced by a space,
  and a directory part before a slash is dropped and not joined with a space, while the
  specification's wording gives \<open>a b\<close> and \<open>x part 1\<close>.
\<close>

theorem normalize_keeps_separator_counterexample:
  "normalize_doc_name [CHR ''a'', CHR 0x5C, CHR ''b'', CHR ''.'', CHR ''t'', CHR ''x'', CHR ''t'']
     = [CHR ''a'', CHR 0x5C, CHR ''b'']
   \<and> spec_normalize_doc_name [CHR ''a'', CHR 0x5C, CHR ''b'', CHR ''.'', CHR ''t'', CHR ''x'', CHR ''t'']
     = ''a b''
   \<and> normalize_doc_name ''x/part_1.txt'' = ''part 1''
   \<and> spec_normalize_doc_name ''x/part_1.txt'' = ''x part 1''"
  by (simp add: string_eval spec_normalize_doc_name_def spec_strip_extension_def
      path_separator_like_def)

section \<open>Resolution of an import to a document\<close>

lemma find_None_none: "find P xs = None \<longleftrightarrow> (\<forall>x \<in> set xs. \<not> P x)"
  by (induction xs) auto

lemma spec_find_Some:
  assumes "spec_find_machine_document_by_name_or_hash d line machine dtype dname fhash = Some x"
  shows "x \<in> set (documents d) \<and> same_target x line machine dtype
       \<and> (doc_name x = dname \<or> has_content d x fhash)"
proof (cases "find (\<lambda>x. same_target x line machine dtype \<and> doc_name x = dname) (documents d)")
  case None
  with assms have "find (\<lambda>x. same_target x line machine dtype \<and> has_content d x fhash)
      (documents d) = Some x"
    by (simp add: spec_find_machine_document_by_name_or_hash_def)
  then show ?thesis
    by (auto dest: find_Some_holds)
next
  case (Some y)
  with assms have "y = x"
    by (simp add: spec_find_machine_document_by_name_or_hash_def)
  with Some show ?thesis
    by (auto dest: find_Some_holds)
qed

lemma spec_find_None:
  "spec_find_machine_document_by_name_or_hash d line machine dtype dname fhash = None
   \<longleftrightarrow> (\<forall>x \<in> set (documents d).
          \<not> (same_target x line machine dtype \<and> (doc_name x = dname \<or> has_content d x fhash)))"
proof (cases "find (\<lambda>x. same_target x line machine dtype \<and> doc_name x = dname) (documents d)")
  case None
  then have "spec_find_machine_document_by_name_or_hash d line machine dtype dname fhash
      = find (\<lambda>x. same_target x line machine dtype \<and> has_content d x fhash) (documents d)"
    by (simp add: spec_find_machine_document_by_name_or_hash_def)
  with None show ?thesis
    by (auto simp: find_None_none)
next
  case (Some y)
  then have "spec_find_machine_document_by_name_or_hash d line machine dtype dname fhash = Some y"
    by (simp add: spec_find_machine_document_by_name_or_hash_def)
  moreover from Some have "y \<in> set (documents d) \<and> same_target y line machine dtype
      \<and> doc_name y = dname"
    by (auto dest: find_Some_holds)
  ultimately show ?thesis
    by auto
qed

lemma spec_create_fresh:
  assumes "\<forall>x \<in> set (documents d). \<not> (same_target x line machine dtype \<and> doc_name x = dname)"
  shows "spec_create_machine_document d line machine dtype dname user
     = Inr (fold max (map doc_id (documents d)) 0 + 1,
            d\<lparr>documents := documents d @
              [\<lparr>doc_id = fold max (map doc_id (documents d)) 0 + 1, doc_line = line,
                doc_machine = machine, doc_type = dtype, doc_name = dname,
                doc_created_by = user, doc_active = True\<rparr>]\<rparr>)"
  using assms by (simp add: spec_create_machine_document_def list_ex_iff Let_def)

lemma spec_add_next:
  "spec_add_machine_document_revision d did
       (spec_get_next_machine_document_revision_number d did) sp oname fhash user nts
     = Inr (d\<lparr>revisions := revisions d @
              [\<lparr>rev_id = fold max (map rev_id (revisions d)) 0 + 1, rev_document_id = did,
                revision_number = spec_get_next_machine_document_revision_number d did,
                stored_path = sp, original_filename = oname, file_hash = fhash,
                created_by = user, rev_notes = nts\<rparr>]\<rparr>)"
  by (simp add: spec_add_machine_document_revision_def)

lemma save_document_spec_resolved:
  assumes "fs w src = Some content"
    and "(case spec_find_machine_document_by_name_or_hash (db w) line machine dtype
                 (normalize_doc_name (basename src)) (digest content) of
            Some existing \<Rightarrow> Inr (doc_id existing, db w)
          | None \<Rightarrow> spec_create_machine_document (db w) line machine dtype
                      (normalize_doc_name (basename src)) user) = Inr (did, db1)"
  shows "save_document (spec_env dd digest login) now dk w src line machine dtype user =
     (case store_file (spec_env dd digest login) now dk (fs w) src line machine dtype
             (normalize_doc_name (basename src))
             (spec_get_next_machine_document_revision_number db1 did) of
        (Inl exc, fls1) \<Rightarrow> (Inl exc, \<lparr>fs = fls1, db = db1\<rparr>)
      | (Inr sp, fls1) \<Rightarrow>
          (Inr (), \<lparr>fs = fls1, db = db1\<lparr>revisions := revisions db1 @
              [\<lparr>rev_id = fold max (map rev_id (revisions db1)) 0 + 1, rev_document_id = did,
                revision_number = spec_get_next_machine_document_revision_number db1 did,
                stored_path = sp, original_filename = basename src, file_hash = digest content,
                created_by = user, rev_notes = None\<rparr>]\<rparr>\<rparr>))"
proof -
  have h: "hash_file (spec_env dd digest login) (fs w) src = Inr (digest content)"
    by (simp add: hash_file_def assms(1))
  have r: "(case find_machine_document_by_name_or_hash (spec_env dd digest login) (db w) line
                 machine dtype (normalize_doc_name (basename src)) (digest content) of
            Some existing \<Rightarrow> Inr (doc_id existing, db w)
          | None \<Rightarrow> create_machine_document (spec_env dd digest login) (db w) line machine dtype
                      (normalize_doc_name (basename src)) user) = Inr (did, db1)"
    using assms(2) by (auto split: option.splits)
  show ?thesis
    unfolding save_document_steps [OF h r]
    by (simp add: spec_add_next split: sum.splits prod.splits)
qed

text \<open>
  C4, with the lookup and creation of the specification: when a document of the same
  line, machine and type has the normalized name of the imported file, or a revision
  with its content hash, the import creates no document, and a successful import
  appends one revision, to such a document; when there is none, the import creates
  exactly one document, of that name, and a successful import appends its first
  revision to it.
\<close>

theorem import_resolves_to_existing_document:
  assumes src: "fs w src = Some content"
    and run: "save_document (spec_env dd digest login) now dk w src line machine dtype user
           = (res, w')"
    and dname: "dname = normalize_doc_name (basename src)"
  shows "((\<exists>x \<in> set (documents (db w)). same_target x line machine dtype
              \<and> (doc_name x = dname \<or> has_content (db w) x (digest content)))
          \<longrightarrow> documents (db w') = documents (db w)
              \<and> (res = Inr () \<longrightarrow>
                    (\<exists>x \<in> set (documents (db w)). \<exists>r.
                        same_target x line machine dtype
                      \<and> (doc_name x = dname \<or> has_content (db w) x (digest content))
                      \<and> revisions (db w') = revisions (db w) @ [r]
                      \<and> rev_document_id r = doc_id x \<and> file_hash r = digest content)))
       \<and> (\<not> (\<exists>x \<in> set (documents (db w)). same_target x line machine dtype
              \<and> (doc_name x = dname \<or> has_content (db w) x (digest content)))
          \<longrightarrow> (\<exists>d. documents (db w') = documents (db w) @ [d]
                  \<and> same_target d line machine dtype \<and> doc_name d = dname
                  \<and> (res = Inr () \<longrightarrow>
                        (\<exists>r. revisions (db w') = revisions (db w) @ [r]
                           \<and> rev_document_id r = doc_id d \<and> file_hash r = digest content))))"
proof (cases "spec_find_machine_document_by_name_or_hash (db w) line machine dtype dname
    (digest content)")
  case None
  then have none: "\<forall>x \<in> set (documents (db w)).
      \<not> (same_target x line machine dtype \<and> (doc_name x = dname \<or> has_content (db w) x (digest content)))"
    by (simp add: spec_find_None)
  then have fresh: "\<forall>x \<in> set (documents (db w)).
      \<not> (same_target x line machine dtype \<and> doc_name x = dname)"
    by blast
  define d where "d = \<lparr>doc_id = fold max (map doc_id (documents (db w))) 0 + 1, doc_line = line,
                doc_machine = machine, doc_type = dtype, doc_name = dname,
                doc_created_by = user, doc_active = True\<rparr>"
  define db1 where "db1 = (db w)\<lparr>documents := documents (db w) @ [d]\<rparr>"
  have res1: "(case spec_find_machine_document_by_name_or_hash (db w) line machine dtype
                 (normalize_doc_name (basename src)) (digest content) of
            Some existing \<Rightarrow> Inr (doc_id existing, db w)
          | None \<Rightarrow> spec_create_machine_document (db w) line machine dtype
                      (normalize_doc_name (basename src)) user) = Inr (doc_id d, db1)"
    using None spec_create_fresh [OF fresh, of user]
    by (simp add: dname [symmetric] d_def db1_def)
  have d: "same_target d line machine dtype \<and> doc_name d = dname"
    by (simp add: d_def same_target_def)
  have docs: "documents db1 = documents (db w) @ [d]" and revs: "revisions db1 = revisions (db w)"
    by (simp_all add: db1_def)
  note steps = save_document_spec_resolved [where digest = digest, OF src res1, of dd login now dk]
  have "documents (db w') = documents (db w) @ [d]
      \<and> (res = Inr () \<longrightarrow> (\<exists>r. revisions (db w') = revisions (db w) @ [r]
             \<and> rev_document_id r = doc_id d \<and> file_hash r = digest content))"
  proof (cases "store_file (spec_env dd digest login) now dk (fs w) src line machine dtype
             (normalize_doc_name (basename src))
             (spec_get_next_machine_document_revision_number db1 (doc_id d))")
    case (Pair stored fls1)
    with steps run docs revs show ?thesis
      by (cases stored) auto
  qed
  with none d show ?thesis
    by blast
next
  case (Some x)
  then have x: "x \<in> set (documents (db w)) \<and> same_target x line machine dtype
       \<and> (doc_name x = dname \<or> has_content (db w) x (digest content))"
    by (rule spec_find_Some)
  have res1: "(case spec_find_machine_document_by_name_or_hash (db w) line machine dtype
                 (normalize_doc_name (basename src)) (digest content) of
            Some existing \<Rightarrow> Inr (doc_id existing, db w)
          | None \<Rightarrow> spec_create_machine_document (db w) line machine dtype
                      (normalize_doc_name (basename src)) user) = Inr (doc_id x, db w)"
    using Some by (simp add: dname [symmetric])
  note steps = save_document_spec_resolved [where digest = digest, OF src res1, of dd login now dk]
  have "documents (db w') = documents (db w)
      \<and> (res = Inr () \<longrightarrow> (\<exists>r. revisions (db w') = revisions (db w) @ [r]
             \<and> rev_document_id r = doc_id x \<and> file_hash r = digest content))"
  proof (cases "store_file (spec_env dd digest login) now dk (fs w) src line machine dtype
             (normalize_doc_name (basename src))
             (spec_get_next_machine_document_revision_number (db w) (doc_id x))")
    case (Pair stored fls1)
    with steps run show ?thesis
      by (cases stored) auto
  qed
  with x show ?thesis
    by blast
qed


theorem import_resolves_to_existing_document_witness:
  "fst (save_document example_env ''20240103080000'' Sound incoming_world ''/in/Program1_updated.txt''
          ''Line A'' ''Mill-1'' ''program'' ''ann'') = Inr ()
   \<and> documents (db (snd (save_document example_env ''20240103080000'' Sound incoming_world
          ''/in/Program1_updated.txt'' ''Line A'' ''Mill-1'' ''program'' ''ann'')))
       = [example_document]
   \<and> map rev_document_id (revisions (db (snd (save_document example_env ''20240103080000''
          Sound incoming_world ''/in/Program1_updated.txt'' ''Line A'' ''Mill-1'' ''program'' ''ann''))))
       = [1, 1]
   \<and> fst (save_document example_env ''20240103080000'' Sound incoming_world ''/in/Other.txt''
          ''Line A'' ''Mill-1'' ''program'' ''ann'') = Inr ()
   \<and> map doc_name (documents (db (snd (save_document example_env ''20240103080000'' Sound incoming_world
          ''/in/Other.txt'' ''Line A'' ''Mill-1'' ''program'' ''ann''))))
       = [''Program1'', ''Other'']
   \<and> map rev_document_id (revisions (db (snd (save_document example_env ''20240103080000''
          Sound incoming_world ''/in/Other.txt'' ''Line A'' ''Mill-1'' ''program'' ''ann''))))
       = [1, 2]"
proof -
  let ?e = "spec_env ''/data'' (\<lambda>content. content) None"
  let ?d = "\<lparr>documents = [example_document], revisions = [example_revision]\<rparr>"
  have dbw: "db incoming_world = ?d"
    by (simp add: incoming_world_def)
  have src1: "fs incoming_world ''/in/Program1_updated.txt'' = Some ''G01''"
    and src2: "fs incoming_world ''/in/Other.txt'' = Some ''G55''"
    by (simp_all add: incoming_world_def)
  have name1: "normalize_doc_name (basename ''/in/Program1_updated.txt'') = ''Program1 updated''"
    and name2: "normalize_doc_name (basename ''/in/Other.txt'') = ''Other''"
    by (simp_all add: string_eval)
  have target: "same_target example_document ''Line A'' ''Mill-1'' ''program''"
    by (simp add: same_target_def example_document_def)
  have content: "has_content ?d example_document ''G01''"
    and other: "\<not> has_content ?d example_document ''G55''"
    by (simp_all add: has_content_def example_document_def example_revision_def)
  have names: "doc_name example_document = ''Program1''"
    by (simp add: example_document_def)
  have find1: "spec_find_machine_document_by_name_or_hash ?d ''Line A'' ''Mill-1'' ''program''
      ''Program1 updated'' ''G01'' = Some example_document"
    by (simp add: spec_find_machine_document_by_name_or_hash_def target content names)
  have find2: "spec_find_machine_document_by_name_or_hash ?d ''Line A'' ''Mill-1'' ''program''
      ''Other'' ''G55'' = None"
    by (simp add: spec_find_machine_document_by_name_or_hash_def target other names)
  have next1: "spec_get_next_machine_document_revision_number ?d 1 = 2"
    by (simp add: spec_get_next_machine_document_revision_number_def revision_numbers_def
        example_revision_def)
  have lay1: "stored_layout ''Line A'' ''Mill-1'' ''program'' ''Program1 updated'' 2
      ''20240103080000'' (suffix ''/in/Program1_updated.txt'')
      = ''storage/Line_A/Mill-1/program/Program1_updated/rev_2_20240103080000.txt''"
    by (simp add: stored_layout_def string_eval)
  have store1: "store_file ?e ''20240103080000'' Sound (fs incoming_world)
      ''/in/Program1_updated.txt'' ''Line A'' ''Mill-1'' ''program'' ''Program1 updated'' 2
      = (Inr ''storage/Line_A/Mill-1/program/Program1_updated/rev_2_20240103080000.txt'',
         (fs incoming_world)
           (''/data/storage/Line_A/Mill-1/program/Program1_updated/rev_2_20240103080000.txt''
              \<mapsto> ''G01''))"
  proof (rule store_file_sound)
    show "plain (safe_folder_name ''Line A'')" and "plain (safe_folder_name ''Mill-1'')"
      and "plain ''program''" and "plain (safe_folder_name ''Program1 updated'')"
      by (simp_all add: string_eval)
    show "os_sep \<notin> set ''20240103080000''"
      by (simp add: os_sep_def)
    show "fs incoming_world ''/in/Program1_updated.txt'' = Some ''G01''"
      by (rule src1)
    show "str_path (fst (Path (DATA_DIR ?e)),
          snd (Path (DATA_DIR ?e)) @ [''storage'', safe_folder_name ''Line A'',
            safe_folder_name ''Mill-1'', ''program'', safe_folder_name ''Program1 updated'',
            ''rev_'' @ str_int 2 @ ''_'' @ ''20240103080000'' @ suffix ''/in/Program1_updated.txt''])
        = ''/data/storage/Line_A/Mill-1/program/Program1_updated/rev_2_20240103080000.txt''"
      by (simp add: string_eval)
    show "''/in/Program1_updated.txt''
        \<noteq> ''/data/storage/Line_A/Mill-1/program/Program1_updated/rev_2_20240103080000.txt''"
      by simp
    show "stored_layout ''Line A'' ''Mill-1'' ''program'' ''Program1 updated'' 2
        ''20240103080000'' (suffix ''/in/Program1_updated.txt'')
        = ''storage/Line_A/Mill-1/program/Program1_updated/rev_2_20240103080000.txt''"
      by (rule lay1)
  qed
  have res1: "(case spec_find_machine_document_by_name_or_hash (db incoming_world) ''Line A''
                 ''Mill-1'' ''program'' (normalize_doc_name (basename ''/in/Program1_updated.txt''))
                 ((\<lambda>content. content) ''G01'') of
            Some existing \<Rightarrow> Inr (doc_id existing, db incoming_world)
          | None \<Rightarrow> spec_create_machine_document (db incoming_world) ''Line A'' ''Mill-1''
                      ''program'' (normalize_doc_name (basename ''/in/Program1_updated.txt'')) ''ann'')
        = Inr (1, ?d)"
    by (simp add: dbw name1 find1) (simp add: example_document_def)
  have run1: "save_document ?e ''20240103080000'' Sound incoming_world ''/in/Program1_updated.txt''
      ''Line A'' ''Mill-1'' ''program'' ''ann''
      = (Inr (), \<lparr>fs = (fs incoming_world)
               (''/data/storage/Line_A/Mill-1/program/Program1_updated/rev_2_20240103080000.txt''
                  \<mapsto> ''G01''),
             db = ?d\<lparr>revisions := revisions ?d @
              [\<lparr>rev_id = fold max (map rev_id (revisions ?d)) 0 + 1, rev_document_id = 1,
                revision_number = 2,
                stored_path = ''storage/Line_A/Mill-1/program/Program1_updated/rev_2_20240103080000.txt'',
                original_filename = basename ''/in/Program1_updated.txt'', file_hash = ''G01'',
                created_by = ''ann'', rev_notes = None\<rparr>]\<rparr>\<rparr>)"
    unfolding save_document_spec_resolved [where digest = "\<lambda>content. content", OF src1 res1]
      name1 next1 store1
    by simp
  let ?d2 = "\<lparr>doc_id = 2, doc_line = ''Line A'', doc_machine = ''Mill-1'', doc_type = ''program'',
      doc_name = ''Other'', doc_created_by = ''ann'', doc_active = True\<rparr>"
  let ?db1 = "\<lparr>documents = [example_document, ?d2], revisions = [example_revision]\<rparr>"
  have create2: "spec_create_machine_document ?d ''Line A'' ''Mill-1'' ''program'' ''Other'' ''ann''
      = Inr (2, ?db1)"
    by (simp add: spec_create_machine_document_def target names)
       (simp add: example_document_def)
  have res2: "(case spec_find_machine_document_by_name_or_hash (db incoming_world) ''Line A''
                 ''Mill-1'' ''program'' (normalize_doc_name (basename ''/in/Other.txt''))
                 ((\<lambda>content. content) ''G55'') of
            Some existing \<Rightarrow> Inr (doc_id existing, db incoming_world)
          | None \<Rightarrow> spec_create_machine_document (db incoming_world) ''Line A'' ''Mill-1''
                      ''program'' (normalize_doc_name (basename ''/in/Other.txt'')) ''ann'')
        = Inr (2, ?db1)"
    by (simp add: dbw name2 find2 create2)
  have next2: "spec_get_next_machine_document_revision_number ?db1 2 = 1"
    by (simp add: spec_get_next_machine_document_revision_number_def revision_numbers_def
        example_revision_def)
  have lay2: "stored_layout ''Line A'' ''Mill-1'' ''program'' ''Other'' 1
      ''20240103080000'' (suffix ''/in/Other.txt'')
      = ''storage/Line_A/Mill-1/program/Other/rev_1_20240103080000.txt''"
    by (simp add: stored_layout_def string_eval)
  have store2: "store_file ?e ''20240103080000'' Sound (fs incoming_world) ''/in/Other.txt''
      ''Line A'' ''Mill-1'' ''program'' ''Other'' 1
      = (Inr ''storage/Line_A/Mill-1/program/Other/rev_1_20240103080000.txt'',
         (fs incoming_world)
           (''/data/storage/Line_A/Mill-1/program/Other/rev_1_20240103080000.txt'' \<mapsto> ''G55''))"
  proof (rule store_file_sound)
    show "plain (safe_folder_name ''Line A'')" and "plain (safe_folder_name ''Mill-1'')"
      and "plain ''program''" and "plain (safe_folder_name ''Other'')"
      by (simp_all add: string_eval)
    show "os_sep \<notin> set ''20240103080000''"
      by (simp add: os_sep_def)
    show "fs incoming_world ''/in/Other.txt'' = Some ''G55''"
      by (rule src2)
    show "str_path (fst (Path (DATA_DIR ?e)),
          snd (Path (DATA_DIR ?e)) @ [''storage'', safe_folder_name ''Line A'',
            safe_folder_name ''Mill-1'', ''program'', safe_folder_name ''Other'',
            ''rev_'' @ str_int 1 @ ''_'' @ ''20240103080000'' @ suffix ''/in/Other.txt''])
        = ''/data/storage/Line_A/Mill-1/program/Other/rev_1_20240103080000.txt''"
      by (simp add: string_eval)
    show "''/in/Other.txt'' \<noteq> ''/data/storage/Line_A/Mill-1/program/Other/rev_1_20240103080000.txt''"
      by simp
    show "stored_layout ''Line A'' ''Mill-1'' ''program'' ''Other'' 1
        ''20240103080000'' (suffix ''/in/Other.txt'')
        = ''storage/Line_A/Mill-1/program/Other/rev_1_20240103080000.txt''"
      by (rule lay2)
  qed
  have run2: "save_document ?e ''20240103080000'' Sound incoming_world ''/in/Other.txt''
      ''Line A'' ''Mill-1'' ''program'' ''ann''
      = (Inr (), \<lparr>fs = (fs incoming_world)
               (''/data/storage/Line_A/Mill-1/program/Other/rev_1_20240103080000.txt'' \<mapsto> ''G55''),
             db = ?db1\<lparr>revisions := revisions ?db1 @
              [\<lparr>rev_id = fold max (map rev_id (revisions ?db1)) 0 + 1, rev_document_id = 2,
                revision_number = 1,
                stored_path = ''storage/Line_A/Mill-1/program/Other/rev_1_20240103080000.txt'',
                original_filename = basename ''/in/Other.txt'', file_hash = ''G55'',
                created_by = ''ann'', rev_notes = None\<rparr>]\<rparr>\<rparr>)"
    unfolding save_document_spec_resolved [where digest = "\<lambda>content. content", OF src2 res2]
      name2 next2 store2
    by simp
  have match1: "\<exists>x \<in> set (documents (db incoming_world)). same_target x ''Line A'' ''Mill-1'' ''program''
      \<and> (doc_name x = ''Program1 updated'' \<or> has_content (db incoming_world) x ''G01'')"
    by (simp add: dbw target content)
  have match2: "\<not> (\<exists>x \<in> set (documents (db incoming_world)). same_target x ''Line A'' ''Mill-1''
      ''program'' \<and> (doc_name x = ''Other'' \<or> has_content (db incoming_world) x ''G55''))"
    by (simp add: dbw other names)
  from import_resolves_to_existing_document [where digest = "\<lambda>content. content",
      OF src1 run1 name1 [symmetric]] match1
  have keep: "documents (db (snd (save_document ?e ''20240103080000'' Sound incoming_world
      ''/in/Program1_updated.txt'' ''Line A'' ''Mill-1'' ''program'' ''ann'')))
      = documents (db incoming_world)"
    unfolding run1 by simp
  from import_resolves_to_existing_document [where digest = "\<lambda>content. content",
      OF src2 run2 name2 [symmetric]] match2
  obtain d where "documents (db (snd (save_document ?e ''20240103080000'' Sound incoming_world
      ''/in/Other.txt'' ''Line A'' ''Mill-1'' ''program'' ''ann'')))
      = documents (db incoming_world) @ [d]" and "doc_name d = ''Other''"
    unfolding run2 by auto
  then have new: "map doc_name (documents (db (snd (save_document ?e ''20240103080000''
      Sound incoming_world ''/in/Other.txt'' ''Line A'' ''Mill-1'' ''program'' ''ann''))))
      = [''Program1'', ''Other'']"
    by (simp add: dbw names)
  from keep new show ?thesis
    unfolding example_env_def
    by (simp add: dbw) (simp add: run1 run2 example_revision_def)
qed

section \<open>Revision numbers\<close>

lemma revision_numbers_absent:
  assumes "did \<notin> rev_document_id ` set (revisions d)"
  shows "revision_numbers d did = []"
proof -
  from assms have "filter (\<lambda>r. rev_document_id r = did) (revisions d) = []"
    by (auto simp: filter_empty_conv)
  then show ?thesis
    by (simp add: revision_numbers_def)
qed

lemma gapless_iff:
  "gapless d \<longleftrightarrow> (\<forall>did. revision_numbers d did = [1..int (length (revision_numbers d did))])"
proof
  assume g: "gapless d"
  show "\<forall>did. revision_numbers d did = [1..int (length (revision_numbers d did))]"
  proof
    fix did
    show "revision_numbers d did = [1..int (length (revision_numbers d did))]"
    proof (cases "did \<in> rev_document_id ` set (revisions d)")
      case True
      with g show ?thesis
        by (auto simp: gapless_def list_all_iff)
    next
      case False
      then show ?thesis
        by (simp add: revision_numbers_absent)
    qed
  qed
next
  assume "\<forall>did. revision_numbers d did = [1..int (length (revision_numbers d did))]"
  then show "gapless d"
    by (simp add: gapless_def list_all_iff)
qed

lemma fold_max_upto:
  assumes "ns = [1..int (length ns)]" and "ns = n # rest"
  shows "fold max rest n = int (length ns)"
proof -
  have "fold max rest n = Max (set (n # rest))"
    by (rule Max.set_eq_fold [symmetric])
  also from assms have "set (n # rest) = {1..int (length ns)}"
    by (metis set_upto)
  also from assms(2) have "Max {1..int (length ns)} = int (length ns)"
    by (simp add: Max_eq_iff)
  finally show ?thesis .
qed

lemma next_of_gapless:
  assumes "revision_numbers d did = [1..int (length (revision_numbers d did))]"
  shows "spec_get_next_machine_document_revision_number d did
       = int (length (revision_numbers d did)) + 1"
proof (cases "revision_numbers d did")
  case Nil
  then show ?thesis
    by (simp add: spec_get_next_machine_document_revision_number_def)
next
  case (Cons n rest)
  with fold_max_upto [OF assms Cons] show ?thesis
    by (simp add: spec_get_next_machine_document_revision_number_def)
qed

lemma next_is_max_plus_one:
  "spec_get_next_machine_document_revision_number d did
     = (if revision_numbers d did = [] then 1 else Max (set (revision_numbers d did)) + 1)"
proof (cases "revision_numbers d did")
  case Nil
  then show ?thesis
    by (simp add: spec_get_next_machine_document_revision_number_def)
next
  case (Cons n rest)
  have "fold max rest n = Max (set (n # rest))"
    by (rule Max.set_eq_fold [symmetric])
  with Cons show ?thesis
    by (simp add: spec_get_next_machine_document_revision_number_def)
qed

lemma revision_numbers_append:
  "revision_numbers (d\<lparr>revisions := revisions d @ [r]\<rparr>) did
     = (if rev_document_id r = did then revision_numbers d did @ [revision_number r]
        else revision_numbers d did)"
  by (simp add: revision_numbers_def)

lemma gapless_append:
  assumes "gapless d"
    and "revision_number r = spec_get_next_machine_document_revision_number d (rev_document_id r)"
  shows "gapless (d\<lparr>revisions := revisions d @ [r]\<rparr>)"
  unfolding gapless_iff
proof
  fix did
  from assms(1) have g: "revision_numbers d did = [1..int (length (revision_numbers d did))]"
    by (simp add: gapless_iff)
  show "revision_numbers (d\<lparr>revisions := revisions d @ [r]\<rparr>) did
      = [1..int (length (revision_numbers (d\<lparr>revisions := revisions d @ [r]\<rparr>) did))]"
  proof (cases "rev_document_id r = did")
    case False
    with g show ?thesis
      by (simp add: revision_numbers_append)
  next
    case True
    with assms(2) next_of_gapless [OF g]
    have n: "revision_number r = int (length (revision_numbers d did)) + 1"
      by simp
    have "[1..int (length (revision_numbers d did)) + 1]
        = [1..int (length (revision_numbers d did))] @ [int (length (revision_numbers d did)) + 1]"
      by (simp add: upto_rec2)
    with g have "revision_numbers d did @ [int (length (revision_numbers d did)) + 1]
        = [1..int (length (revision_numbers d did)) + 1]"
      by simp
    with True n show ?thesis
      by (simp add: revision_numbers_append)
  qed
qed

lemma gapless_same_revisions:
  assumes "gapless d" and "revisions d' = revisions d"
  shows "gapless d'"
  using assms by (simp add: gapless_def revision_numbers_def)

lemma next_same_revisions:
  assumes "revisions d' = revisions d"
  shows "spec_get_next_machine_document_revision_number d' did
       = spec_get_next_machine_document_revision_number d did"
  using assms by (simp add: spec_get_next_machine_document_revision_number_def revision_numbers_def)

lemma save_document_unresolved:
  assumes "hash_file e (fs w) src = Inr h"
    and "(case find_machine_document_by_name_or_hash e (db w) line machine dtype
                 (normalize_doc_name (basename src)) h of
            Some existing \<Rightarrow> Inr (doc_id existing, db w)
          | None \<Rightarrow> create_machine_document e (db w) line machine dtype
                      (normalize_doc_name (basename src)) user) = Inl exc"
  shows "save_document e now dk w src line machine dtype user = (Inl exc, w)"
  using assms by (simp add: save_document_def Let_def)

text \<open>
  What an import does to the ledger, with the tables of the specification: nothing, or
  one revision appended under the next number of its document.
\<close>

lemma save_document_ledger:
  "revisions (db (snd (save_document (spec_env dd digest login) now dk w src line machine dtype user)))
     = revisions (db w)
   \<and> fst (save_document (spec_env dd digest login) now dk w src line machine dtype user) \<noteq> Inr ()
   \<or> (\<exists>r. db (snd (save_document (spec_env dd digest login) now dk w src line machine dtype user))
            = (db (snd (save_document (spec_env dd digest login) now dk w src line machine dtype user)))
                \<lparr>revisions := revisions (db w) @ [r]\<rparr>
          \<and> revision_number r
               = spec_get_next_machine_document_revision_number (db w) (rev_document_id r))"
proof (cases "fs w src")
  case None
  then have "save_document (spec_env dd digest login) now dk w src line machine dtype user
      = (Inl FileNotFoundError, w)"
    by (simp add: save_document_def hash_file_def)
  then show ?thesis
    by simp
next
  case (Some content)
  let ?e = "spec_env dd digest login"
  let ?res = "case spec_find_machine_document_by_name_or_hash (db w) line machine dtype
                 (normalize_doc_name (basename src)) (digest content) of
            Some existing \<Rightarrow> Inr (doc_id existing, db w)
          | None \<Rightarrow> spec_create_machine_document (db w) line machine dtype
                      (normalize_doc_name (basename src)) user"
  have h: "hash_file ?e (fs w) src = Inr (digest content)"
    by (simp add: hash_file_def Some)
  show ?thesis
  proof (cases ?res)
    case (Inl exc)
    then have "(case find_machine_document_by_name_or_hash ?e (db w) line machine dtype
                 (normalize_doc_name (basename src)) (digest content) of
            Some existing \<Rightarrow> Inr (doc_id existing, db w)
          | None \<Rightarrow> create_machine_document ?e (db w) line machine dtype
                      (normalize_doc_name (basename src)) user) = Inl exc"
      by (auto split: option.splits)
    from save_document_unresolved [OF h this, of now dk] show ?thesis
      by simp
  next
    case (Inr p)
    obtain did db1 where p: "p = (did, db1)"
      by (cases p)
    from Inr p have revs: "revisions db1 = revisions (db w)"
      by (auto split: option.splits dest: spec_create_revisions)
    from Inr p have res: "?res = Inr (did, db1)"
      by simp
    note steps = save_document_spec_resolved [where digest = digest, OF Some res, of dd login now dk]
    obtain stored fls1 where st: "store_file ?e now dk (fs w) src line machine dtype
             (normalize_doc_name (basename src))
             (spec_get_next_machine_document_revision_number db1 did) = (stored, fls1)"
      by (cases "store_file ?e now dk (fs w) src line machine dtype
             (normalize_doc_name (basename src))
             (spec_get_next_machine_document_revision_number db1 did)")
    show ?thesis
    proof (cases stored)
      case (Inl exc)
      with steps st revs show ?thesis
        by simp
    next
      case (Inr sp)
      let ?r = "\<lparr>rev_id = fold max (map rev_id (revisions db1)) 0 + 1, rev_document_id = did,
                revision_number = spec_get_next_machine_document_revision_number db1 did,
                stored_path = sp, original_filename = basename src, file_hash = digest content,
                created_by = user, rev_notes = None\<rparr>"
      from steps st Inr have "save_document ?e now dk w src line machine dtype user
          = (Inr (), \<lparr>fs = fls1, db = db1\<lparr>revisions := revisions db1 @ [?r]\<rparr>\<rparr>)"
        by simp
      moreover have "revision_number ?r
          = spec_get_next_machine_document_revision_number (db w) (rev_document_id ?r)"
        by (simp add: next_same_revisions [OF revs])
      ultimately show ?thesis
        using revs by (intro disjI2 exI [of _ ?r]) simp
    qed
  qed
qed

lemma save_document_gapless:
  assumes "gapless (db w)"
  shows "gapless (db (snd (save_document (spec_env dd digest login) now dk w src line machine dtype user)))"
proof -
  let ?w = "snd (save_document (spec_env dd digest login) now dk w src line machine dtype user)"
  from save_document_ledger [of dd digest login now dk w src line machine dtype user]
  consider "revisions (db ?w) = revisions (db w)"
    | r where "db ?w = (db ?w)\<lparr>revisions := revisions (db w) @ [r]\<rparr>"
      and "revision_number r
               = spec_get_next_machine_document_revision_number (db w) (rev_document_id r)"
    by blast
  then show ?thesis
  proof cases
    case 1
    with assms show ?thesis
      by (rule gapless_same_revisions)
  next
    case 2
    from assms 2(2) have "gapless ((db w)\<lparr>revisions := revisions (db w) @ [r]\<rparr>)"
      by (rule gapless_append)
    moreover from 2(1) have "revisions (db ?w) = revisions ((db w)\<lparr>revisions := revisions (db w) @ [r]\<rparr>)"
      by (metis database.select_convs(2) database.surjective database.update_convs(2))
    ultimately show ?thesis
      by (rule gapless_same_revisions)
  qed
qed

lemma import_each_gapless:
  assumes "gapless (db w)"
  shows "gapless (db (snd (import_each (spec_env dd digest login) line machine dtype user paths w)))"
  using assms
proof (induction paths arbitrary: w)
  case Nil
  then show ?case by simp
next
  case (Cons p paths)
  obtain path now dk where p: "p = (path, now, dk)"
    by (cases p)
  obtain res w1 where s: "save_document (spec_env dd digest login) now dk w path line machine dtype
      user = (res, w1)"
    by (cases "save_document (spec_env dd digest login) now dk w path line machine dtype user")
  from save_document_gapless [OF Cons.prems, of dd digest login now dk path line machine dtype user] s
  have "gapless (db w1)"
    by simp
  then have "gapless (db (snd (import_each (spec_env dd digest login) line machine dtype user paths w1)))"
    by (rule Cons.IH)
  with p s show ?case
    by (cases res) (auto split: prod.splits)
qed

lemma import_documents_gapless:
  assumes "gapless (db w)"
  shows "gapless (db (snd (import_documents (spec_env dd digest login) u paths w dtype)))"
proof -
  obtain evs lm where r: "require_line_machine u = (evs, lm)"
    by (cases "require_line_machine u")
  show ?thesis
  proof (cases lm)
    case None
    with r assms show ?thesis
      by (simp add: import_documents_def)
  next
    case (Some p)
    obtain line machine where "p = (line, machine)"
      by (cases p)
    with Some r assms
      import_each_gapless [OF assms, of dd digest login line machine dtype
        "get_username (spec_env dd digest login) u" paths]
    show ?thesis
      by (simp add: import_documents_def)
  qed
qed

text \<open>
  What a recall does to the ledger, with the tables of the specification: nothing, or one
  revision appended under the next number of its document.
\<close>

lemma recall_selected_ledger:
  "db (snd (recall_selected (spec_env dd digest login) u now dk w)) = db w
   \<or> (\<exists>r. db (snd (recall_selected (spec_env dd digest login) u now dk w))
            = (db w)\<lparr>revisions := revisions (db w) @ [r]\<rparr>
          \<and> revision_number r
               = spec_get_next_machine_document_revision_number (db w) (rev_document_id r))"
proof (cases "db (snd (recall_selected (spec_env dd digest login) u now dk w)) = db w")
  case True
  then show ?thesis
    by simp
next
  case False
  let ?e = "spec_env dd digest login"
  from False obtain rv sel content evs0 line machine dname
    where ro: "\<not> readonly u" and rv: "selected_revision ?e u (db w) = Some rv"
      and sel: "selected_document_id u = Some sel"
      and c: "fs w (str_path (resolve_path ?e (stored_path rv))) = Some content"
      and lm: "require_line_machine u = (evs0, Some (line, machine))"
      and d: "doc_tree_name u = Inr dname"
    by (rule recall_selected_changes)
  define dtype where "dtype = (case selected_doc_type u of None \<Rightarrow> ''program''
                  | Some t \<Rightarrow> if t = [] then ''program'' else t)"
  note steps = recall_selected_steps [OF ro rv sel c lm d dtype_def, of now dk]
  obtain stored fls1 where st: "store_file ?e now dk (fs w) (str_path (resolve_path ?e (stored_path rv)))
      line machine dtype dname (get_next_machine_document_revision_number ?e (db w) sel)
      = (stored, fls1)"
    by (cases "store_file ?e now dk (fs w) (str_path (resolve_path ?e (stored_path rv)))
      line machine dtype dname (get_next_machine_document_revision_number ?e (db w) sel)")
  show ?thesis
  proof (cases stored)
    case (Inl exc)
    with steps st show ?thesis
      by simp
  next
    case (Inr np)
    let ?r = "\<lparr>rev_id = fold max (map rev_id (revisions (db w))) 0 + 1, rev_document_id = sel,
          revision_number = spec_get_next_machine_document_revision_number (db w) sel,
          stored_path = np, original_filename = original_filename rv,
          file_hash = digest content, created_by = get_username ?e u,
          rev_notes = Some ''Recalled previous revision''\<rparr>"
    from steps st Inr have "db (snd (recall_selected ?e u now dk w))
        = (db w)\<lparr>revisions := revisions (db w) @ [?r]\<rparr>"
      by (simp add: spec_add_next)
    then show ?thesis
      by (intro disjI2 exI [of _ ?r]) simp
  qed
qed

lemma recall_selected_gapless:
  assumes "gapless (db w)"
  shows "gapless (db (snd (recall_selected (spec_env dd digest login) u now dk w)))"
  using recall_selected_ledger [of dd digest login u now dk w] assms
  by (auto intro: gapless_append)

lemma delete_document_gapless:
  assumes "gapless (db w)"
  shows "gapless (db (snd (delete_document (spec_env dd digest login) u confirm w)))"
  using assms by (auto simp: delete_document_spec intro: gapless_same_revisions)

lemma perform_gapless:
  assumes "gapless (db w)"
  shows "gapless (db (perform (spec_env dd digest login) a w))"
  using assms
  by (cases a)
    (simp_all add: import_documents_gapless recall_selected_gapless delete_document_gapless)

lemma run_gapless:
  assumes "gapless (db w)"
  shows "gapless (db (run (spec_env dd digest login) acts w))"
  using assms
proof (induction acts arbitrary: w)
  case Nil
  then show ?case by simp
next
  case (Cons a acts)
  from Cons.prems have "gapless (db (perform (spec_env dd digest login) a w))"
    by (rule perform_gapless)
  then show ?case
    using Cons.IH by simp
qed

text \<open>
  C3, with the ledger of the specification. From tables in which the revision numbers of
  every document are \<open>1, 2, \<dots>, N\<close>, any sequence of imports, recalls, deactivations
  and exports, whatever the disk does to the copies, leads to tables in which they are
  so again, in the order of the ledger. An import that succeeds appends exactly one
  revision, and a recall that changes the ledger appends exactly one; the number of the
  new revision is 1 when its document had no revision, and one more than the greatest
  of its numbers otherwise.
\<close>

theorem revision_numbers_stay_gapless:
  assumes "gapless (db w)"
  shows "gapless (db (run (spec_env dd digest login) acts w))
       \<and> (\<forall>did. revision_numbers (db (run (spec_env dd digest login) acts w)) did
             = [1..int (length (revision_numbers (db (run (spec_env dd digest login) acts w)) did))])
       \<and> (save_document (spec_env dd digest login) now dk w src line machine dtype user = (Inr (), w1)
          \<longrightarrow> (\<exists>r. revisions (db w1) = revisions (db w) @ [r]
                 \<and> revision_number r
                     = (if revision_numbers (db w) (rev_document_id r) = [] then 1
                        else Max (set (revision_numbers (db w) (rev_document_id r))) + 1)))
       \<and> (recall_selected (spec_env dd digest login) u now dk w = (evs, w2)
            \<and> revisions (db w2) \<noteq> revisions (db w)
          \<longrightarrow> (\<exists>r. revisions (db w2) = revisions (db w) @ [r]
                 \<and> revision_number r
                     = (if revision_numbers (db w) (rev_document_id r) = [] then 1
                        else Max (set (revision_numbers (db w) (rev_document_id r))) + 1)))"
proof (intro conjI impI)
  from assms show g: "gapless (db (run (spec_env dd digest login) acts w))"
    by (rule run_gapless)
  then show "\<forall>did. revision_numbers (db (run (spec_env dd digest login) acts w)) did
             = [1..int (length (revision_numbers (db (run (spec_env dd digest login) acts w)) did))]"
    by (simp add: gapless_iff)
next
  assume s: "save_document (spec_env dd digest login) now dk w src line machine dtype user
      = (Inr (), w1)"
  with save_document_ledger [of dd digest login now dk w src line machine dtype user]
  obtain r where "db w1 = (db w1)\<lparr>revisions := revisions (db w) @ [r]\<rparr>"
    and n: "revision_number r
               = spec_get_next_machine_document_revision_number (db w) (rev_document_id r)"
    by auto
  then have "revisions (db w1) = revisions (db w) @ [r]"
    by (metis database.select_convs(2) database.surjective database.update_convs(2))
  with n show "\<exists>r. revisions (db w1) = revisions (db w) @ [r]
                 \<and> revision_number r
                     = (if revision_numbers (db w) (rev_document_id r) = [] then 1
                        else Max (set (revision_numbers (db w) (rev_document_id r))) + 1)"
    unfolding next_is_max_plus_one by blast
next
  assume "recall_selected (spec_env dd digest login) u now dk w = (evs, w2)
            \<and> revisions (db w2) \<noteq> revisions (db w)"
  with recall_selected_ledger [of dd digest login u now dk w]
  obtain r where "db w2 = (db w)\<lparr>revisions := revisions (db w) @ [r]\<rparr>"
    and n: "revision_number r
               = spec_get_next_machine_document_revision_number (db w) (rev_document_id r)"
    by auto
  then have "revisions (db w2) = revisions (db w) @ [r]"
    by simp
  with n show "\<exists>r. revisions (db w2) = revisions (db w) @ [r]
                 \<and> revision_number r
                     = (if revision_numbers (db w) (rev_document_id r) = [] then 1
                        else Max (set (revision_numbers (db w) (rev_document_id r))) + 1)"
    unfolding next_is_max_plus_one by blast
qed

lemma example_import:
  "import_documents example_env example_ui [(''/in/Program1.txt'', ''20240101120000'', Sound)]
       \<lparr>fs = [''/in/Program1.txt'' \<mapsto> ''G01''], db = \<lparr>documents = [], revisions = []\<rparr>\<rparr> ''program''
     = ([], example_world)"
proof -
  let ?w = "\<lparr>fs = [''/in/Program1.txt'' \<mapsto> ''G01''], db = \<lparr>documents = [], revisions = []\<rparr>\<rparr>"
  have dd: "DATA_DIR example_env = ''/data''"
    by (simp add: example_env_def)
  have "save_document example_env ''20240101120000'' Sound ?w ''/in/Program1.txt'' ''Line A''
      ''Mill-1'' ''program'' ''ann''
      = (Inr (), \<lparr>fs = fs example_world,
                  db = \<lparr>documents = [example_document], revisions = [example_revision]\<rparr>\<rparr>)"
  proof (rule save_document_new)
    show "fs ?w ''/in/Program1.txt'' = Some ''G01''"
      by simp
    show "normalize_doc_name (basename ''/in/Program1.txt'') = ''Program1''"
      by (rule example_name)
    show "basename ''/in/Program1.txt'' = ''Program1.txt''"
      by (rule example_basename)
    show "spec_find_machine_document_by_name_or_hash (db ?w) ''Line A'' ''Mill-1'' ''program''
        ''Program1'' ''G01'' = None"
      by (simp add: spec_find_machine_document_by_name_or_hash_def)
    show "spec_create_machine_document (db ?w) ''Line A'' ''Mill-1'' ''program'' ''Program1'' ''ann''
        = Inr (1, \<lparr>documents = [example_document], revisions = []\<rparr>)"
      by (simp add: example_create)
    show "spec_get_next_machine_document_revision_number
        \<lparr>documents = [example_document], revisions = []\<rparr> 1 = 1"
      by (simp add: spec_get_next_machine_document_revision_number_def revision_numbers_def)
    show "store_file example_env ''20240101120000'' Sound (fs ?w) ''/in/Program1.txt'' ''Line A''
        ''Mill-1'' ''program'' ''Program1'' 1
        = (Inr ''storage/Line_A/Mill-1/program/Program1/rev_1_20240101120000.txt'', fs example_world)"
      by (simp add: example_store [OF dd])
    show "spec_add_machine_document_revision \<lparr>documents = [example_document], revisions = []\<rparr> 1 1
        ''storage/Line_A/Mill-1/program/Program1/rev_1_20240101120000.txt'' ''Program1.txt''
        ''G01'' ''ann'' None
        = Inr \<lparr>documents = [example_document], revisions = [example_revision]\<rparr>"
      by (simp add: spec_add_machine_document_revision_def example_revision_def
          spec_get_next_machine_document_revision_number_def revision_numbers_def)
  qed
  then have "save_document example_env ''20240101120000'' Sound ?w ''/in/Program1.txt'' ''Line A''
      ''Mill-1'' ''program'' ''ann'' = (Inr (), example_world)"
    by (simp add: example_world_def)
  then show ?thesis
    by (simp add: import_documents_def example_ui_facts(1) example_require example_user)
qed

theorem revision_numbers_stay_gapless_witness:
  "gapless \<lparr>documents = [], revisions = []\<rparr>
   \<and> gapless (db (run example_env
        [Import example_ui [(''/in/Program1.txt'', ''20240101120000'', Sound)] ''program'',
         Recall example_ui ''20240102090000'' Sound]
        \<lparr>fs = [''/in/Program1.txt'' \<mapsto> ''G01''], db = \<lparr>documents = [], revisions = []\<rparr>\<rparr>))
   \<and> revision_numbers (db (run example_env
        [Import example_ui [(''/in/Program1.txt'', ''20240101120000'', Sound)] ''program'',
         Recall example_ui ''20240102090000'' Sound]
        \<lparr>fs = [''/in/Program1.txt'' \<mapsto> ''G01''], db = \<lparr>documents = [], revisions = []\<rparr>\<rparr>)) 1
     = [1, 2]"
proof -
  let ?w = "\<lparr>fs = [''/in/Program1.txt'' \<mapsto> ''G01''], db = \<lparr>documents = [], revisions = []\<rparr>\<rparr>"
  let ?acts = "[Import example_ui [(''/in/Program1.txt'', ''20240101120000'', Sound)] ''program'',
         Recall example_ui ''20240102090000'' Sound]"
  have start: "gapless (db ?w)"
    by (simp add: gapless_def)
  have d: "db example_world = \<lparr>documents = [example_document], revisions = [example_revision]\<rparr>"
    and f: "fs example_world ''/data/storage/Line_A/Mill-1/program/Program1/rev_1_20240101120000.txt''
      = Some ''G01''"
    by (simp_all add: example_world_def)
  have "length (revision_numbers (db (run example_env ?acts ?w)) 1) = 2"
    by (simp add: example_import example_recall [OF d f] revision_numbers_def example_revision_def)
  moreover from revision_numbers_stay_gapless [OF start, of "''/data''" "\<lambda>content. content" None ?acts]
  have g: "gapless (db (run example_env ?acts ?w))"
    and "revision_numbers (db (run example_env ?acts ?w)) 1
      = [1..int (length (revision_numbers (db (run example_env ?acts ?w)) 1))]"
    unfolding example_env_def by blast+
  ultimately have "revision_numbers (db (run example_env ?acts ?w)) 1 = [1..2]"
    by simp
  also have "[1..2] = [1, 2::int]"
    by (simp add: upto.simps)
  finally show ?thesis
    using g by (simp add: gapless_def)
qed

end
